(* ===== verification/Py_Prelude.thy ===== *)
theory Py_Prelude
  imports Main "HOL-Library.Word"
begin

text \<open>
  Shared vocabulary of the development: Python exceptions as values, results
  (\<open>exn + 'a\<close>), effects (state passing in which a raise keeps the state changes made
  before it, as in Python), slices, and the two interfaces that most components
  share: a codec (an encoder with a decoder that undoes it) and a sealed box (an
  encryption whose opening gives the plaintext back).
\<close>

section \<open>Exceptions and results\<close>

text \<open>
  One constructor per exception class that the modelled code raises or catches.
  \<open>ValueError\<close>, \<open>KeyError\<close> and \<open>PQXDHError\<close> carry the constant text of the message
  (the key, for a \<open>KeyError\<close>); values interpolated into a message are left out.
  \<open>LibraryError\<close> stands for the exception classes of third-party packages that the
  code never names (it catches them with \<open>except Exception\<close> only).
\<close>

datatype exn =
    ValueError string
  | TypeError
  | KeyError string
  | AssertionError
  | OverflowError
  | StructError
  | RecursionError
  | UnicodeEncodeError
  | UnicodeDecodeError
  | JSONDecodeError
  | FileNotFoundError
  | FileExistsError
  | OSError
  | InvalidTag
  | AttributeError
  | HeaderCounterError
  | SignatureVerificationError
  | MalformedSignedCiphertextError
  | PQXDHError string
  | SPKVerificationError
  | NoPrekeyError
  | MalformedBundleError
  | LibraryError string

text \<open>Subclass tests, for the \<open>except\<close> clauses of the source.\<close>

fun is_value_error :: "exn \<Rightarrow> bool" where
  "is_value_error (ValueError m) = True"
| "is_value_error UnicodeEncodeError = True"
| "is_value_error UnicodeDecodeError = True"
| "is_value_error JSONDecodeError = True"
| "is_value_error _ = False"

fun is_key_error :: "exn \<Rightarrow> bool" where
  "is_key_error (KeyError k) = True"
| "is_key_error _ = False"

fun is_os_error :: "exn \<Rightarrow> bool" where
  "is_os_error OSError = True"
| "is_os_error FileNotFoundError = True"
| "is_os_error FileExistsError = True"
| "is_os_error _ = False"

type_synonym 'a res = "exn + 'a"

named_theorems bind_simps \<open>unfolding of the result and effect combinators\<close>

definition bindR :: "'a res \<Rightarrow> ('a \<Rightarrow> 'b res) \<Rightarrow> 'b res" where
  "bindR m f = (case m of Inl e \<Rightarrow> Inl e | Inr x \<Rightarrow> f x)"

definition guardR :: "bool \<Rightarrow> exn \<Rightarrow> unit res" where
  "guardR b e = (if b then Inr () else Inl e)"

lemma bindR_Inr [simp, bind_simps]: "bindR (Inr x) f = f x"
  by (simp add: bindR_def)

lemma bindR_Inl [simp, bind_simps]: "bindR (Inl e) f = Inl e"
  by (simp add: bindR_def)

lemma bindR_Inr_iff: "bindR m f = Inr y \<longleftrightarrow> (\<exists>x. m = Inr x \<and> f x = Inr y)"
  by (cases m) auto

lemma bindR_Inl_iff:
  "bindR m f = Inl e \<longleftrightarrow> m = Inl e \<or> (\<exists>x. m = Inr x \<and> f x = Inl e)"
  by (cases m) auto

lemma bindR_cong:
  "m = m' \<Longrightarrow> (\<And>x. m' = Inr x \<Longrightarrow> f x = f' x) \<Longrightarrow> bindR m f = bindR m' f'"
  by (cases m') auto

lemma bindR_assoc: "bindR (bindR m f) g = bindR m (\<lambda>x. bindR (f x) g)"
  by (cases m) auto

lemma guardR_Inr_iff [simp, bind_simps]: "guardR b e = Inr u \<longleftrightarrow> b"
  by (simp add: guardR_def)

lemma guardR_Inl_iff [simp, bind_simps]: "guardR b e = Inl x \<longleftrightarrow> \<not> b \<and> x = e"
  by (auto simp add: guardR_def)

lemma guardR_True [simp, bind_simps]: "guardR True e = Inr ()"
  by (simp add: guardR_def)

lemma guardR_False [simp, bind_simps]: "guardR False e = Inl e"
  by (simp add: guardR_def)

text \<open>A comprehension whose element expression can raise stops at the first error.\<close>

fun mapR :: "('a \<Rightarrow> 'b res) \<Rightarrow> 'a list \<Rightarrow> 'b list res" where
  "mapR f [] = Inr []"
| "mapR f (x # xs) = bindR (f x) (\<lambda>y. bindR (mapR f xs) (\<lambda>ys. Inr (y # ys)))"

lemma mapR_map_Inr: "(\<And>x. x \<in> set xs \<Longrightarrow> f x = Inr (g x)) \<Longrightarrow> mapR f xs = Inr (map g xs)"
  by (induction xs) auto

lemma mapR_of_map: "mapR f (map g xs) = mapR (\<lambda>x. f (g x)) xs"
  by (induction xs) auto

lemma mapR_length: "mapR f xs = Inr ys \<Longrightarrow> length ys = length xs"
  by (induction xs arbitrary: ys) (auto simp: bindR_Inr_iff)

section \<open>Effects\<close>

type_synonym ('s, 'a) eff = "'s \<Rightarrow> 'a res \<times> 's"

definition returnE :: "'a \<Rightarrow> ('s, 'a) eff" where
  "returnE x s = (Inr x, s)"

definition raiseE :: "exn \<Rightarrow> ('s, 'a) eff" where
  "raiseE e s = (Inl e, s)"

definition liftE :: "'a res \<Rightarrow> ('s, 'a) eff" where
  "liftE r s = (r, s)"

definition bindE :: "('s, 'a) eff \<Rightarrow> ('a \<Rightarrow> ('s, 'b) eff) \<Rightarrow> ('s, 'b) eff" where
  "bindE m f s = (case m s of (Inl e, t) \<Rightarrow> (Inl e, t) | (Inr x, t) \<Rightarrow> f x t)"

definition getE :: "('s \<Rightarrow> 'a) \<Rightarrow> ('s, 'a) eff" where
  "getE f s = (Inr (f s), s)"

definition modifyE :: "('s \<Rightarrow> 's) \<Rightarrow> ('s, unit) eff" where
  "modifyE f s = (Inr (), f s)"

definition guardE :: "bool \<Rightarrow> exn \<Rightarrow> ('s, unit) eff" where
  "guardE b e s = (guardR b e, s)"

text \<open>
  \<open>try: m except C: k\<close>: the handler names the exceptions it takes; the state is the
  one at the raise. \<open>finallyE\<close> runs a state change on both exits.
\<close>

definition tryE :: "('s, 'a) eff \<Rightarrow> (exn \<Rightarrow> ('s, 'a) eff option) \<Rightarrow> ('s, 'a) eff" where
  "tryE m h s = (case m s of
       (Inl e, t) \<Rightarrow> (case h e of None \<Rightarrow> (Inl e, t) | Some k \<Rightarrow> k t)
     | (Inr x, t) \<Rightarrow> (Inr x, t))"

definition finallyE :: "('s, 'a) eff \<Rightarrow> ('s \<Rightarrow> 's) \<Rightarrow> ('s, 'a) eff" where
  "finallyE m f s = (case m s of (r, t) \<Rightarrow> (r, f t))"

text \<open>Running an effect on a part of a larger state.\<close>

definition zoomE :: "('t \<Rightarrow> 's) \<Rightarrow> ('s \<Rightarrow> 't \<Rightarrow> 't) \<Rightarrow> ('s, 'a) eff \<Rightarrow> ('t, 'a) eff" where
  "zoomE get put m t = (case m (get t) of (r, s) \<Rightarrow> (r, put s t))"

lemma returnE_apply [simp, bind_simps]: "returnE x s = (Inr x, s)"
  by (simp add: returnE_def)

lemma raiseE_apply [simp, bind_simps]: "raiseE e s = (Inl e, s)"
  by (simp add: raiseE_def)

lemma liftE_apply [simp, bind_simps]: "liftE r s = (r, s)"
  by (simp add: liftE_def)

lemma getE_apply [simp, bind_simps]: "getE f s = (Inr (f s), s)"
  by (simp add: getE_def)

lemma modifyE_apply [simp, bind_simps]: "modifyE f s = (Inr (), f s)"
  by (simp add: modifyE_def)

lemma guardE_apply [simp, bind_simps]: "guardE b e s = (guardR b e, s)"
  by (simp add: guardE_def)

lemma bindE_Inr [simp, bind_simps]: "m s = (Inr x, t) \<Longrightarrow> bindE m f s = f x t"
  by (simp add: bindE_def)

lemma bindE_Inl [simp, bind_simps]: "m s = (Inl e, t) \<Longrightarrow> bindE m f s = (Inl e, t)"
  by (simp add: bindE_def)

lemma bindE_eq_Inr:
  "bindE m f s = (Inr y, u) \<longleftrightarrow> (\<exists>x t. m s = (Inr x, t) \<and> f x t = (Inr y, u))"
  by (auto simp: bindE_def split: prod.splits sum.splits)

lemma bindE_eq_Inl:
  "bindE m f s = (Inl e, u) \<longleftrightarrow>
     m s = (Inl e, u) \<or> (\<exists>x t. m s = (Inr x, t) \<and> f x t = (Inl e, u))"
  by (auto simp: bindE_def split: prod.splits sum.splits)

lemma snd_bindE:
  "snd (bindE m f s) = (case m s of (Inl e, t) \<Rightarrow> t | (Inr x, t) \<Rightarrow> snd (f x t))"
  by (auto simp: bindE_def split: prod.splits sum.splits)

lemma bindE_assoc: "bindE (bindE m f) g = bindE m (\<lambda>x. bindE (f x) g)"
  by (rule ext) (auto simp: bindE_def split: prod.splits sum.splits)

text \<open>
  A property of the state that every step keeps is kept by the composed effect,
  whether it returns or raises.
\<close>

definition keepsE :: "('s \<Rightarrow> bool) \<Rightarrow> ('s, 'a) eff \<Rightarrow> bool" where
  "keepsE P m \<longleftrightarrow> (\<forall>s. P s \<longrightarrow> P (snd (m s)))"

named_theorems keeps_intros \<open>composition rules for invariants of effects\<close>

lemma keepsED: "keepsE P m \<Longrightarrow> P s \<Longrightarrow> P (snd (m s))"
  by (simp add: keepsE_def)

lemma keepsE_state: "keepsE P m \<Longrightarrow> P s \<Longrightarrow> m s = (r, t) \<Longrightarrow> P t"
  by (auto simp: keepsE_def dest: spec [of _ s])

lemma keepsE_return [keeps_intros]: "keepsE P (returnE x)"
  by (simp add: keepsE_def)

lemma keepsE_raise [keeps_intros]: "keepsE P (raiseE e)"
  by (simp add: keepsE_def)

lemma keepsE_lift [keeps_intros]: "keepsE P (liftE r)"
  by (simp add: keepsE_def)

lemma keepsE_get [keeps_intros]: "keepsE P (getE f)"
  by (simp add: keepsE_def)

lemma keepsE_guard [keeps_intros]: "keepsE P (guardE b e)"
  by (simp add: keepsE_def)

lemma keepsE_bind [keeps_intros]:
  assumes "keepsE P m" and "\<And>x. keepsE P (f x)"
  shows "keepsE P (bindE m f)"
  using assms by (auto simp: keepsE_def bindE_def split: prod.splits sum.splits)

lemma keepsE_if [keeps_intros]:
  "(b \<Longrightarrow> keepsE P m) \<Longrightarrow> (\<not> b \<Longrightarrow> keepsE P n) \<Longrightarrow> keepsE P (if b then m else n)"
  by simp

lemma keepsE_try [keeps_intros]:
  assumes "keepsE P m" and "\<And>e k. h e = Some k \<Longrightarrow> keepsE P k"
  shows "keepsE P (tryE m h)"
  using assms by (auto simp: keepsE_def tryE_def split: prod.splits sum.splits option.splits)

text \<open>
  The same with a property of the returned value: from a state with \<open>P\<close> the effect ends in
  a state with \<open>P\<close>, and what it returns, if it returns, satisfies \<open>Q\<close>.
\<close>

definition yieldsE :: "('s \<Rightarrow> bool) \<Rightarrow> ('s, 'a) eff \<Rightarrow> ('a \<Rightarrow> bool) \<Rightarrow> bool" where
  "yieldsE P m Q \<longleftrightarrow> (\<forall>s. P s \<longrightarrow> P (snd (m s)) \<and> (\<forall>x. fst (m s) = Inr x \<longrightarrow> Q x))"

named_theorems yields_intros \<open>composition rules for invariants and results of effects\<close>

lemma yieldsED: "yieldsE P m Q \<Longrightarrow> P s \<Longrightarrow> m s = (r, t) \<Longrightarrow> P t \<and> (\<forall>x. r = Inr x \<longrightarrow> Q x)"
  by (auto simp: yieldsE_def dest: spec [of _ s])

lemma yieldsE_weaken: "yieldsE P m Q \<Longrightarrow> (\<And>x. Q x \<Longrightarrow> Q' x) \<Longrightarrow> yieldsE P m Q'"
  by (simp add: yieldsE_def)

lemma yieldsE_keeps: "yieldsE P m Q \<Longrightarrow> keepsE P m"
  by (simp add: yieldsE_def keepsE_def)

lemma keepsE_yields: "keepsE P m \<Longrightarrow> yieldsE P m (\<lambda>_. True)"
  by (simp add: yieldsE_def keepsE_def)

lemma yieldsE_bind:
  assumes "yieldsE P m Q" and "\<And>x. Q x \<Longrightarrow> yieldsE P (f x) Q'"
  shows "yieldsE P (bindE m f) Q'"
  using assms by (auto simp: yieldsE_def bindE_def split: prod.splits sum.splits)

lemma yieldsE_return [yields_intros]: "Q x \<Longrightarrow> yieldsE P (returnE x) Q"
  by (simp add: yieldsE_def)

lemma yieldsE_raise [yields_intros]: "yieldsE P (raiseE e) Q"
  by (simp add: yieldsE_def)

lemma yieldsE_lift [yields_intros]: "(\<And>x. r = Inr x \<Longrightarrow> Q x) \<Longrightarrow> yieldsE P (liftE r) Q"
  by (simp add: yieldsE_def)

lemma yieldsE_get [yields_intros]: "(\<And>s. P s \<Longrightarrow> Q (f s)) \<Longrightarrow> yieldsE P (getE f) Q"
  by (simp add: yieldsE_def)

lemma yieldsE_modify [yields_intros]: "(\<And>s. P s \<Longrightarrow> P (f s)) \<Longrightarrow> Q () \<Longrightarrow> yieldsE P (modifyE f) Q"
  by (simp add: yieldsE_def)

lemma yieldsE_guard [yields_intros]: "(b \<Longrightarrow> Q ()) \<Longrightarrow> yieldsE P (guardE b e) Q"
  by (simp add: yieldsE_def)

lemma yieldsE_if [yields_intros]:
  "(b \<Longrightarrow> yieldsE P m Q) \<Longrightarrow> (\<not> b \<Longrightarrow> yieldsE P n Q) \<Longrightarrow> yieldsE P (if b then m else n) Q"
  by simp

lemma yieldsE_case_option [yields_intros]:
  "(x = None \<Longrightarrow> yieldsE P m Q) \<Longrightarrow> (\<And>y. x = Some y \<Longrightarrow> yieldsE P (f y) Q) \<Longrightarrow>
     yieldsE P (case x of None \<Rightarrow> m | Some y \<Rightarrow> f y) Q"
  by (cases x) auto

lemma yieldsE_case_prod [yields_intros]:
  "(\<And>a b. x = (a, b) \<Longrightarrow> yieldsE P (f a b) Q) \<Longrightarrow> yieldsE P (case x of (a, b) \<Rightarrow> f a b) Q"
  by (cases x) auto

lemma yieldsE_case_sum [yields_intros]:
  "(\<And>a. x = Inl a \<Longrightarrow> yieldsE P (f a) Q) \<Longrightarrow> (\<And>b. x = Inr b \<Longrightarrow> yieldsE P (g b) Q) \<Longrightarrow>
     yieldsE P (case x of Inl a \<Rightarrow> f a | Inr b \<Rightarrow> g b) Q"
  by (cases x) auto

lemma yieldsE_try [yields_intros]:
  assumes "yieldsE P m Q" and "\<And>e k. h e = Some k \<Longrightarrow> yieldsE P k Q"
  shows "yieldsE P (tryE m h) Q"
  unfolding yieldsE_def
proof (intro allI impI)
  fix s assume P: "P s"
  obtain r t where m: "m s = (r, t)" by force
  note t = yieldsED [OF assms(1) P m]
  show "P (snd (tryE m h s)) \<and> (\<forall>x. fst (tryE m h s) = Inr x \<longrightarrow> Q x)"
  proof (cases r)
    case (Inl e)
    with t m assms(2) [of e] show ?thesis
      by (cases "h e") (auto simp: tryE_def yieldsE_def)
  next
    case (Inr x)
    with t m show ?thesis by (simp add: tryE_def)
  qed
qed

lemma yieldsE_finally [yields_intros]:
  "yieldsE P m Q \<Longrightarrow> (\<And>s. P s \<Longrightarrow> P (f s)) \<Longrightarrow> yieldsE P (finallyE m f) Q"
  by (auto simp: yieldsE_def finallyE_def split: prod.splits)

text \<open>
  Sequencing, by the shape of the first step; the general rule comes last and forgets the
  first result.
\<close>

lemma yields_bind_lift: "(\<And>x. r = Inr x \<Longrightarrow> yieldsE P (f x) Q) \<Longrightarrow> yieldsE P (bindE (liftE r) f) Q"
  by (auto simp: yieldsE_def bindE_def split: sum.splits)

lemma yields_bind_get: "(\<And>s. P s \<Longrightarrow> yieldsE P (f (g s)) Q) \<Longrightarrow> yieldsE P (bindE (getE g) f) Q"
  by (auto simp: yieldsE_def)

lemma yields_bind_guard: "(b \<Longrightarrow> yieldsE P (f ()) Q) \<Longrightarrow> yieldsE P (bindE (guardE b e) f) Q"
  by (auto simp: yieldsE_def bindE_def guardR_def)

lemma yields_bind_modify:
  "(\<And>s. P s \<Longrightarrow> P (h s)) \<Longrightarrow> yieldsE P (f ()) Q \<Longrightarrow> yieldsE P (bindE (modifyE h) f) Q"
  by (auto simp: yieldsE_def)

lemma yields_bind_return: "yieldsE P (f x) Q \<Longrightarrow> yieldsE P (bindE (returnE x) f) Q"
  by (auto simp: yieldsE_def)

lemma yields_bind_any: "yieldsE P m (\<lambda>_. True) \<Longrightarrow> (\<And>x. yieldsE P (f x) Q) \<Longrightarrow> yieldsE P (bindE m f) Q"
  by (rule yieldsE_bind)

lemmas yields_binds = yields_bind_lift yields_bind_get yields_bind_guard yields_bind_modify
  yields_bind_return yields_bind_any

section \<open>Slices\<close>

text \<open>\<open>xs[i:j]\<close> for non-negative indices: out-of-range bounds are cut, never an error.\<close>

definition pyslice :: "'a list \<Rightarrow> nat \<Rightarrow> nat \<Rightarrow> 'a list" where
  "pyslice xs i j = take (j - i) (drop i xs)"

lemma length_pyslice: "length (pyslice xs i j) = min (length xs) j - i"
  by (simp add: pyslice_def min_def)

lemma pyslice_append_left [simp]:
  "j \<le> length xs \<Longrightarrow> pyslice (xs @ ys) i j = pyslice xs i j"
  by (cases "i \<le> j") (auto simp: pyslice_def)

lemma pyslice_append_right [simp]:
  "length xs \<le> i \<Longrightarrow> pyslice (xs @ ys) i j = pyslice ys (i - length xs) (j - length xs)"
  by (simp add: pyslice_def)

lemma pyslice_full: "length xs \<le> j \<Longrightarrow> pyslice xs 0 j = xs"
  by (simp add: pyslice_def)

lemma pyslice_split: "i \<le> j \<Longrightarrow> j \<le> k \<Longrightarrow> pyslice xs i k = pyslice xs i j @ pyslice xs j k"
proof -
  assume ij: "i \<le> j" and jk: "j \<le> k"
  have "pyslice xs i k = take ((j - i) + (k - j)) (drop i xs)"
    using ij jk by (simp add: pyslice_def)
  also have "\<dots> = take (j - i) (drop i xs) @ take (k - j) (drop (j - i) (drop i xs))"
    by (rule take_add)
  finally show ?thesis using ij by (simp add: pyslice_def)
qed

section \<open>Codecs\<close>

text \<open>
  The contract of the code's serialisers (\<open>pack\<close>/\<open>unpack\<close>, \<open>hex\<close>/\<open>fromhex\<close>,
  \<open>to_dict\<close>/\<open>from_dict\<close>, \<open>to_bytes\<close>/\<open>from_bytes\<close>): on the values it is meant for,
  what the encoder returns decodes to the value.
\<close>

locale codec =
  fixes enc :: "'a \<Rightarrow> 'b res"
    and dec :: "'b \<Rightarrow> 'a res"
    and valid :: "'a \<Rightarrow> bool"
  assumes dec_enc: "valid x \<Longrightarrow> enc x = Inr b \<Longrightarrow> dec b = Inr x"
begin

lemma enc_inj: "valid x \<Longrightarrow> valid y \<Longrightarrow> enc x = Inr b \<Longrightarrow> enc y = Inr b \<Longrightarrow> x = y"
  using dec_enc [of x b] dec_enc [of y b] by simp

lemma enc_neq: "valid x \<Longrightarrow> valid y \<Longrightarrow> x \<noteq> y \<Longrightarrow> enc x = Inr b \<Longrightarrow> enc y \<noteq> Inr b"
  using enc_inj by blast

lemma bind_dec_enc: "valid x \<Longrightarrow> enc x = Inr b \<Longrightarrow> bindR (dec b) f = f x"
  by (simp add: dec_enc)

end

text \<open>A codec in which every accepted input is the canonical encoding of its value.\<close>

locale strict_codec = codec +
  assumes enc_dec: "dec b = Inr x \<Longrightarrow> valid x \<and> enc x = Inr b"
begin

lemma dec_iff: "dec b = Inr x \<longleftrightarrow> valid x \<and> enc x = Inr b"
  using dec_enc enc_dec by blast

lemma dec_inj: "dec b = Inr x \<Longrightarrow> dec c = Inr x \<Longrightarrow> b = c"
  using enc_dec [of b x] enc_dec [of c x] by simp

end

section \<open>Sealed boxes\<close>

text \<open>
  The contract shared by the code's four encryption layers: opening what was sealed
  under the same parameters gives the plaintext. \<open>ok\<close> holds of the parameters
  (library, key and nonce) under which sealing is meant to work.
\<close>

locale sealed_box =
  fixes seal :: "'k \<Rightarrow> 'n \<Rightarrow> 'd \<Rightarrow> 'p \<Rightarrow> 'c res"
    and opened :: "'k \<Rightarrow> 'n \<Rightarrow> 'd \<Rightarrow> 'c \<Rightarrow> 'p res"
    and ok :: "'k \<Rightarrow> 'n \<Rightarrow> bool"
  assumes seal_total: "ok k n \<Longrightarrow> \<exists>c. seal k n ad p = Inr c"
    and open_seal: "ok k n \<Longrightarrow> seal k n ad p = Inr c \<Longrightarrow> opened k n ad c = Inr p"
begin

lemma roundtrip: "ok k n \<Longrightarrow> bindR (seal k n ad p) (opened k n ad) = Inr p"
  using seal_total [of k n ad p] open_seal [of k n ad p] by auto

lemma seal_inj:
  "ok k n \<Longrightarrow> seal k n ad p = Inr c \<Longrightarrow> seal k n ad q = Inr c \<Longrightarrow> p = q"
  using open_seal [of k n ad p c] open_seal [of k n ad q c] by simp

end

end
