(* ===== verification/Py_Bytes.thy ===== *)
theory Py_Bytes
  imports Py_Prelude
begin

text \<open>
  Python \<open>bytes\<close> as lists of 8-bit words, the integer encodings of the standard
  library that the code uses (\<open>struct.pack\<close>/\<open>unpack\<close> with \<open><I\<close>, \<open><Q\<close>, \<open>>I\<close>,
  \<open>int.to_bytes\<close>, \<open>int.from_bytes\<close>), xor of byte strings and the source of
  randomness (\<open>os.urandom\<close>).
\<close>

unbundle bit_operations_syntax

type_synonym byte = "8 word"
type_synonym bytes = "byte list"

definition byte_of :: "nat \<Rightarrow> byte" where
  "byte_of n = word_of_nat n"

lemma unat_byte_less [simp]: "unat (b :: byte) < 256"
  using unsigned_less [of b] by simp

lemma unat_byte_of [simp]: "unat (byte_of n) = n mod 256"
  by (simp add: byte_of_def unat_of_nat)

lemma byte_of_unat [simp]: "byte_of (unat b) = b"
  by (simp add: byte_of_def)

lemma byte_of_eq_iff: "byte_of m = byte_of n \<longleftrightarrow> m mod 256 = n mod 256"
  by (metis byte_of_unat unat_byte_of)

section \<open>Base 256\<close>

primrec le_bytes :: "nat \<Rightarrow> nat \<Rightarrow> bytes" where
  "le_bytes 0 n = []"
| "le_bytes (Suc k) n = byte_of n # le_bytes k (n div 256)"

primrec le_nat :: "bytes \<Rightarrow> nat" where
  "le_nat [] = 0"
| "le_nat (b # bs) = unat b + 256 * le_nat bs"

definition be_bytes :: "nat \<Rightarrow> nat \<Rightarrow> bytes" where
  "be_bytes k n = rev (le_bytes k n)"

definition be_nat :: "bytes \<Rightarrow> nat" where
  "be_nat bs = le_nat (rev bs)"

lemma length_le_bytes [simp]: "length (le_bytes k n) = k"
  by (induction k arbitrary: n) auto

lemma length_be_bytes [simp]: "length (be_bytes k n) = k"
  by (simp add: be_bytes_def)

lemma le_nat_le_bytes: "le_nat (le_bytes k n) = n mod 256 ^ k"
proof (induction k arbitrary: n)
  case (Suc k)
  have "n mod (256 * 256 ^ k) = 256 * (n div 256 mod 256 ^ k) + n mod 256"
    by (rule mod_mult2_eq)
  then show ?case by (simp add: Suc)
qed simp

lemma le_bytes_le_nat: "le_bytes (length bs) (le_nat bs) = bs"
proof (induction bs)
  case (Cons b bs)
  have "byte_of (unat b + 256 * le_nat bs) = byte_of (unat b)"
    by (simp only: byte_of_eq_iff mod_mult_self2)
  then have "byte_of (unat b + 256 * le_nat bs) = b" by simp
  moreover have "(unat b + 256 * le_nat bs) div 256 = le_nat bs"
    by simp
  ultimately show ?case using Cons by simp
qed simp

lemma le_nat_less: "le_nat bs < 256 ^ length bs"
proof (induction bs)
  case (Cons b bs)
  have "unat b + 256 * le_nat bs < 256 + 256 * le_nat bs" by simp
  also have "\<dots> = 256 * Suc (le_nat bs)" by simp
  also have "\<dots> \<le> 256 * 256 ^ length bs" using Cons by (intro mult_le_mono) auto
  finally show ?case by simp
qed simp

lemma le_nat_inj: "length bs = length cs \<Longrightarrow> le_nat bs = le_nat cs \<Longrightarrow> bs = cs"
  by (metis le_bytes_le_nat)

lemma be_nat_be_bytes: "be_nat (be_bytes k n) = n mod 256 ^ k"
  by (simp add: be_nat_def be_bytes_def le_nat_le_bytes)

lemma be_bytes_be_nat: "be_bytes (length bs) (be_nat bs) = bs"
  using le_bytes_le_nat [of "rev bs"] by (simp add: be_nat_def be_bytes_def)

lemma be_nat_less: "be_nat bs < 256 ^ length bs"
  using le_nat_less [of "rev bs"] by (simp add: be_nat_def)

lemma le_bytes_inj:
  "m < 256 ^ k \<Longrightarrow> n < 256 ^ k \<Longrightarrow> le_bytes k m = le_bytes k n \<Longrightarrow> m = n"
  by (metis le_nat_le_bytes mod_less)

section \<open>struct and int\<close>

text \<open>Little-endian and big-endian unsigned fields of \<open>w\<close> bytes; out of range raises.\<close>

definition pack_le :: "nat \<Rightarrow> int \<Rightarrow> bytes res" where
  "pack_le w n = (if 0 \<le> n \<and> n < 256 ^ w then Inr (le_bytes w (nat n)) else Inl StructError)"

definition pack_be :: "nat \<Rightarrow> int \<Rightarrow> bytes res" where
  "pack_be w n = (if 0 \<le> n \<and> n < 256 ^ w then Inr (be_bytes w (nat n)) else Inl StructError)"

definition unpack_le :: "nat \<Rightarrow> bytes \<Rightarrow> int res" where
  "unpack_le w bs = (if length bs = w then Inr (int (le_nat bs)) else Inl StructError)"

abbreviation pack_I :: "int \<Rightarrow> bytes res" where "pack_I \<equiv> pack_le 4"
abbreviation pack_Q :: "int \<Rightarrow> bytes res" where "pack_Q \<equiv> pack_le 8"
abbreviation pack_I_be :: "int \<Rightarrow> bytes res" where "pack_I_be \<equiv> pack_be 4"
abbreviation unpack_I :: "bytes \<Rightarrow> int res" where "unpack_I \<equiv> unpack_le 4"

text \<open>\<open>n.to_bytes(k, "big")\<close> and \<open>int.from_bytes(bs, "big")\<close>.\<close>

definition to_bytes_big :: "nat \<Rightarrow> int \<Rightarrow> bytes res" where
  "to_bytes_big k n = (if 0 \<le> n \<and> n < 256 ^ k then Inr (be_bytes k (nat n)) else Inl OverflowError)"

definition from_bytes_big :: "bytes \<Rightarrow> int" where
  "from_bytes_big bs = int (be_nat bs)"

lemma nat_less_256_power: "0 \<le> n \<Longrightarrow> n < 256 ^ w \<Longrightarrow> nat n < 256 ^ w"
  by (simp add: nat_less_iff)

lemma int_less_256_power: "m < 256 ^ w \<Longrightarrow> int m < 256 ^ w"
  by (metis of_nat_less_iff of_nat_numeral of_nat_power)

lemma pack_le_Inr_iff:
  "pack_le w n = Inr bs \<longleftrightarrow> 0 \<le> n \<and> n < 256 ^ w \<and> bs = le_bytes w (nat n)"
  by (auto simp: pack_le_def)

lemma pack_le_length: "pack_le w n = Inr bs \<Longrightarrow> length bs = w"
  by (auto simp: pack_le_Inr_iff)

lemma pack_be_length: "pack_be w n = Inr bs \<Longrightarrow> length bs = w"
  by (auto simp: pack_be_def split: if_splits)

lemma unpack_pack_le: "pack_le w n = Inr bs \<Longrightarrow> unpack_le w bs = Inr n"
  by (auto simp: pack_le_Inr_iff unpack_le_def le_nat_le_bytes nat_less_256_power)

lemma pack_unpack_le: "unpack_le w bs = Inr n \<Longrightarrow> pack_le w n = Inr bs"
  using le_nat_less [of bs]
  by (auto simp: pack_le_def unpack_le_def le_bytes_le_nat int_less_256_power split: if_splits)

lemma pack_be_inj: "pack_be w m = Inr bs \<Longrightarrow> pack_be w n = Inr bs \<Longrightarrow> m = n"
proof -
  assume "pack_be w m = Inr bs" and "pack_be w n = Inr bs"
  then have r: "0 \<le> m" "m < 256 ^ w" "0 \<le> n" "n < 256 ^ w"
    and e: "le_bytes w (nat m) = le_bytes w (nat n)"
    by (auto simp: pack_be_def be_bytes_def split: if_splits)
  have "nat m = nat n"
    using nat_less_256_power [OF r(1,2)] nat_less_256_power [OF r(3,4)] e by (rule le_bytes_inj)
  with r(1,3) show ?thesis by simp
qed

interpretation le_field: strict_codec "pack_le w" "unpack_le w" "\<lambda>_. True" for w
  by unfold_locales (auto intro: unpack_pack_le pack_unpack_le)

lemma from_to_bytes_big: "to_bytes_big k n = Inr bs \<Longrightarrow> from_bytes_big bs = n"
  by (auto simp: to_bytes_big_def from_bytes_big_def be_nat_be_bytes nat_less_256_power
      split: if_splits)

lemma to_bytes_big_length: "to_bytes_big k n = Inr bs \<Longrightarrow> length bs = k"
  by (auto simp: to_bytes_big_def split: if_splits)

lemma from_bytes_big_nonneg [simp]: "0 \<le> from_bytes_big bs"
  by (simp add: from_bytes_big_def)

lemma to_from_bytes_big: "length bs = k \<Longrightarrow> to_bytes_big k (from_bytes_big bs) = Inr bs"
  using be_nat_less [of bs]
  by (auto simp: to_bytes_big_def from_bytes_big_def be_bytes_be_nat int_less_256_power)

section \<open>Byte strings\<close>

definition zeros :: "nat \<Rightarrow> bytes" where
  "zeros n = replicate n 0"

text \<open>\<open>bytes(a ^ b for a, b in zip(xs, ys))\<close>\<close>

definition xor_bytes :: "bytes \<Rightarrow> bytes \<Rightarrow> bytes" where
  "xor_bytes xs ys = map (\<lambda>(a, b). a XOR b) (zip xs ys)"

text \<open>\<open>hmac.compare_digest\<close> on two byte strings is equality (its timing is not modelled).\<close>

definition compare_digest :: "bytes \<Rightarrow> bytes \<Rightarrow> bool" where
  "compare_digest xs ys \<longleftrightarrow> xs = ys"

lemma length_zeros [simp]: "length (zeros n) = n"
  by (simp add: zeros_def)

lemma compare_digest_iff [simp]: "compare_digest xs ys \<longleftrightarrow> xs = ys"
  by (simp add: compare_digest_def)

text \<open>ASCII literals as bytes: \<open>b"..."\<close>.\<close>

definition blit :: "string \<Rightarrow> bytes" where
  "blit s = map of_char s"

lemma of_char_byte_inj [simp]: "(of_char a :: byte) = of_char b \<longleftrightarrow> a = b"
proof
  assume "(of_char a :: byte) = of_char b"
  then have "unat (of_char a :: byte) = unat (of_char b :: byte)" by simp
  moreover have "unat (of_char c :: byte) = of_char c" for c
  proof -
    have "(of_char c :: byte) = byte_of (of_char c)" by (simp add: byte_of_def of_nat_of_char)
    then have "unat (of_char c :: byte) = (of_char c :: nat) mod 256" by simp
    also have "\<dots> = of_char c" by simp
    finally show ?thesis .
  qed
  ultimately have "(of_char a :: nat) = of_char b" by simp
  then show "a = b" by simp
qed simp

lemma blit_inj [simp]: "blit s = blit t \<longleftrightarrow> s = t"
  by (auto simp: blit_def list.inj_map_strong inj_on_def dest: list.inj_map_strong [rotated])

lemma blit_Nil_iff [simp]: "blit s = [] \<longleftrightarrow> s = []"
  by (simp add: blit_def)

section \<open>Randomness\<close>

text \<open>
  The operating system's randomness as an unbounded tape of bytes; \<open>os.urandom(n)\<close>
  reads the next \<open>n\<close>.
\<close>

type_synonym entropy = "nat \<Rightarrow> byte"

definition urandom :: "nat \<Rightarrow> entropy \<Rightarrow> bytes \<times> entropy" where
  "urandom n t = (map t [0..<n], \<lambda>i. t (i + n))"

text \<open>A draw that cannot fail, as an effect on the tape.\<close>

definition drawE :: "(entropy \<Rightarrow> 'a \<times> entropy) \<Rightarrow> (entropy, 'a) eff" where
  "drawE f t = (case f t of (x, u) \<Rightarrow> (Inr x, u))"

lemma drawE_eq_Inr [simp]: "drawE f t = (Inr x, u) \<longleftrightarrow> f t = (x, u)"
  by (auto simp: drawE_def split: prod.splits)

lemma drawE_not_Inl [simp]: "drawE f t \<noteq> (Inl e, u)"
  by (auto simp: drawE_def split: prod.splits)

lemma length_urandom [simp]: "length (fst (urandom n t)) = n"
  by (simp add: urandom_def)

lemma urandom_length: "urandom n t = (bs, t') \<Longrightarrow> length bs = n"
  by (auto simp: urandom_def)

end
