(* ===== verification/Constants.thy ===== *)
theory Constants
  imports Py_Bytes
begin

text \<open>
  core/constants.py. Byte-string constants are byte lists, sizes are natural numbers,
  and the bounds that the code compares Python integers with are integers.
\<close>

definition KEY_LEN :: nat where "KEY_LEN = 32"
definition NONCE_LEN :: nat where "NONCE_LEN = 12"
definition TAG_LEN :: nat where "TAG_LEN = 16"
definition MIN_CT_LEN :: nat where "MIN_CT_LEN = NONCE_LEN + TAG_LEN"

definition MAX_SKIP :: nat where "MAX_SKIP = 1000"
definition MAX_HEADER_MESSAGES :: int where "MAX_HEADER_MESSAGES = 2 ^ 32 - 1"

definition NONCE_INFO :: bytes where "NONCE_INFO = blit ''chacha20-poly1305-nonce-v1''"

definition PQXDH_F :: bytes where "PQXDH_F = replicate 32 255"
definition PQXDH_HKDF_SALT :: bytes where "PQXDH_HKDF_SALT = zeros 32"
definition PQXDH_SK_LEN :: nat where "PQXDH_SK_LEN = 32"

definition KEM_PUBLIC_KEY_LEN :: nat where "KEM_PUBLIC_KEY_LEN = 1568"
definition KEM_CIPHERTEXT_LEN :: nat where "KEM_CIPHERTEXT_LEN = 1568"
definition DSA_PUBLIC_KEY_LEN :: nat where "DSA_PUBLIC_KEY_LEN = 2592"
definition DSA_SIGNATURE_LEN :: nat where "DSA_SIGNATURE_LEN = 4627"

definition ED25519_PUBLIC_KEY_LEN :: nat where "ED25519_PUBLIC_KEY_LEN = 32"
definition ED25519_SIGNATURE_LEN :: nat where "ED25519_SIGNATURE_LEN = 64"

definition HYBRID_PUBLIC_KEY_LEN :: nat where
  "HYBRID_PUBLIC_KEY_LEN = ED25519_PUBLIC_KEY_LEN + DSA_PUBLIC_KEY_LEN"
definition HYBRID_SIGNATURE_LEN :: nat where
  "HYBRID_SIGNATURE_LEN = ED25519_SIGNATURE_LEN + DSA_SIGNATURE_LEN"

definition OPK_COUNT :: int where "OPK_COUNT = 20"

definition ARGON2_TIME_COST :: nat where "ARGON2_TIME_COST = 1"
definition ARGON2_MEMORY_COST :: nat where "ARGON2_MEMORY_COST = 47104"
definition ARGON2_PARALLELISM :: nat where "ARGON2_PARALLELISM = 1"
definition ARGON2_HASH_LEN :: nat where "ARGON2_HASH_LEN = 32"
definition ARGON2_SALT_LEN :: nat where "ARGON2_SALT_LEN = 32"

lemmas length_constants =
  KEY_LEN_def NONCE_LEN_def TAG_LEN_def MIN_CT_LEN_def KEM_PUBLIC_KEY_LEN_def
  KEM_CIPHERTEXT_LEN_def DSA_PUBLIC_KEY_LEN_def DSA_SIGNATURE_LEN_def
  ED25519_PUBLIC_KEY_LEN_def ED25519_SIGNATURE_LEN_def HYBRID_PUBLIC_KEY_LEN_def
  HYBRID_SIGNATURE_LEN_def ARGON2_HASH_LEN_def ARGON2_SALT_LEN_def PQXDH_SK_LEN_def

end
