(* ===== verification/Py_Text.thy ===== *)
theory Py_Text
  imports Py_Bytes
begin

text \<open>
  Python \<open>str\<close> as lists of Unicode code points, its UTF-8 encoding and decoding
  (\<open>encode("utf-8")\<close>, \<open>decode("utf-8")\<close> and \<open>decode("utf-8", errors="replace")\<close>,
  with the byte ranges and the resynchronisation of CPython's decoder), and the
  hexadecimal form of byte strings (\<open>bytes.hex\<close>, \<open>bytes.fromhex\<close>).
\<close>

type_synonym pystr = "nat list"

text \<open>String literals of the source, all of them ASCII.\<close>

definition lit :: "string \<Rightarrow> pystr" where
  "lit s = map of_char s"

lemma lit_inj [simp]: "lit s = lit t \<longleftrightarrow> s = t"
  by (auto simp: lit_def inj_map_eq_map inj_of_char)

lemma lit_Nil [simp]: "lit [] = []"
  by (simp add: lit_def)

lemma lit_Nil_iff [simp]: "lit s = [] \<longleftrightarrow> s = []" "[] = lit s \<longleftrightarrow> s = []"
  by (auto simp: lit_def)

lemma lit_append: "lit (s @ t) = lit s @ lit t"
  by (simp add: lit_def)

lemma lit_less: "c \<in> set (lit s) \<Longrightarrow> c < 256"
  by (auto simp: lit_def)

section \<open>UTF-8\<close>

definition is_surrogate :: "nat \<Rightarrow> bool" where
  "is_surrogate c \<longleftrightarrow> 0xD800 \<le> c \<and> c < 0xE000"

definition utf8_char :: "nat \<Rightarrow> bytes res" where
  "utf8_char c =
     (if c < 0x80 then Inr [byte_of c]
      else if c < 0x800 then
        Inr [byte_of (0xC0 + c div 64), byte_of (0x80 + c mod 64)]
      else if is_surrogate c \<or> 0x110000 \<le> c then Inl UnicodeEncodeError
      else if c < 0x10000 then
        Inr [byte_of (0xE0 + c div 64 div 64), byte_of (0x80 + c div 64 mod 64),
             byte_of (0x80 + c mod 64)]
      else
        Inr [byte_of (0xF0 + c div 64 div 64 div 64), byte_of (0x80 + c div 64 div 64 mod 64),
             byte_of (0x80 + c div 64 mod 64), byte_of (0x80 + c mod 64)])"

definition utf8_encode :: "pystr \<Rightarrow> bytes res" where
  "utf8_encode s = bindR (mapR utf8_char s) (\<lambda>bss. Inr (concat bss))"

definition is_cont :: "byte \<Rightarrow> bool" where
  "is_cont b \<longleftrightarrow> 0x80 \<le> unat b \<and> unat b < 0xC0"

text \<open>Which second bytes may follow a lead byte: no overlong forms, no surrogates.\<close>

definition second_ok :: "nat \<Rightarrow> byte \<Rightarrow> bool" where
  "second_ok lead b \<longleftrightarrow> is_cont b \<and>
     (lead = 0xE0 \<longrightarrow> 0xA0 \<le> unat b) \<and> (lead = 0xED \<longrightarrow> unat b < 0xA0) \<and>
     (lead = 0xF0 \<longrightarrow> 0x90 \<le> unat b) \<and> (lead = 0xF4 \<longrightarrow> unat b < 0x90)"

definition low6 :: "byte \<Rightarrow> nat" where
  "low6 b = unat b - 0x80"

text \<open>
  One step of the decoder: the code point at the front, or \<open>None\<close> for an ill-formed
  sequence, with the bytes left. An ill-formed sequence is the longest prefix that
  could still have begun a character, one byte at least.
\<close>

fun utf8_step :: "bytes \<Rightarrow> nat option \<times> bytes" where
  "utf8_step [] = (None, [])"
| "utf8_step (b0 # bs) =
    (let n = unat b0 in
     if n < 0x80 then (Some n, bs)
     else if n < 0xC2 \<or> 0xF4 < n then (None, bs)
     else case bs of [] \<Rightarrow> (None, []) | b1 # bs1 \<Rightarrow>
       if n < 0xE0 then
         (if is_cont b1 then (Some ((n - 0xC0) * 64 + low6 b1), bs1) else (None, bs))
       else if \<not> second_ok n b1 then (None, bs)
       else case bs1 of [] \<Rightarrow> (None, []) | b2 # bs2 \<Rightarrow>
         if \<not> is_cont b2 then (None, bs1)
         else if n < 0xF0 then
           (Some (((n - 0xE0) * 64 + low6 b1) * 64 + low6 b2), bs2)
         else case bs2 of [] \<Rightarrow> (None, []) | b3 # bs3 \<Rightarrow>
           if \<not> is_cont b3 then (None, bs2)
           else (Some ((((n - 0xF0) * 64 + low6 b1) * 64 + low6 b2) * 64 + low6 b3), bs3))"

lemma utf8_step_shorter: "length (snd (utf8_step (b # bs))) \<le> length bs"
  by (auto simp: Let_def split: list.split)

lemma utf8_step_less: "bs \<noteq> [] \<Longrightarrow> utf8_step bs = (c, r) \<Longrightarrow> length r < length bs"
  using utf8_step_shorter by (cases bs) (metis, metis length_Cons less_Suc_eq_le snd_conv)

function utf8_decode :: "bytes \<Rightarrow> pystr res" where
  "utf8_decode bs =
     (if bs = [] then Inr []
      else case utf8_step bs of
        (None, r) \<Rightarrow> Inl UnicodeDecodeError
      | (Some c, r) \<Rightarrow> bindR (utf8_decode r) (\<lambda>s. Inr (c # s)))"
  by pat_completeness auto
termination
  by (relation "measure length") (auto dest: utf8_step_less [OF _ sym])

function utf8_decode_replace :: "bytes \<Rightarrow> pystr" where
  "utf8_decode_replace bs =
     (if bs = [] then []
      else case utf8_step bs of
        (None, r) \<Rightarrow> 0xFFFD # utf8_decode_replace r
      | (Some c, r) \<Rightarrow> c # utf8_decode_replace r)"
  by pat_completeness auto
termination
  by (relation "measure length") (auto dest: utf8_step_less [OF _ sym])

declare utf8_decode.simps [simp del] utf8_decode_replace.simps [simp del]

lemma utf8_decode_Nil [simp]: "utf8_decode [] = Inr []"
  by (simp add: utf8_decode.simps)

lemma utf8_decode_replace_Nil [simp]: "utf8_decode_replace [] = []"
  by (simp add: utf8_decode_replace.simps)

text \<open>Base 64 digits of a code point.\<close>

lemma digit64 [simp]: "r < 64 \<Longrightarrow> (q * 64 + r) div 64 = q" "r < 64 \<Longrightarrow> (q * 64 + r) mod 64 = r"
  for q r :: nat
  by simp_all

lemma digit64_obtain:
  obtains q r where "(c :: nat) = q * 64 + r" "r < 64"
  by (rule that [of "c div 64" "c mod 64"]) auto

lemma cont_byte [simp]: "b < 64 \<Longrightarrow> is_cont (byte_of (128 + b))" "b < 64 \<Longrightarrow> low6 (byte_of (128 + b)) = b"
  by (auto simp: is_cont_def low6_def)

text \<open>One character, from code point to bytes and back.\<close>

lemma utf8_step_char:
  assumes "utf8_char c = Inr p"
  shows "utf8_step (p @ r) = (Some c, r)"
proof -
  obtain q1 d1 where c: "c = q1 * 64 + d1" and d1: "d1 < 64" by (rule digit64_obtain)
  obtain q2 d2 where q1: "q1 = q2 * 64 + d2" and d2: "d2 < 64" by (rule digit64_obtain)
  obtain q3 d3 where q2: "q2 = q3 * 64 + d3" and d3: "d3 < 64" by (rule digit64_obtain)
  have c1: "c div 64 = q1" "c mod 64 = d1" using d1 by (simp_all add: c)
  have c2: "q1 div 64 = q2" "q1 mod 64 = d2" using d2 by (simp_all add: q1)
  have c3: "q2 div 64 = q3" "q2 mod 64 = d3" using d3 by (simp_all add: q2)
  consider "c < 0x80" | "0x80 \<le> c" "c < 0x800"
    | "0x800 \<le> c" "c < 0x10000" "\<not> is_surrogate c" | "0x10000 \<le> c" "c < 0x110000"
    using assms by (fastforce simp: utf8_char_def split: if_splits)
  then show ?thesis
  proof cases
    case 1
    with assms show ?thesis by (auto simp: utf8_char_def)
  next
    case 2
    then have a: "2 \<le> q1" "q1 < 32" using d1 by (auto simp: c)
    have "p = [byte_of (0xC0 + q1), byte_of (0x80 + d1)]"
      using assms 2 by (simp add: utf8_char_def c1)
    then show ?thesis using a d1 by (simp add: Let_def c)
  next
    case 3
    then have a: "q2 < 16" "q2 = 0 \<longrightarrow> 32 \<le> d2" "q2 = 13 \<longrightarrow> d2 < 32"
      using d1 d2 by (auto simp: c q1 is_surrogate_def)
    have "p = [byte_of (0xE0 + q2), byte_of (0x80 + d2), byte_of (0x80 + d1)]"
      using assms 3 by (simp add: utf8_char_def c1 c2)
    moreover have "second_ok (0xE0 + q2) (byte_of (0x80 + d2))"
      using a d2 by (auto simp: second_ok_def)
    ultimately show ?thesis
      using a d1 d2 by (simp add: Let_def c q1)
  next
    case 4
    then have a: "q3 < 5" "q3 = 0 \<longrightarrow> 16 \<le> d3" "q3 = 4 \<longrightarrow> d3 < 16"
      using d1 d2 d3 by (auto simp: c q1 q2)
    have "p = [byte_of (0xF0 + q3), byte_of (0x80 + d3), byte_of (0x80 + d2), byte_of (0x80 + d1)]"
      using assms 4 by (simp add: utf8_char_def c1 c2 c3 is_surrogate_def)
    moreover have "second_ok (0xF0 + q3) (byte_of (0x80 + d3))"
      using a d3 by (auto simp: second_ok_def)
    ultimately show ?thesis
      using a d1 d2 d3 by (simp add: Let_def c q1 q2)
  qed
qed

lemma utf8_char_step:
  assumes "utf8_step bs = (Some c, r)"
  shows "\<exists>p. utf8_char c = Inr p \<and> bs = p @ r"
proof -
  have sub: "byte_of (128 + low6 b) = b" "low6 b < 64" if "is_cont b" for b
    using that unat_byte_less [of b] by (auto simp: is_cont_def low6_def)
  have lead: "byte_of (k + (unat b - k)) = b" if "k \<le> unat b" for k b
    using that by simp
  from assms obtain b0 bs0 where bs: "bs = b0 # bs0" by (cases bs) auto
  let ?n = "unat b0"
  consider "?n < 0x80" | "0xC2 \<le> ?n" "?n < 0xE0" | "0xE0 \<le> ?n" "?n < 0xF0"
    | "0xF0 \<le> ?n" "?n \<le> 0xF4"
    using assms bs by (fastforce simp: Let_def split: if_splits)
  then show ?thesis
  proof cases
    case 1
    with assms bs show ?thesis by (auto simp: utf8_char_def)
  next
    case 2
    then obtain b1 where b1: "bs0 = b1 # r" "is_cont b1" "c = (?n - 0xC0) * 64 + low6 b1"
      using assms bs by (auto simp: Let_def split: if_splits list.splits)
    have "utf8_char c = Inr [byte_of (0xC0 + (?n - 0xC0)), byte_of (128 + low6 b1)]"
      using 2 sub(2) [OF b1(2)] by (auto simp: utf8_char_def b1(3))
    then show ?thesis using bs b1 2 sub(1) [OF b1(2)] lead [of "0xC0" b0] by simp
  next
    case 3
    then obtain b1 b2 where b: "bs0 = b1 # b2 # r" "second_ok ?n b1" "is_cont b1" "is_cont b2"
      "c = ((?n - 0xE0) * 64 + low6 b1) * 64 + low6 b2"
      using assms bs by (auto simp: Let_def second_ok_def split: if_splits list.splits)
    note s = sub(2) [OF b(3)] sub(2) [OF b(4)]
    define k d1 where k: "k = ?n - 0xE0" and d1: "d1 = low6 b1"
    have kd: "k < 16" "k = 0 \<longrightarrow> 32 \<le> d1" "k = 13 \<longrightarrow> d1 < 32" "c = (k * 64 + d1) * 64 + low6 b2"
      using 3 b(2,5) by (auto simp: second_ok_def low6_def is_cont_def k d1)
    have r: "0x800 \<le> c" "c < 0x10000" "\<not> is_surrogate c"
    proof -
      have d: "d1 < 64" "low6 b2 < 64" using s by (simp_all add: d1)
      have q: "32 \<le> k * 64 + d1" "k * 64 + d1 < 1024" using kd(1,2) d(1) by (cases "k = 0"; simp)+
      have "k < 13 \<or> k = 13 \<or> 13 < k" by arith
      then have q': "k * 64 + d1 < 864 \<or> 896 \<le> k * 64 + d1"
        using kd(3) d(1) by (elim disjE) simp_all
      show "0x800 \<le> c" "c < 0x10000" using q d(2) by (simp_all add: kd(4))
      show "\<not> is_surrogate c" using q' d(2) by (auto simp: kd(4) is_surrogate_def)
    qed
    have "utf8_char c = Inr [byte_of (0xE0 + (?n - 0xE0)), byte_of (128 + low6 b1),
        byte_of (128 + low6 b2)]"
    proof -
      have "c div 64 = (?n - 0xE0) * 64 + low6 b1" "c mod 64 = low6 b2"
        "((?n - 0xE0) * 64 + low6 b1) div 64 = ?n - 0xE0" "((?n - 0xE0) * 64 + low6 b1) mod 64 = low6 b1"
        unfolding b(5) using s by (simp_all only: digit64)
      then show ?thesis using r by (simp add: utf8_char_def)
    qed
    then show ?thesis
      using bs b(1) 3 sub(1) [OF b(3)] sub(1) [OF b(4)] lead [of "0xE0" b0] by simp
  next
    case 4
    then obtain b1 b2 b3 where b: "bs0 = b1 # b2 # b3 # r" "second_ok ?n b1" "is_cont b1"
      "is_cont b2" "is_cont b3"
      "c = (((?n - 0xF0) * 64 + low6 b1) * 64 + low6 b2) * 64 + low6 b3"
      using assms bs by (auto simp: Let_def second_ok_def split: if_splits list.splits)
    note s = sub(2) [OF b(3)] sub(2) [OF b(4)] sub(2) [OF b(5)]
    have r: "0x10000 \<le> c" "c < 0x110000"
      using 4 s b(2) unfolding b(6) by (auto simp: second_ok_def low6_def is_cont_def)
    have "utf8_char c = Inr [byte_of (0xF0 + (?n - 0xF0)), byte_of (128 + low6 b1),
        byte_of (128 + low6 b2), byte_of (128 + low6 b3)]"
    proof -
      let ?q1 = "(?n - 0xF0) * 64 + low6 b1"
      have "c div 64 = ?q1 * 64 + low6 b2" "c mod 64 = low6 b3"
        "(?q1 * 64 + low6 b2) div 64 = ?q1" "(?q1 * 64 + low6 b2) mod 64 = low6 b2"
        "?q1 div 64 = ?n - 0xF0" "?q1 mod 64 = low6 b1"
        unfolding b(6) using s by (simp_all only: digit64)
      then show ?thesis using r by (simp add: utf8_char_def is_surrogate_def)
    qed
    then show ?thesis
      using bs b(1) 4 sub(1) [OF b(3)] sub(1) [OF b(4)] sub(1) [OF b(5)] lead [of "0xF0" b0]
      by simp
  qed
qed

lemma utf8_char_nonempty: "utf8_char c = Inr p \<Longrightarrow> p \<noteq> []"
  by (auto simp: utf8_char_def split: if_splits)

lemma utf8_encode_simps [simp]:
  "utf8_encode [] = Inr []"
  "utf8_encode (c # s) = bindR (utf8_char c) (\<lambda>p. bindR (utf8_encode s) (\<lambda>q. Inr (p @ q)))"
  by (simp_all add: utf8_encode_def bindR_assoc)

lemma utf8_decode_char:
  assumes "utf8_char c = Inr p"
  shows "utf8_decode (p @ q) = bindR (utf8_decode q) (\<lambda>s. Inr (c # s))"
    and "utf8_decode_replace (p @ q) = c # utf8_decode_replace q"
  using utf8_char_nonempty [OF assms] utf8_step_char [OF assms, of q]
  by (simp_all add: utf8_decode.simps [of "p @ q"] utf8_decode_replace.simps [of "p @ q"])

lemma utf8_decode_encode: "utf8_encode s = Inr bs \<Longrightarrow> utf8_decode bs = Inr s"
  by (induction s arbitrary: bs) (auto simp: bindR_Inr_iff utf8_decode_char)

lemma utf8_decode_replace_encode: "utf8_encode s = Inr bs \<Longrightarrow> utf8_decode_replace bs = s"
  by (induction s arbitrary: bs) (auto simp: bindR_Inr_iff utf8_decode_char)

lemma utf8_encode_decode: "utf8_decode bs = Inr s \<Longrightarrow> utf8_encode s = Inr bs"
proof (induction bs arbitrary: s rule: utf8_decode.induct)
  case (1 bs)
  show ?case
  proof (cases "bs = []")
    case True
    with 1 show ?thesis by simp
  next
    case False
    with "1.prems" obtain c r s' where st: "utf8_step bs = (Some c, r)"
      and r: "utf8_decode r = Inr s'" and s: "s = c # s'"
      by (auto simp: utf8_decode.simps [of bs] bindR_Inr_iff split: prod.splits option.splits)
    from utf8_char_step [OF st] obtain p where "utf8_char c = Inr p" "bs = p @ r" by blast
    moreover have "utf8_encode s' = Inr r" using "1.IH" False st r by force
    ultimately show ?thesis by (simp add: s)
  qed
qed

interpretation utf8: strict_codec utf8_encode utf8_decode "\<lambda>_. True"
  by unfold_locales (auto intro: utf8_decode_encode utf8_encode_decode)

text \<open>Where strict decoding succeeds, the replacing decoder gives the same text.\<close>

lemma utf8_decode_replace_strict: "utf8_decode bs = Inr s \<Longrightarrow> utf8_decode_replace bs = s"
  by (rule utf8_decode_replace_encode) (rule utf8_encode_decode)

lemma utf8_encode_append:
  "utf8_encode (s @ t) = bindR (utf8_encode s) (\<lambda>p. bindR (utf8_encode t) (\<lambda>q. Inr (p @ q)))"
  by (induction s) (auto simp: bindR_assoc bindR_def split: sum.splits)

text \<open>Text without code points above 127 encodes byte for byte.\<close>

lemma utf8_encode_ascii: "(\<And>c. c \<in> set s \<Longrightarrow> c < 128) \<Longrightarrow> utf8_encode s = Inr (map byte_of s)"
  by (induction s) (auto simp: utf8_char_def)

section \<open>Hexadecimal\<close>

definition hex_digit :: "nat \<Rightarrow> nat" where
  "hex_digit n = (if n < 10 then 48 + n else 87 + n)"

fun hex :: "bytes \<Rightarrow> pystr" where
  "hex [] = []"
| "hex (b # bs) = hex_digit (unat b div 16) # hex_digit (unat b mod 16) # hex bs"

text \<open>\<open>bytes.fromhex\<close>: pairs of digits of either case, ASCII white space between pairs.\<close>

definition hex_value :: "nat \<Rightarrow> nat option" where
  "hex_value c =
     (if 48 \<le> c \<and> c < 58 then Some (c - 48)
      else if 97 \<le> c \<and> c < 103 then Some (c - 87)
      else if 65 \<le> c \<and> c < 71 then Some (c - 55) else None)"

definition is_space :: "nat \<Rightarrow> bool" where
  "is_space c \<longleftrightarrow> c = 32 \<or> 9 \<le> c \<and> c \<le> 13"

abbreviation not_hex :: exn where
  "not_hex \<equiv> ValueError ''non-hexadecimal number found in fromhex() arg''"

fun fromhex :: "pystr \<Rightarrow> bytes res" where
  "fromhex [] = Inr []"
| "fromhex [c] = (if is_space c then Inr [] else Inl not_hex)"
| "fromhex (c # d # s) =
     (if is_space c then fromhex (d # s)
      else case (hex_value c, hex_value d) of
        (Some h, Some l) \<Rightarrow> bindR (fromhex s) (\<lambda>bs. Inr (byte_of (16 * h + l) # bs))
      | _ \<Rightarrow> Inl not_hex)"

lemma hex_value_digit: "n < 16 \<Longrightarrow> hex_value (hex_digit n) = Some n"
  by (simp add: hex_value_def hex_digit_def)

lemma hex_digit_not_space: "\<not> is_space (hex_digit n)"
  by (simp add: is_space_def hex_digit_def)

lemma byte_div16 [simp]: "unat (b :: byte) div 16 < 16"
  by (rule less_mult_imp_div_less) simp

lemma fromhex_hex [simp]: "fromhex (hex bs) = Inr bs"
proof (induction bs)
  case (Cons b bs)
  show ?case using Cons by (simp add: hex_value_digit hex_digit_not_space)
qed simp

interpretation hexc: codec "\<lambda>bs. Inr (hex bs)" fromhex "\<lambda>_. True"
  by unfold_locales auto

lemma length_hex [simp]: "length (hex bs) = 2 * length bs"
  by (induction bs) auto

lemma hex_inj [simp]: "hex bs = hex cs \<longleftrightarrow> bs = cs"
  using hexc.enc_inj [where x = bs and y = cs and b = "hex bs"] by auto

lemma hex_Nil_iff [simp]: "hex bs = [] \<longleftrightarrow> bs = []"
  by (cases bs) auto

lemma hex_less: "c \<in> set (hex bs) \<Longrightarrow> c < 128"
proof (induction bs)
  case (Cons b bs)
  have "hex_digit n < 128" if "n < 16" for n using that by (simp add: hex_digit_def)
  with Cons show ?case by (auto split: if_splits)
qed simp

end
