(* ===== verification/Py_Value.thy ===== *)
theory Py_Value
  imports Py_Text "HOL-Library.AList"
begin

text \<open>
  Dynamically typed Python values (request parameters, persisted state, decoded
  msgpack), dictionaries as association lists in insertion order, and the conversions
  the code applies to such values.
\<close>

datatype pyval =
    PNone
  | PBool bool
  | PInt int
  | PFloat string
  | PStr pystr
  | PBytes bytes
  | PList "pyval list"
  | PDict "(pystr \<times> pyval) list"

text \<open>
  A float is represented by its literal, as \<open>repr\<close> prints it or as it was read; the code
  only stores and prints floats, so literals are not brought to one form.
  A dictionary has string keys, as every dictionary of the code that is serialised.
\<close>

type_synonym pydict = "(pystr \<times> pyval) list"

section \<open>Dictionaries\<close>

text \<open>\<open>d.get(k)\<close>, \<open>d[k]\<close>, \<open>k in d\<close>, and \<open>d[k] = v\<close>.\<close>

definition dict_get :: "pydict \<Rightarrow> string \<Rightarrow> pyval option" where
  "dict_get d k = map_of d (lit k)"

definition dict_item :: "pydict \<Rightarrow> string \<Rightarrow> pyval res" where
  "dict_item d k = (case dict_get d k of None \<Rightarrow> Inl (KeyError k) | Some v \<Rightarrow> Inr v)"

definition dict_get_or :: "pydict \<Rightarrow> string \<Rightarrow> pyval \<Rightarrow> pyval" where
  "dict_get_or d k v = (case dict_get d k of None \<Rightarrow> v | Some w \<Rightarrow> w)"

definition dict_has :: "pydict \<Rightarrow> string \<Rightarrow> bool" where
  "dict_has d k \<longleftrightarrow> dict_get d k \<noteq> None"

definition dict_set :: "pydict \<Rightarrow> string \<Rightarrow> pyval \<Rightarrow> pydict" where
  "dict_set d k v = AList.update (lit k) v d"

text \<open>\<open>{**d, **e}\<close>: later values win, earlier positions stay.\<close>

definition dict_merge :: "pydict \<Rightarrow> pydict \<Rightarrow> pydict" where
  "dict_merge d e = foldl (\<lambda>m (k, v). AList.update k v m) d e"

lemma dict_get_Nil [simp]: "dict_get [] k = None"
  by (simp add: dict_get_def)

lemma dict_get_Cons [simp]:
  "dict_get ((lit j, v) # d) k = (if j = k then Some v else dict_get d k)"
  by (auto simp: dict_get_def)

lemma dict_item_Nil [simp]: "dict_item [] k = Inl (KeyError k)"
  by (simp add: dict_item_def)

lemma dict_item_Cons [simp]:
  "dict_item ((lit j, v) # d) k = (if j = k then Inr v else dict_item d k)"
  by (simp add: dict_item_def)

lemma dict_item_Inr_iff: "dict_item d k = Inr v \<longleftrightarrow> dict_get d k = Some v"
  by (auto simp: dict_item_def split: option.splits)

lemma dict_get_set [simp]:
  "dict_get (dict_set d j v) k = (if j = k then Some v else dict_get d k)"
  by (simp add: dict_get_def dict_set_def update_conv)

lemma dict_get_or_Cons [simp]:
  "dict_get_or ((lit j, v) # d) k w = (if j = k then v else dict_get_or d k w)"
  by (simp add: dict_get_or_def)

lemma dict_get_or_Nil [simp]: "dict_get_or [] k w = w"
  by (simp add: dict_get_or_def)

lemma dict_has_Cons [simp]: "dict_has ((lit j, v) # d) k \<longleftrightarrow> j = k \<or> dict_has d k"
  by (auto simp: dict_has_def)

lemma dict_has_Nil [simp]: "\<not> dict_has [] k"
  by (simp add: dict_has_def)

lemma map_of_dict_merge: "distinct (map fst e) \<Longrightarrow> map_of (dict_merge d e) = map_of d ++ map_of e"
proof (induction e arbitrary: d rule: list.induct)
  case Nil
  then show ?case by (simp add: dict_merge_def)
next
  case (Cons p e)
  obtain k v where p: "p = (k, v)" by force
  have "dict_merge d (p # e) = dict_merge (AList.update k v d) e"
    by (simp add: dict_merge_def p)
  moreover have "map_of e k = None"
    using Cons.prems by (auto simp: p map_of_eq_None_iff)
  ultimately show ?case
    using Cons by (simp add: p update_conv' fun_eq_iff map_add_def split: option.split)
qed

section \<open>Truth and conversions\<close>

definition float_zero :: "string \<Rightarrow> bool" where
  "float_zero t \<longleftrightarrow>
     (\<forall>c \<in> set (takeWhile (\<lambda>c. c \<noteq> CHR ''e'' \<and> c \<noteq> CHR ''E'') t). c \<in> set ''-0.'')"

fun truthy :: "pyval \<Rightarrow> bool" where
  "truthy PNone = False"
| "truthy (PBool b) = b"
| "truthy (PInt n) = (n \<noteq> 0)"
| "truthy (PFloat t) = (\<not> float_zero t)"
| "truthy (PStr s) = (s \<noteq> [])"
| "truthy (PBytes b) = (b \<noteq> [])"
| "truthy (PList vs) = (vs \<noteq> [])"
| "truthy (PDict d) = (d \<noteq> [])"

text \<open>
  Where the code uses a value as a string, a dictionary or a list, a value of another
  type raises \<open>TypeError\<close> or \<open>AttributeError\<close> at that use; the model checks the type
  at the first use.
\<close>

fun as_str :: "pyval \<Rightarrow> pystr res" where
  "as_str (PStr s) = Inr s"
| "as_str _ = Inl TypeError"

fun as_dict :: "pyval \<Rightarrow> pydict res" where
  "as_dict (PDict d) = Inr d"
| "as_dict _ = Inl TypeError"

text \<open>A value whose method \<open>get\<close> is called\<close>

fun as_mapping :: "pyval \<Rightarrow> pydict res" where
  "as_mapping (PDict d) = Inr d"
| "as_mapping _ = Inl AttributeError"

fun as_list :: "pyval \<Rightarrow> pyval list res" where
  "as_list (PList vs) = Inr vs"
| "as_list _ = Inl TypeError"

section \<open>Integers\<close>

text \<open>White space of \<open>str.split()\<close> and \<open>str.strip()\<close>\<close>

definition white :: "nat \<Rightarrow> bool" where
  "white c \<longleftrightarrow> 9 \<le> c \<and> c \<le> 13 \<or> 28 \<le> c \<and> c \<le> 32 \<or> 8192 \<le> c \<and> c \<le> 8202 \<or>
     c \<in> {133, 160, 5760, 8232, 8233, 8239, 8287, 12288}"

definition trim :: "pystr \<Rightarrow> pystr" where
  "trim s = rev (dropWhile white (rev (dropWhile white s)))"

definition is_digit :: "nat \<Rightarrow> bool" where
  "is_digit c \<longleftrightarrow> 48 \<le> c \<and> c < 58"

fun digits_val :: "nat \<Rightarrow> pystr \<Rightarrow> nat" where
  "digits_val n [] = n"
| "digits_val n (c # s) = digits_val (10 * n + (c - 48)) s"

text \<open>
  \<open>int(word)\<close> of a word without white space: a sign, then digits with single underscores
  between them. Decimal digits of other scripts, which the program never writes, are not
  digits here.
\<close>

fun numeral_ok :: "bool \<Rightarrow> pystr \<Rightarrow> bool" where
  "numeral_ok digit [] = digit"
| "numeral_ok digit (c # s) = (if is_digit c then numeral_ok True s else c = 95 \<and> digit \<and> numeral_ok False s)"

definition int_word :: "pystr \<Rightarrow> int res" where
  "int_word s =
     (let sign = take 1 s; t = (if sign = [43] \<or> sign = [45] then drop 1 s else s);
          n = int (digits_val 0 (filter is_digit t)) in
      if numeral_ok False t then Inr (if sign = [45] then - n else n)
      else Inl (ValueError ''invalid literal for int()''))"

text \<open>
  A float literal as its sign, its digits and the power of ten they are multiplied with. A
  literal of \<open>2 ^ 1024 - 2 ^ 970\<close> and more is the infinite float.
\<close>

definition float_parts :: "string \<Rightarrow> (bool \<times> nat \<times> int) res" where
  "float_parts t =
     (let s = lit t; neg = (take 1 s = [45]); u = (if neg then drop 1 s else s);
          mantissa = takeWhile (\<lambda>c. c \<noteq> 69 \<and> c \<noteq> 101) u;
          exponent = drop (Suc (length mantissa)) u;
          whole = takeWhile (\<lambda>c. c \<noteq> 46) mantissa;
          frac = drop (Suc (length whole)) mantissa in
      if u = lit ''NaN'' then Inl (ValueError ''cannot convert float NaN to integer'')
      else if u = lit ''Infinity'' then Inl OverflowError
      else
        bindR (if exponent = [] then Inr 0 else int_word exponent) (\<lambda>e.
        let m = digits_val 0 (whole @ frac); k = e - int (length frac) in
        if 2 ^ 1024 - 2 ^ 970 \<le> (if 0 \<le> k then m * 10 ^ nat k else m div 10 ^ nat (- k)) then Inl OverflowError
        else Inr (neg, m, k)))"

text \<open>\<open>int(x)\<close> of a float: without its fraction; and the integer that equals a float.\<close>

definition float_int :: "string \<Rightarrow> int res" where
  "float_int t = bindR (float_parts t) (\<lambda>(neg, m, k).
     let n = int (if 0 \<le> k then m * 10 ^ nat k else m div 10 ^ nat (- k)) in Inr (if neg then - n else n))"

definition float_whole :: "string \<Rightarrow> int option" where
  "float_whole t = (case float_parts t of
      Inl _ \<Rightarrow> None
    | Inr (neg, m, k) \<Rightarrow>
        if k < 0 \<and> \<not> 10 ^ nat (- k) dvd m then None
        else (case float_int t of Inl _ \<Rightarrow> None | Inr n \<Rightarrow> Some n))"

text \<open>\<open>int(v)\<close> on a value decoded from JSON\<close>

fun py_int :: "pyval \<Rightarrow> int res" where
  "py_int (PInt n) = Inr n"
| "py_int (PBool b) = Inr (if b then 1 else 0)"
| "py_int (PStr s) = int_word (trim s)"
| "py_int (PFloat t) = float_int t"
| "py_int _ = Inl TypeError"

text \<open>For example, with white space, signs, underscores, fractions and exponents:\<close>

lemma py_int_examples:
  "py_int (PStr (lit '' -1_0 '')) = Inr (- 10)" "py_int (PStr (lit ''1 0'')) = Inl (ValueError ''invalid literal for int()'')"
  "py_int (PFloat ''-2.75'') = Inr (- 2)" "py_int (PFloat ''1.5e3'') = Inr 1500" "py_int (PFloat ''-Infinity'') = Inl OverflowError"
  by (simp_all add: float_int_def float_parts_def int_word_def trim_def white_def is_digit_def lit_def)

lemma float_whole_examples: "float_whole ''1.0'' = Some 1" "float_whole ''-1.5'' = None" "float_whole ''15e-1'' = None" "float_whole ''NaN'' = None"
  by (simp_all add: float_whole_def float_int_def float_parts_def int_word_def is_digit_def lit_def)

text \<open>\<open>bytes.fromhex(v)\<close>\<close>

definition fromhex_val :: "pyval \<Rightarrow> bytes res" where
  "fromhex_val v = bindR (as_str v) fromhex"

abbreviation PHex :: "bytes \<Rightarrow> pyval" where
  "PHex bs \<equiv> PStr (hex bs)"

lemma fromhex_val_PHex [simp]: "fromhex_val (PHex bs) = Inr bs"
  by (simp add: fromhex_val_def)

fun opt_int :: "int option \<Rightarrow> pyval" where
  "opt_int None = PNone"
| "opt_int (Some n) = PInt n"

text \<open>Equality \<open>v == w\<close> of the values the code compares (integers, booleans and whole floats mix).\<close>

fun py_eq :: "pyval \<Rightarrow> pyval \<Rightarrow> bool" where
  "py_eq (PInt m) (PBool b) = (m = (if b then 1 else 0))"
| "py_eq (PBool b) (PInt m) = (m = (if b then 1 else 0))"
| "py_eq (PInt m) (PFloat t) = (float_whole t = Some m)"
| "py_eq (PFloat t) (PInt m) = (float_whole t = Some m)"
| "py_eq (PBool b) (PFloat t) = (float_whole t = Some (if b then 1 else 0))"
| "py_eq (PFloat t) (PBool b) = (float_whole t = Some (if b then 1 else 0))"
| "py_eq v w = (v = w)"

lemma py_eq_refl [simp]: "py_eq v v"
  by (cases v) auto

end
