(* ===== verification/Crypto_Lib.thy ===== *)
theory Crypto_Lib
  imports Py_Value
begin

text \<open>
  The third-party packages the program calls, as one record of parameters, with the
  documented behaviour that properties rely on as named predicates over it, and an
  example instance for the witnesses. Fields of \<open>crypto\<close>:
  \<^item> \<open>cryptography\<close>: \<open>ChaCha20Poly1305(key).encrypt/decrypt\<close>, \<open>HKDF(SHA256).derive\<close>,
    X25519 and Ed25519 keys as their raw bytes;
  \<^item> \<open>argon2\<close>: \<open>hash_secret_raw\<close> and the \<open>PasswordHasher\<close>;
  \<^item> \<open>oqs\<close>: ML-KEM-1024 and ML-DSA-87;
  \<^item> \<open>msgpack\<close>: \<open>packb\<close> and \<open>unpackb\<close>;
  \<^item> the SHA-256 compression of \<open>hashlib\<close> (every theorem holds for any hash function).
  A function that draws randomness takes the entropy tape and returns the rest of it.
  No theorem of the development assumes that a cipher or a signature is unbreakable.
\<close>

record crypto =
  chacha_encrypt :: "bytes \<Rightarrow> bytes \<Rightarrow> bytes \<Rightarrow> bytes \<Rightarrow> bytes res"
  chacha_decrypt :: "bytes \<Rightarrow> bytes \<Rightarrow> bytes \<Rightarrow> bytes \<Rightarrow> bytes res"
  hkdf_sha256 :: "nat \<Rightarrow> bytes \<Rightarrow> bytes \<Rightarrow> bytes \<Rightarrow> bytes res"
  sha256 :: "bytes \<Rightarrow> bytes"
  argon2id_raw :: "bytes \<Rightarrow> bytes \<Rightarrow> nat \<Rightarrow> nat \<Rightarrow> nat \<Rightarrow> nat \<Rightarrow> bytes res"
  hasher_hash :: "pystr \<Rightarrow> entropy \<Rightarrow> pystr res \<times> entropy"
  hasher_verify :: "pystr \<Rightarrow> pystr \<Rightarrow> bool res"
  x25519_generate :: "entropy \<Rightarrow> bytes \<times> entropy"
  x25519_load :: "bytes \<Rightarrow> bytes res"
  x25519_public :: "bytes \<Rightarrow> bytes"
  x25519_exchange :: "bytes \<Rightarrow> bytes \<Rightarrow> bytes res"
  ed25519_generate :: "entropy \<Rightarrow> bytes \<times> entropy"
  ed25519_load :: "bytes \<Rightarrow> bytes res"
  ed25519_public :: "bytes \<Rightarrow> bytes"
  ed25519_sign :: "bytes \<Rightarrow> bytes \<Rightarrow> bytes"
  ed25519_verify :: "bytes \<Rightarrow> bytes \<Rightarrow> bytes \<Rightarrow> unit res"
  kem_keypair :: "entropy \<Rightarrow> (bytes \<times> bytes) \<times> entropy"
  kem_encap :: "bytes \<Rightarrow> entropy \<Rightarrow> (bytes \<times> bytes) res \<times> entropy"
  kem_decap :: "bytes \<Rightarrow> bytes \<Rightarrow> bytes res"
  dsa_keypair :: "entropy \<Rightarrow> (bytes \<times> bytes) \<times> entropy"
  dsa_sign :: "bytes \<Rightarrow> bytes \<Rightarrow> entropy \<Rightarrow> bytes res \<times> entropy"
  dsa_verify :: "bytes \<Rightarrow> bytes \<Rightarrow> bytes \<Rightarrow> bool res"
  packb :: "pyval \<Rightarrow> bytes res"
  unpackb :: "bytes \<Rightarrow> pyval res"

section \<open>Documented behaviour\<close>

text \<open>
  ChaCha20-Poly1305 (RFC 8439): with a 32-byte key and a 12-byte nonce encryption
  succeeds, appends a 16-byte tag, and decrypts to the plaintext; decryption accepts
  nothing but the encryption of what it returns; other key sizes are refused.
\<close>

definition aead_correct :: "crypto \<Rightarrow> bool" where
  "aead_correct L \<longleftrightarrow>
     (\<forall>k n p a. length k = 32 \<longrightarrow> length n = 12 \<longrightarrow>
        (\<exists>c. chacha_encrypt L k n p a = Inr c \<and> length c = length p + 16 \<and>
             chacha_decrypt L k n c a = Inr p))"

definition aead_strict :: "crypto \<Rightarrow> bool" where
  "aead_strict L \<longleftrightarrow>
     (\<forall>k n c a p. chacha_decrypt L k n c a = Inr p \<longrightarrow> chacha_encrypt L k n p a = Inr c)"

text \<open>HKDF-SHA256 (RFC 5869) gives exactly the requested number of bytes, up to 255 blocks.\<close>

definition hkdf_correct :: "crypto \<Rightarrow> bool" where
  "hkdf_correct L \<longleftrightarrow>
     (\<forall>n s i k. (\<exists>b. hkdf_sha256 L n s i k = Inr b) \<longleftrightarrow> n \<le> 8160) \<and>
     (\<forall>n s i k b. hkdf_sha256 L n s i k = Inr b \<longrightarrow> length b = n)"

definition argon2_correct :: "crypto \<Rightarrow> bool" where
  "argon2_correct L \<longleftrightarrow>
     (\<forall>p s t m l n b. argon2id_raw L p s t m l n = Inr b \<longrightarrow> length b = n)"

definition sha256_correct :: "crypto \<Rightarrow> bool" where
  "sha256_correct L \<longleftrightarrow> (\<forall>b. length (sha256 L b) = 32)"

text \<open>
  X25519 (RFC 7748): with a public key that belongs to a private one the exchange
  succeeds and both sides compute the same secret; keys are 32 bytes.
\<close>

definition x25519_correct :: "crypto \<Rightarrow> bool" where
  "x25519_correct L \<longleftrightarrow>
     (\<forall>a b. length a = 32 \<longrightarrow> length b = 32 \<longrightarrow>
        (\<exists>s. x25519_exchange L a (x25519_public L b) = Inr s \<and>
             x25519_exchange L b (x25519_public L a) = Inr s)) \<and>
     (\<forall>t a t'. x25519_generate L t = (a, t') \<longrightarrow> length a = 32) \<and>
     (\<forall>a. length a = 32 \<longrightarrow> length (x25519_public L a) = 32) \<and>
     (\<forall>b. x25519_load L b = (if length b = 32 then Inr b else
        Inl (ValueError ''An X25519 private key is 32 bytes long'')))"

text \<open>ML-KEM-1024 (FIPS 203): decapsulation recovers the encapsulated secret.\<close>

definition kem_pair :: "crypto \<Rightarrow> bytes \<Rightarrow> bytes \<Rightarrow> bool" where
  "kem_pair L pk sk \<longleftrightarrow>
     (\<forall>t. \<exists>ct ss t'. kem_encap L pk t = (Inr (ct, ss), t') \<and> kem_decap L sk ct = Inr ss)"

definition kem_correct :: "crypto \<Rightarrow> bool" where
  "kem_correct L \<longleftrightarrow>
     (\<forall>t pk sk t'. kem_keypair L t = ((pk, sk), t') \<longrightarrow> kem_pair L pk sk \<and> length pk = 1568)"

text \<open>Ed25519 and ML-DSA-87 (FIPS 186-5, FIPS 204): signatures have fixed sizes and verify.\<close>

definition ed25519_correct :: "crypto \<Rightarrow> bool" where
  "ed25519_correct L \<longleftrightarrow>
     (\<forall>t a t'. ed25519_generate L t = (a, t') \<longrightarrow> length a = 32) \<and>
     (\<forall>a. length a = 32 \<longrightarrow> length (ed25519_public L a) = 32 \<and> ed25519_load L a = Inr a) \<and>
     (\<forall>a m. length (ed25519_sign L a m) = 64 \<and>
        ed25519_verify L (ed25519_public L a) (ed25519_sign L a m) m = Inr ())"

definition dsa_pair :: "crypto \<Rightarrow> bytes \<Rightarrow> bytes \<Rightarrow> bool" where
  "dsa_pair L pk sk \<longleftrightarrow>
     (\<forall>m t. \<exists>s t'. dsa_sign L sk m t = (Inr s, t') \<and> length s = 4627 \<and>
        dsa_verify L m s pk = Inr True)"

definition dsa_correct :: "crypto \<Rightarrow> bool" where
  "dsa_correct L \<longleftrightarrow>
     (\<forall>t pk sk t'. dsa_keypair L t = ((pk, sk), t') \<longrightarrow> dsa_pair L pk sk \<and> length pk = 2592)"

text \<open>msgpack: flat arrays of byte strings and uint64 numbers survive a round trip.\<close>

fun msgpack_item :: "pyval \<Rightarrow> bool" where
  "msgpack_item (PBytes b) = True"
| "msgpack_item (PInt n) = (0 \<le> n \<and> n < 2 ^ 64)"
| "msgpack_item _ = False"

definition msgpack_correct :: "crypto \<Rightarrow> bool" where
  "msgpack_correct L \<longleftrightarrow>
     (\<forall>vs. list_all msgpack_item vs \<longrightarrow>
        (\<exists>w. packb L (PList vs) = Inr w \<and> unpackb L w = Inr (PList vs)))"

lemma msgpack_roundtrip:
  "msgpack_correct L \<Longrightarrow> list_all msgpack_item vs \<Longrightarrow>
     \<exists>w. packb L (PList vs) = Inr w \<and> unpackb L w = Inr (PList vs)"
  by (simp add: msgpack_correct_def)

lemma msgpack_inj:
  "msgpack_correct L \<Longrightarrow> list_all msgpack_item vs \<Longrightarrow> list_all msgpack_item us \<Longrightarrow>
     packb L (PList vs) = Inr w \<Longrightarrow> packb L (PList us) = Inr w \<Longrightarrow> vs = us"
  using msgpack_roundtrip [of L vs] msgpack_roundtrip [of L us] by auto

lemma x25519_generate_length:
  "x25519_correct L \<Longrightarrow> x25519_generate L t = (a, t') \<Longrightarrow> length a = 32"
  unfolding x25519_correct_def by blast

lemma x25519_public_length: "x25519_correct L \<Longrightarrow> length a = 32 \<Longrightarrow> length (x25519_public L a) = 32"
  unfolding x25519_correct_def by blast

lemma x25519_load_ok: "x25519_correct L \<Longrightarrow> length a = 32 \<Longrightarrow> x25519_load L a = Inr a"
  unfolding x25519_correct_def by simp

lemma x25519_agree:
  "x25519_correct L \<Longrightarrow> length a = 32 \<Longrightarrow> length b = 32 \<Longrightarrow>
     \<exists>s. x25519_exchange L a (x25519_public L b) = Inr s \<and> x25519_exchange L b (x25519_public L a) = Inr s"
  unfolding x25519_correct_def by blast

lemma aead_correctD:
  "aead_correct L \<Longrightarrow> length k = 32 \<Longrightarrow> length n = 12 \<Longrightarrow> chacha_encrypt L k n p a = Inr c \<Longrightarrow>
     length c = length p + 16 \<and> chacha_decrypt L k n c a = Inr p"
  unfolding aead_correct_def by (metis Inr_inject)

lemma aead_correct_total:
  "aead_correct L \<Longrightarrow> length k = 32 \<Longrightarrow> length n = 12 \<Longrightarrow> \<exists>c. chacha_encrypt L k n p a = Inr c"
  unfolding aead_correct_def by blast

section \<open>An example instance\<close>

text \<open>
  A functional stand-in for the packages, used in witnesses only: it satisfies every
  predicate above. \<open>fit n b\<close> cuts or pads a byte string to \<open>n\<close> bytes.
\<close>

definition fit :: "nat \<Rightarrow> bytes \<Rightarrow> bytes" where
  "fit n b = take n (b @ zeros n)"

lemma length_fit [simp]: "length (fit n b) = n"
  by (simp add: fit_def)

lemma fit_id [simp]: "length b = n \<Longrightarrow> fit n b = b"
  by (simp add: fit_def)

lemma take_fit [simp]: "m \<le> n \<Longrightarrow> take m (fit n b) = fit m b"
proof -
  assume "m \<le> n"
  then have "zeros n = zeros m @ zeros (n - m)"
    by (simp add: zeros_def flip: replicate_add)
  then show ?thesis using \<open>m \<le> n\<close> by (simp add: fit_def min_def)
qed

definition frame :: "bytes \<Rightarrow> bytes" where
  "frame b = replicate (length b) 1 @ 0 # b"

fun unframe :: "bytes \<Rightarrow> bytes \<times> bytes" where
  "unframe bs = (let n = length (takeWhile (\<lambda>b. b = 1) bs); r = drop (Suc n) bs
     in (take n r, drop n r))"

lemma unframe_frame [simp]: "unframe (frame b @ r) = (b, r)"
proof -
  have "takeWhile (\<lambda>b. b = (1::byte)) (replicate n 1 @ 0 # x) = replicate n 1" for n x
    by (induction n) auto
  then show ?thesis by (simp add: frame_def Let_def)
qed

lemma unframe_frame_end [simp]: "unframe (frame b) = (b, [])"
  using unframe_frame [of b "[]"] by simp

declare unframe.simps [simp del]

fun example_item :: "pyval \<Rightarrow> bytes" where
  "example_item (PInt n) = frame (1 # le_bytes 8 (nat n))"
| "example_item (PBytes b) = frame (0 # b)"
| "example_item _ = []"

definition example_packb :: "pyval \<Rightarrow> bytes res" where
  "example_packb v = (case v of
      PList vs \<Rightarrow> if list_all msgpack_item vs then Inr (concat (map example_item vs)) else Inl TypeError
    | _ \<Rightarrow> Inl TypeError)"

definition example_unitem :: "bytes \<Rightarrow> pyval" where
  "example_unitem b = (case b of [] \<Rightarrow> PNone
     | c # cs \<Rightarrow> if c = 0 then PBytes cs else PInt (int (le_nat cs)))"

function example_unitems :: "bytes \<Rightarrow> pyval list" where
  "example_unitems w = (if w = [] then []
     else example_unitem (fst (unframe w)) # example_unitems (snd (unframe w)))"
  by pat_completeness auto

termination
  by (relation "measure length") (auto simp: unframe.simps Let_def)

declare example_unitems.simps [simp del]

definition example_unpackb :: "bytes \<Rightarrow> pyval res" where
  "example_unpackb w = Inr (PList (example_unitems w))"

definition example_tag :: "bytes \<Rightarrow> bytes \<Rightarrow> bytes" where
  "example_tag k a = fit 8 k @ fit 8 a"

definition example_lib :: crypto where
  "example_lib = \<lparr>
     chacha_encrypt = (\<lambda>k n p a. if length k = 32 \<and> length n = 12 then Inr (p @ example_tag k a)
       else Inl (ValueError ''key or nonce length'')),
     chacha_decrypt = (\<lambda>k n c a. if length k = 32 \<and> length n = 12 then
         (if 16 \<le> length c \<and> drop (length c - 16) c = example_tag k a
          then Inr (take (length c - 16) c) else Inl InvalidTag)
       else Inl (ValueError ''key or nonce length'')),
     hkdf_sha256 = (\<lambda>n s i k. if n \<le> 8160 then Inr (xor_bytes (fit n s) (fit n (rev k)))
       else Inl (ValueError ''Cannot derive keys larger than 8160 octets'')),
     sha256 = fit 32,
     argon2id_raw = (\<lambda>p s t m l n. Inr (fit n p)),
     hasher_hash = (\<lambda>p t. (Inr p, t)),
     hasher_verify = (\<lambda>h p. if h = p then Inr True else Inl (LibraryError ''VerifyMismatchError'')),
     x25519_generate = urandom 32,
     x25519_load = (\<lambda>b. if length b = 32 then Inr b
       else Inl (ValueError ''An X25519 private key is 32 bytes long'')),
     x25519_public = (\<lambda>a. a),
     x25519_exchange = (\<lambda>a b. if length a = 32 \<and> length b = 32 then Inr (xor_bytes a b)
       else Inl (ValueError ''An X25519 public key is 32 bytes long'')),
     ed25519_generate = urandom 32,
     ed25519_load = (\<lambda>b. if length b = 32 then Inr b
       else Inl (ValueError ''An Ed25519 private key is 32 bytes long'')),
     ed25519_public = fit 32,
     ed25519_sign = (\<lambda>a m. fit 32 a @ fit 32 m),
     ed25519_verify = (\<lambda>pub s m. if s = fit 32 pub @ fit 32 m then Inr ()
       else Inl (LibraryError ''InvalidSignature'')),
     kem_keypair = (\<lambda>t. let (s, t') = urandom 32 t in ((fit 1568 s, fit 3168 s), t')),
     kem_encap = (\<lambda>pk t. let (s, t') = urandom 32 t in (Inr (fit 1568 s, s), t')),
     kem_decap = (\<lambda>sk ct. if length ct = 1568 then Inr (fit 32 ct)
       else Inl (ValueError ''ciphertext length'')),
     dsa_keypair = (\<lambda>t. let (s, t') = urandom 32 t in ((fit 2592 s, fit 4896 s), t')),
     dsa_sign = (\<lambda>sk m t. (Inr (fit 4627 (fit 32 sk @ m)), t)),
     dsa_verify = (\<lambda>m s pk. Inr (s = fit 4627 (fit 32 pk @ m))),
     packb = example_packb,
     unpackb = example_unpackb \<rparr>"

lemma example_lib_sel:
  "chacha_encrypt example_lib k n p a = (if length k = 32 \<and> length n = 12
     then Inr (p @ example_tag k a) else Inl (ValueError ''key or nonce length''))"
  "chacha_decrypt example_lib k n c a = (if length k = 32 \<and> length n = 12 then
       (if 16 \<le> length c \<and> drop (length c - 16) c = example_tag k a
        then Inr (take (length c - 16) c) else Inl InvalidTag)
     else Inl (ValueError ''key or nonce length''))"
  "hkdf_sha256 example_lib m s i k = (if m \<le> 8160 then Inr (xor_bytes (fit m s) (fit m (rev k)))
     else Inl (ValueError ''Cannot derive keys larger than 8160 octets''))"
  "sha256 example_lib = fit 32"
  "argon2id_raw example_lib p s x y z m = Inr (fit m p)"
  "x25519_generate example_lib = urandom 32"
  "x25519_load example_lib b = (if length b = 32 then Inr b
     else Inl (ValueError ''An X25519 private key is 32 bytes long''))"
  "x25519_public example_lib b = b"
  "x25519_exchange example_lib b c = (if length b = 32 \<and> length c = 32 then Inr (xor_bytes b c)
     else Inl (ValueError ''An X25519 public key is 32 bytes long''))"
  "ed25519_generate example_lib = urandom 32"
  "ed25519_load example_lib b = (if length b = 32 then Inr b
     else Inl (ValueError ''An Ed25519 private key is 32 bytes long''))"
  "ed25519_public example_lib = fit 32"
  "ed25519_sign example_lib b c = fit 32 b @ fit 32 c"
  "ed25519_verify example_lib b s c = (if s = fit 32 b @ fit 32 c then Inr ()
     else Inl (LibraryError ''InvalidSignature''))"
  "kem_keypair example_lib t = (let (s, t') = urandom 32 t in ((fit 1568 s, fit 3168 s), t'))"
  "kem_encap example_lib b t = (let (s, t') = urandom 32 t in (Inr (fit 1568 s, s), t'))"
  "kem_decap example_lib b c = (if length c = 1568 then Inr (fit 32 c)
     else Inl (ValueError ''ciphertext length''))"
  "dsa_keypair example_lib t = (let (s, t') = urandom 32 t in ((fit 2592 s, fit 4896 s), t'))"
  "dsa_sign example_lib b c t = (Inr (fit 4627 (fit 32 b @ c)), t)"
  "dsa_verify example_lib c s b = Inr (s = fit 4627 (fit 32 b @ c))"
  "packb example_lib = example_packb"
  "unpackb example_lib = example_unpackb"
  by (simp_all add: example_lib_def)

lemma xor_bytes_commute: "xor_bytes a b = xor_bytes b a"
  by (induction a b rule: list_induct2') (simp_all add: xor_bytes_def xor.commute)

lemma length_xor_bytes [simp]: "length (xor_bytes a b) = min (length a) (length b)"
  by (simp add: xor_bytes_def)

lemma length_example_tag [simp]: "length (example_tag k a) = 16"
  by (simp add: example_tag_def)

lemma rev_zeros [simp]: "rev (zeros n) = zeros n"
  by (simp add: zeros_def)

lemma zeros_Nil_iff [simp]: "zeros n = [] \<longleftrightarrow> n = 0"
  by (simp add: zeros_def)

lemma fit_Nil [simp]: "fit n [] = zeros n"
  by (simp add: fit_def)

lemma xor_zeros [simp]: "xor_bytes (zeros n) (zeros n) = zeros n"
  by (induction n) (simp_all add: xor_bytes_def zeros_def)

lemma urandom_zero: "drawE (urandom n) (\<lambda>_. 0) = (Inr (zeros n), \<lambda>_. 0)"
  by (simp add: drawE_def urandom_def zeros_def map_replicate_trivial)

lemma example_aead_correct [simp]: "aead_correct example_lib"
  by (simp add: aead_correct_def example_lib_sel)

lemma example_aead_strict [simp]: "aead_strict example_lib"
  by (auto simp: aead_strict_def example_lib_sel split: if_splits)
    (metis append_take_drop_id)

lemma example_hkdf_correct [simp]: "hkdf_correct example_lib"
  by (simp add: hkdf_correct_def example_lib_sel)

lemma example_argon2_correct [simp]: "argon2_correct example_lib"
  by (auto simp add: argon2_correct_def example_lib_sel)

lemma example_sha256_correct [simp]: "sha256_correct example_lib"
  by (simp add: sha256_correct_def example_lib_sel)

lemma example_x25519_correct [simp]: "x25519_correct example_lib"
  by (auto simp: x25519_correct_def example_lib_sel xor_bytes_commute dest: urandom_length)

lemma example_kem_pair [simp]: "kem_pair example_lib pk sk"
  by (auto simp: kem_pair_def example_lib_sel Let_def urandom_def fit_def)

lemma example_kem_correct [simp]: "kem_correct example_lib"
  by (auto simp: kem_correct_def example_lib_sel Let_def split: prod.splits)

lemma example_ed25519_correct [simp]: "ed25519_correct example_lib"
  by (auto simp: ed25519_correct_def example_lib_sel dest: urandom_length)

lemma example_dsa_pair: "fit 32 pk = fit 32 sk \<Longrightarrow> dsa_pair example_lib pk sk"
  by (simp add: dsa_pair_def example_lib_sel)

lemma fit_fit: "m \<le> n \<Longrightarrow> fit m (fit n b) = fit m b"
  using take_fit [of m n b] by (simp add: fit_def [of m "fit n b"])

lemma example_dsa_correct [simp]: "dsa_correct example_lib"
  by (auto simp: dsa_correct_def example_lib_sel Let_def fit_fit intro!: example_dsa_pair
      split: prod.splits)

lemma example_unitem_item:
  "msgpack_item v \<Longrightarrow> \<exists>b. example_item v = frame b \<and> example_unitem b = v"
proof (cases v)
  case (PInt n)
  moreover assume "msgpack_item v"
  ultimately have n: "0 \<le> n" "n < 2 ^ 64" by auto
  then have "nat n < 256 ^ 8" by (intro nat_less_256_power) simp_all
  then have "le_nat (le_bytes 8 (nat n)) = nat n" by (simp only: le_nat_le_bytes mod_less)
  with PInt n(1) show ?thesis
    by (intro exI [of _ "1 # le_bytes 8 (nat n)"]) (simp add: example_unitem_def)
qed (auto simp: example_unitem_def)

lemma example_unitems_items:
  "list_all msgpack_item vs \<Longrightarrow> example_unitems (concat (map example_item vs)) = vs"
proof (induction vs)
  case (Cons v vs)
  then obtain b where b: "example_item v = frame b" "example_unitem b = v"
    using example_unitem_item [of v] by auto
  have "frame b \<noteq> []" by (simp add: frame_def)
  with b Cons show ?case by (simp add: example_unitems.simps [of "frame b @ _"])
qed (simp add: example_unitems.simps)

lemma example_msgpack_correct [simp]: "msgpack_correct example_lib"
  by (simp add: msgpack_correct_def example_lib_sel example_packb_def example_unpackb_def
      example_unitems_items)

end
