(* ===== verification/Srp.thy ===== *)
theory Srp
  imports Constants Crypto_Lib
begin

text \<open>
  core/srp_session.py: the SRP-6a client over the 3072-bit group of RFC 5054, and, as
  the specification it has to meet, the server's side of the exchange (RFC 5054 section
  2.5 with the paddings that the module's header states). Python integers are
  mathematical integers; \<open>pow(b, e, n)\<close> is \<open>pow_mod\<close>.
\<close>

section \<open>Arithmetic\<close>

definition srp_N :: int where
  "srp_N = 0xFFFFFFFFFFFFFFFFC90FDAA22168C234C4C6628B80DC1CD129024E088A67CC74020BBEA63B139B22514A08798E3404DDEF9519B3CD3A431B302B0A6DF25F14374FE1356D6D51C245E485B576625E7EC6F44C42E9A637ED6B0BFF5CB6F406B7EDEE386BFB5A899FA5AE9F24117C4B1FE649286651ECE45B3DC2007CB8A163BF0598DA48361C55D39A69163FA8FD24CF5F83655D23DCA3AD961C62F356208552BB9ED529077096966D670C354E4ABC9804F1746C08CA18217C32905E462E36CE3BE39E772C180E86039B2783A2EC07A28FB5C55DF06F4C52C9DE2BCBF6955817183995497CEA956AE515D2261898FA051015728E5A8AAAC42DAD33170D04507A33A85521ABDF1CBA64ECFB850458DBEF0A8AEA71575D060C7DB3970F85A6E1E4C7ABF5AE8CDB0933D71E8C94E04A25619DCEE3D2261AD2EE6BF12FFA06D98A0864D87602733EC86A64521F2B18177B200CBBE117577A615D6C770988C0BAD946E208E24FA074E5AB3143DB5BFCE0FD108E4B82D120A93AD2CAFFFFFFFFFFFFFFFF"

definition srp_g :: int where "srp_g = 5"
definition N_BYTES :: nat where "N_BYTES = 384"

text \<open>Three-argument \<open>pow\<close> by repeated squaring; the result lies between 0 and the modulus.\<close>

fun pow_mod_nat :: "int \<Rightarrow> nat \<Rightarrow> int \<Rightarrow> int" where
  "pow_mod_nat b e n =
     (if e = 0 then 1 mod n
      else if even e then pow_mod_nat (b * b mod n) (e div 2) n
      else b * pow_mod_nat (b * b mod n) (e div 2) n mod n)"

declare pow_mod_nat.simps [simp del]

definition pow_mod :: "int \<Rightarrow> int \<Rightarrow> int \<Rightarrow> int" where
  "pow_mod b e n = pow_mod_nat b (nat e) n"

fun bits :: "nat \<Rightarrow> nat" where
  "bits n = (if n = 0 then 0 else Suc (bits (n div 2)))"

declare bits.simps [simp del]

definition bit_length :: "int \<Rightarrow> nat" where
  "bit_length n = bits (nat \<bar>n\<bar>)"

definition digest :: "crypto \<Rightarrow> bytes list \<Rightarrow> bytes" where
  "digest L parts = sha256 L (concat parts)"

definition srp_pad :: "int \<Rightarrow> bytes res" where
  "srp_pad n = to_bytes_big N_BYTES n"

definition srp_minimal :: "int \<Rightarrow> bytes res" where
  "srp_minimal n =
     (let l = (bit_length n + 7) div 8 in to_bytes_big (if l = 0 then 1 else l) n)"

text \<open>The module constant \<open>_k\<close>, computed at import.\<close>

definition srp_k :: "crypto \<Rightarrow> int res" where
  "srp_k L = bindR (srp_pad srp_N) (\<lambda>n. bindR (srp_pad srp_g) (\<lambda>g.
     Inr (from_bytes_big (digest L [n, g]))))"

section \<open>The client session\<close>

record srp_session =
  srp_username :: pystr
  srp_password :: pystr
  srp_a :: int
  srp_A :: int
  srp_K :: "bytes option"
  srp_HAMK :: "bytes option"

definition new_srp_session :: "pystr \<Rightarrow> pystr \<Rightarrow> (entropy, srp_session) eff" where
  "new_srp_session username password =
     bindE (drawE (urandom 32)) (\<lambda>a_bytes.
     let a = from_bytes_big a_bytes in
     returnE \<lparr>srp_username = username, srp_password = password, srp_a = a,
       srp_A = pow_mod srp_g a srp_N, srp_K = None, srp_HAMK = None\<rparr>)"

definition A_hex :: "srp_session \<Rightarrow> pystr res" where
  "A_hex s = bindR (srp_minimal (srp_A s)) (\<lambda>b. Inr (hex b))"

definition process_challenge :: "crypto \<Rightarrow> pyval \<Rightarrow> pyval \<Rightarrow> (srp_session, pystr) eff" where
  "process_challenge L salt_hex B_hex =
     bindE (liftE (fromhex_val B_hex)) (\<lambda>B_bytes.
     let B = from_bytes_big B_bytes in
     bindE (guardE (B mod srp_N \<noteq> 0) (ValueError ''SRP challenge rejected: B is invalid'')) (\<lambda>_.
     bindE (getE srp_A) (\<lambda>A. bindE (liftE (srp_pad A)) (\<lambda>padA. bindE (liftE (srp_pad B)) (\<lambda>padB.
     let u = from_bytes_big (digest L [padA, padB]) in
     bindE (guardE (u \<noteq> 0) (ValueError ''SRP challenge rejected: u == 0'')) (\<lambda>_.
     bindE (liftE (fromhex_val salt_hex)) (\<lambda>salt.
     bindE (getE srp_username) (\<lambda>username. bindE (getE srp_password) (\<lambda>password.
     bindE (liftE (utf8_encode (username @ lit '':'' @ password))) (\<lambda>up.
     let x = from_bytes_big (digest L [salt, digest L [up]]) in
     bindE (liftE (srp_k L)) (\<lambda>k. bindE (getE srp_a) (\<lambda>a.
     let S = pow_mod (B - k * pow_mod srp_g x srp_N) (a + u * x) srp_N in
     bindE (liftE (srp_pad S)) (\<lambda>padS.
     let K = digest L [padS] in
     bindE (modifyE (\<lambda>s. s\<lparr>srp_K := Some K\<rparr>)) (\<lambda>_.
     bindE (liftE (srp_pad srp_N)) (\<lambda>padN.
     let HN = digest L [padN]; Hg = digest L [[byte_of (nat srp_g)]]; HNxHg = xor_bytes HN Hg in
     bindE (liftE (utf8_encode username)) (\<lambda>I. let HI = digest L [I] in
     bindE (liftE (srp_minimal A)) (\<lambda>A_bytes.
     let M = digest L [HNxHg, HI, salt, A_bytes, B_bytes, K] in
     bindE (modifyE (\<lambda>s. s\<lparr>srp_HAMK := Some (digest L [A_bytes, M, K])\<rparr>)) (\<lambda>_.
     returnE (hex M)))))))))))))))))))"

definition set_password :: "pystr \<Rightarrow> srp_session \<Rightarrow> srp_session" where
  "set_password password s = s\<lparr>srp_password := password\<rparr>"

definition verify_server :: "srp_session \<Rightarrow> pyval \<Rightarrow> bool" where
  "verify_server s M2_hex =
     (case srp_HAMK s of None \<Rightarrow> False
      | Some hamk \<Rightarrow> (case fromhex_val M2_hex of Inl e \<Rightarrow> False | Inr m \<Rightarrow> compare_digest hamk m))"

definition session_key_hex :: "srp_session \<Rightarrow> pystr res" where
  "session_key_hex s = (case srp_K s of
      None \<Rightarrow> Inl (ValueError ''SRP session not completed'')
    | Some K \<Rightarrow> Inr (hex K))"

section \<open>Lemmas on the arithmetic\<close>

lemma pow_mod_nat_eq: "pow_mod_nat b e n = b ^ e mod n"
proof (induction b e n rule: pow_mod_nat.induct)
  case (1 b e n)
  have sq: "(b * b mod n) ^ (e div 2) mod n = (b * b) ^ (e div 2) mod n" by (rule power_mod)
  have two: "(b * b) ^ (e div 2) = b ^ (2 * (e div 2))" by (simp add: power_mult power2_eq_square)
  show ?case
  proof (cases "e = 0")
    case False
    with 1 show ?thesis
    proof (cases "even e")
      case True
      with 1 False sq two show ?thesis by (simp add: pow_mod_nat.simps [of b e])
    next
      case odd: False
      then have e: "e = Suc (2 * (e div 2))" by simp
      have "pow_mod_nat b e n = b * ((b * b) ^ (e div 2) mod n) mod n"
        using 1 False odd sq by (simp add: pow_mod_nat.simps [of b e])
      also have "\<dots> = b * b ^ (2 * (e div 2)) mod n" by (simp only: mod_mult_right_eq two)
      also have "\<dots> = b ^ Suc (2 * (e div 2)) mod n" by simp
      finally show ?thesis using e by simp
    qed
  qed (simp add: pow_mod_nat.simps)
qed

lemma pow_mod_eq: "pow_mod b e n = b ^ nat e mod n"
  by (simp add: pow_mod_def pow_mod_nat_eq)

lemma less_2_bits: "n < 2 ^ bits n"
proof (induction n rule: bits.induct)
  case (1 n)
  show ?case
  proof (cases "n = 0")
    case False
    then have "n div 2 < 2 ^ bits (n div 2)" by (rule 1)
    then have "n < 2 * 2 ^ bits (n div 2)" by linarith
    with False show ?thesis by (simp add: bits.simps [of n])
  qed (simp add: bits.simps)
qed

lemma srp_N_pos [simp]: "0 < srp_N" "1 < srp_N" "5 < srp_N"
  by (simp_all add: srp_N_def)

lemma srp_N_less: "srp_N < 256 ^ 384"
  by (simp add: srp_N_def)

lemma srp_pad_total: "0 \<le> n \<Longrightarrow> n < 256 ^ 384 \<Longrightarrow> srp_pad n = Inr (be_bytes 384 (nat n))"
  by (simp add: srp_pad_def to_bytes_big_def N_BYTES_def del: power_numeral)

lemma srp_pad_mod [simp]: "srp_pad (n mod srp_N) = Inr (be_bytes 384 (nat (n mod srp_N)))"
proof (rule srp_pad_total)
  have "n mod srp_N < srp_N" by simp
  then show "n mod srp_N < 256 ^ 384" using srp_N_less by linarith
qed simp

lemma srp_pad_N [simp]: "srp_pad srp_N = Inr (be_bytes 384 (nat srp_N))"
  by (rule srp_pad_total) (use srp_N_less in \<open>simp_all add: less_imp_le\<close>)

lemma srp_minimal_total:
  assumes "0 \<le> n"
  shows "\<exists>b. srp_minimal n = Inr b \<and> from_bytes_big b = n"
proof -
  let ?l = "(bit_length n + 7) div 8"
  let ?m = "if ?l = 0 then 1 else ?l"
  have "nat n < 2 ^ bit_length n" using less_2_bits [of "nat n"] assms by (simp add: bit_length_def)
  also have "(2::nat) ^ bit_length n \<le> 2 ^ (8 * ?m)" by (rule power_increasing) auto
  also have "\<dots> = 256 ^ ?m" by (simp only: power_mult) simp
  finally have "nat n < 256 ^ ?m" .
  then have "n < 256 ^ ?m" using assms int_less_256_power [of "nat n" ?m] by (simp del: if_split)
  with assms have "srp_minimal n = Inr (be_bytes ?m (nat n))"
    by (auto simp: srp_minimal_def Let_def to_bytes_big_def)
  moreover from this have "from_bytes_big (be_bytes ?m (nat n)) = n"
    unfolding srp_minimal_def Let_def by (rule from_to_bytes_big)
  ultimately show ?thesis by blast
qed

lemma srp_k_eq: "\<exists>k. srp_k L = Inr k \<and> 0 \<le> k"
proof -
  have "srp_pad srp_g = Inr (be_bytes 384 (nat srp_g))"
    using srp_N_less srp_N_pos(3) by (intro srp_pad_total) (unfold srp_g_def, linarith+)
  then show ?thesis by (simp add: srp_k_def)
qed

text \<open>The two ways of computing the premaster secret agree, for every modulus.\<close>

lemma srp_secret_agrees:
  fixes k g n :: int and a b u x :: nat
  shows "((k * (g ^ x mod n) + g ^ b mod n) mod n - k * (g ^ x mod n)) ^ (a + u * x) mod n =
    ((g ^ a mod n) * ((g ^ x mod n) ^ u mod n)) ^ b mod n"
proof -
  have "((k * (g ^ x mod n) + g ^ b mod n) mod n - k * (g ^ x mod n)) mod n = g ^ b mod n"
    by (simp add: mod_simps)
  then have "((k * (g ^ x mod n) + g ^ b mod n) mod n - k * (g ^ x mod n)) ^ (a + u * x) mod n =
      (g ^ b) ^ (a + u * x) mod n"
    by (metis power_mod)
  also have "(g ^ b) ^ (a + u * x) = (g ^ a * (g ^ x) ^ u) ^ b"
  proof -
    have "(g ^ a * (g ^ x) ^ u) ^ b = g ^ ((a + x * u) * b)" by (simp only: power_mult power_add)
    moreover have "(g ^ b) ^ (a + u * x) = g ^ (b * (a + u * x))" by (simp only: power_mult)
    ultimately show ?thesis by (simp only: mult.commute)
  qed
  also have "\<dots> mod n = ((g ^ a mod n) * ((g ^ x mod n) ^ u mod n)) ^ b mod n"
  proof -
    have "(g ^ a mod n) * ((g ^ x mod n) ^ u mod n) mod n = g ^ a * (g ^ x) ^ u mod n"
      by (simp only: power_mod mod_mult_eq)
    from arg_cong [OF this, of "\<lambda>z. z ^ b mod n"] show ?thesis by (simp only: power_mod)
  qed
  finally show ?thesis .
qed

lemma srp_N_mod_5: "srp_N mod 5 = 2"
proof -
  have *: "(2 + 5 * q) mod 5 = 2" for q :: int by simp
  have "srp_N = 2 + 5 *
    0x333333333333333328365EED39E1C070F427AD4F19C59F5D0833A934E87B28E40068BFBAD89D856D437534E51C70CDC5FCB76B8A5C3EDA38A33BCEE2CA13040B0FF9D77C49105A0DFA81244AE0794C8E30DC0D61EE0B2F7BCF33128AFD9AF195FC71AF32454EB98789530736B2756CC7A83B47A9FC2DABD926CCE5BE86AD8C9AB82BA80AD27790B87B6AD98832A0F6464D7AAC3A5F53EF846C13CA446CE776F252F76E9B1684847C47CF3DDC7558EB34304A7C01C204D37F3D5012DAD60AF60BFA52E4A26B361ACD856E4D86FC0186E98AC112C9AFDC108EC608C2648444D16B3EB77518FBB77BC76AC3A1381E9867699DE3B6121BBBC0D5EF709E35CDA9B20A54DDD388C638F2142F658100DE9263021BC87D11790135B2BD849CB454939427EF3122E8F89B70C49FB5B7600ED446B92960C3A13890961596A332015EB534E0F8179A170C8E7BADAA063BD19E4BD335BF2D04AB1879DF7C17CEB4F35891DAFA01C6DCB9B0FABBD6A72BDF329365D01C75809039BB722A289999999999999999"
    by (simp add: srp_N_def)
  then show ?thesis by (rule ssubst [of _ _ "\<lambda>n. n mod 5 = 2"]) (rule *)
qed

lemma g_power_nonzero: "srp_g ^ n mod srp_N \<noteq> 0"
proof
  assume "srp_g ^ n mod srp_N = 0"
  then have "srp_N dvd srp_g ^ n" by (simp add: dvd_eq_mod_eq_0)
  moreover have "coprime srp_N (srp_g ^ n)"
  proof -
    have "gcd srp_N 5 = gcd 5 (srp_N mod 5)" by (rule gcd_red_int)
    also have "srp_N mod 5 = 2" by (simp only: srp_N_mod_5)
    also have "gcd 5 (2::int) = 1" using gcd_red_int [of 5 2] by simp
    finally have "coprime srp_N 5" by (simp add: coprime_iff_gcd_eq_1)
    then show ?thesis by (simp add: srp_g_def)
  qed
  ultimately have "srp_N dvd 1" using coprime_common_divisor dvd_refl by blast
  then show False using srp_N_pos(2) by (simp add: zdvd_not_zless)
qed

section \<open>The server's side\<close>

text \<open>
  The specification: \<open>x\<close>, \<open>u\<close>, the verifier \<open>v\<close>, the challenge \<open>B\<close> (padded on the
  wire), and the server's check of the proof \<open>M1\<close>, which returns the session key and
  the proof \<open>M2\<close> when it accepts.
\<close>

definition srp_x :: "crypto \<Rightarrow> pystr \<Rightarrow> pystr \<Rightarrow> bytes \<Rightarrow> int res" where
  "srp_x L username password salt =
     bindR (utf8_encode (username @ lit '':'' @ password)) (\<lambda>up.
       Inr (from_bytes_big (digest L [salt, digest L [up]])))"

definition srp_u :: "crypto \<Rightarrow> int \<Rightarrow> bytes \<Rightarrow> int" where
  "srp_u L A B_bytes = from_bytes_big (digest L [be_bytes N_BYTES (nat A), B_bytes])"

definition srp_proof :: "crypto \<Rightarrow> bytes \<Rightarrow> bytes \<Rightarrow> bytes \<Rightarrow> bytes \<Rightarrow> bytes \<Rightarrow> bytes" where
  "srp_proof L I salt A_bytes B_bytes K =
     digest L [xor_bytes (digest L [be_bytes N_BYTES (nat srp_N)]) (digest L [[byte_of (nat srp_g)]]),
       digest L [I], salt, A_bytes, B_bytes, K]"

definition srp_secret_key :: "crypto \<Rightarrow> int \<Rightarrow> bytes" where
  "srp_secret_key L S = digest L [be_bytes N_BYTES (nat S)]"

definition server_verifier :: "crypto \<Rightarrow> pystr \<Rightarrow> pystr \<Rightarrow> bytes \<Rightarrow> int res" where
  "server_verifier L username password salt =
     bindR (srp_x L username password salt) (\<lambda>x. Inr (srp_g ^ nat x mod srp_N))"

definition server_challenge :: "crypto \<Rightarrow> int \<Rightarrow> int \<Rightarrow> bytes res" where
  "server_challenge L v b =
     bindR (srp_k L) (\<lambda>k. srp_pad ((k * v + srp_g ^ nat b mod srp_N) mod srp_N))"

definition server_accept ::
    "crypto \<Rightarrow> pystr \<Rightarrow> bytes \<Rightarrow> int \<Rightarrow> int \<Rightarrow> bytes \<Rightarrow> pystr \<Rightarrow> pystr \<Rightarrow> (bytes \<times> bytes) option res" where
  "server_accept L username salt v b B_bytes Ah M1_hex =
     bindR (utf8_encode username) (\<lambda>I. bindR (fromhex Ah) (\<lambda>A_bytes.
     let A = from_bytes_big A_bytes in
     bindR (guardR (A mod srp_N \<noteq> 0) (ValueError ''A is invalid'')) (\<lambda>_.
     let u = srp_u L (A mod srp_N) B_bytes;
         S = ((A mod srp_N) * (v ^ nat u mod srp_N)) ^ nat b mod srp_N;
         K = srp_secret_key L S;
         M = srp_proof L I salt A_bytes B_bytes K in
     Inr (if M1_hex = hex M then Some (K, digest L [A_bytes, M, K]) else None))))"

section \<open>The client\<close>

definition srp_wf :: "srp_session \<Rightarrow> bool" where
  "srp_wf s \<longleftrightarrow> 0 \<le> srp_a s \<and> srp_A s = srp_g ^ nat (srp_a s) mod srp_N"

lemma new_srp_session_wf:
  "new_srp_session u p t = (Inr s, t') \<Longrightarrow>
     srp_wf s \<and> srp_username s = u \<and> srp_password s = p \<and> srp_K s = None \<and> srp_HAMK s = None"
  by (auto simp: new_srp_session_def Let_def bindE_eq_Inr srp_wf_def pow_mod_eq)

lemma set_password_wf [simp]: "srp_wf (set_password p s) \<longleftrightarrow> srp_wf s"
  by (simp add: srp_wf_def set_password_def)

lemma srp_pad_A: "srp_wf s \<Longrightarrow> srp_pad (srp_A s) = Inr (be_bytes N_BYTES (nat (srp_A s)))"
  by (simp add: srp_wf_def N_BYTES_def)

lemma srp_pad_pow_mod [simp]:
  "srp_pad (pow_mod b e srp_N) = Inr (be_bytes N_BYTES (nat (pow_mod b e srp_N)))"
  by (simp add: pow_mod_eq N_BYTES_def)

lemma srp_minimal_A: "srp_wf s \<Longrightarrow> \<exists>b. srp_minimal (srp_A s) = Inr b \<and> from_bytes_big b = srp_A s"
  by (intro srp_minimal_total) (simp add: srp_wf_def)

text \<open>The client's key and proof, once the challenge is known to be acceptable.\<close>

definition client_key :: "crypto \<Rightarrow> srp_session \<Rightarrow> int \<Rightarrow> int \<Rightarrow> int \<Rightarrow> int \<Rightarrow> bytes" where
  "client_key L s k x u B =
     srp_secret_key L ((B - k * (srp_g ^ nat x mod srp_N)) ^ nat (srp_a s + u * x) mod srp_N)"

lemma process_challenge_ok:
  assumes "srp_wf s" and "length B_bytes = N_BYTES" and "from_bytes_big B_bytes mod srp_N \<noteq> 0"
    and "srp_u L (srp_A s) B_bytes \<noteq> 0"
    and "srp_x L (srp_username s) (srp_password s) salt = Inr x" and "srp_k L = Inr k"
    and "utf8_encode (srp_username s) = Inr I" and "srp_minimal (srp_A s) = Inr A_bytes"
  defines "K \<equiv> client_key L s k x (srp_u L (srp_A s) B_bytes) (from_bytes_big B_bytes)"
  shows "process_challenge L (PHex salt) (PHex B_bytes) s =
    (Inr (hex (srp_proof L I salt A_bytes B_bytes K)),
     s\<lparr>srp_K := Some K, srp_HAMK := Some (digest L [A_bytes, srp_proof L I salt A_bytes B_bytes K, K])\<rparr>)"
proof -
  have B: "srp_pad (from_bytes_big B_bytes) = Inr B_bytes"
    using to_from_bytes_big [OF assms(2)] by (simp add: srp_pad_def)
  obtain up where up: "utf8_encode (srp_username s @ lit '':'' @ srp_password s) = Inr up"
    and x: "x = from_bytes_big (digest L [salt, digest L [up]])"
    using assms(5) by (auto simp: srp_x_def bindR_Inr_iff)
  show ?thesis
    using assms(3,4,6-8) B up srp_pad_A [OF assms(1)]
    by (simp add: process_challenge_def Let_def K_def client_key_def srp_secret_key_def srp_proof_def
        srp_u_def pow_mod_eq N_BYTES_def flip: x)
qed

lemma server_accept_client:
  fixes salt :: bytes
  assumes wf: "srp_wf s" and v: "v = srp_g ^ nat x mod srp_N" and "srp_k L = Inr k"
    and B: "from_bytes_big B_bytes = (k * v + srp_g ^ nat b mod srp_N) mod srp_N"
    and nn: "0 \<le> x" "0 \<le> u" and u: "u = srp_u L (srp_A s) B_bytes"
    and I: "utf8_encode I' = Inr I" and A: "from_bytes_big A_bytes = srp_A s"
  defines "K \<equiv> client_key L s k x u (from_bytes_big B_bytes)"
  defines "M \<equiv> srp_proof L I salt A_bytes B_bytes K"
  shows "server_accept L I' salt v b B_bytes (hex A_bytes) (hex M) =
    Inr (Some (K, digest L [A_bytes, M, K]))"
proof -
  have e: "nat (srp_a s + u * x) = nat (srp_a s) + nat u * nat x"
    using nn wf by (simp add: srp_wf_def nat_add_distrib nat_mult_distrib)
  have A': "srp_A s mod srp_N = srp_A s" "srp_A s = srp_g ^ nat (srp_a s) mod srp_N" "srp_A s \<noteq> 0"
    using wf g_power_nonzero by (auto simp: srp_wf_def)
  have K: "K = srp_secret_key L ((srp_A s * (v ^ nat u mod srp_N)) ^ nat b mod srp_N)"
    unfolding K_def client_key_def B v e A'(2) by (simp only: srp_secret_agrees)
  show ?thesis
    using I A A'(1,3) by (simp add: server_accept_def Let_def M_def u [symmetric] K [symmetric])
qed

lemma process_challenge_error:
  assumes "srp_wf s" and "process_challenge L salt B s = (Inl e, s')"
  shows "s' = s"
  using assms srp_minimal_A [OF assms(1)] srp_k_eq [of L]
  by (auto simp: process_challenge_def Let_def bindE_eq_Inl utf8_encode_append bindR_Inr_iff)

lemma verify_server_iff:
  "verify_server s m \<longleftrightarrow> (\<exists>c. srp_HAMK s = Some c \<and> fromhex_val m = Inr c)"
  by (auto simp: verify_server_def split: option.splits sum.splits)

lemma new_srp_session_zero:
  "new_srp_session u p (\<lambda>_. 0) = (Inr \<lparr>srp_username = u, srp_password = p, srp_a = 0, srp_A = 1,
     srp_K = None, srp_HAMK = None\<rparr>, \<lambda>_. 0)"
proof -
  have "le_nat (zeros n) = 0" for n by (induction n) (simp_all add: zeros_def)
  moreover have "1 mod srp_N = 1" by (simp add: srp_N_def)
  ultimately show ?thesis
    by (simp add: new_srp_session_def urandom_zero from_bytes_big_def pow_mod_eq be_nat_def)
qed

lemma srp_exchange:
  assumes s: "srp_wf s" "srp_username s = I" "srp_password s = p"
    and "server_verifier L I p salt = Inr v" and "server_challenge L v b = Inr B_bytes"
    and "from_bytes_big B_bytes mod srp_N \<noteq> 0" and "srp_u L (srp_A s) B_bytes \<noteq> 0"
  shows "\<exists>M1 s' Ah K M2. process_challenge L (PHex salt) (PHex B_bytes) s = (Inr M1, s') \<and>
    A_hex s = Inr Ah \<and> server_accept L I salt v b B_bytes Ah M1 = Inr (Some (K, M2)) \<and>
    session_key_hex s' = Inr (hex K) \<and> (\<forall>m. verify_server s' m \<longleftrightarrow> fromhex_val m = Inr M2)"
proof -
  obtain x where x: "srp_x L I p salt = Inr x" "v = srp_g ^ nat x mod srp_N" "0 \<le> x"
    using assms(4) by (auto simp: server_verifier_def srp_x_def bindR_Inr_iff)
  obtain k where k: "srp_k L = Inr k" using srp_k_eq by blast
  have B: "from_bytes_big B_bytes = (k * v + srp_g ^ nat b mod srp_N) mod srp_N" "length B_bytes = N_BYTES"
    using assms(5) from_to_bytes_big [of N_BYTES _ B_bytes] to_bytes_big_length [of N_BYTES _ B_bytes]
    by (auto simp: server_challenge_def k bindR_Inr_iff srp_pad_def)
  obtain Ib where Ib: "utf8_encode I = Inr Ib"
    using x(1) by (auto simp: srp_x_def bindR_Inr_iff utf8_encode_append)
  obtain Ab where Ab: "srp_minimal (srp_A s) = Inr Ab" "from_bytes_big Ab = srp_A s"
    using srp_minimal_A [OF s(1)] by blast
  have "0 \<le> srp_u L (srp_A s) B_bytes" by (simp add: srp_u_def)
  note acc = server_accept_client [OF s(1) x(2) k B(1) x(3) this refl Ib Ab(2), of salt]
  moreover note process_challenge_ok [OF s(1) B(2) assms(6,7) _ k _ Ab(1), of salt x Ib]
  ultimately show ?thesis
    using acc x(1) Ib Ab(1) s(2,3) by (simp add: A_hex_def session_key_hex_def verify_server_iff)
qed

section \<open>Properties\<close>

text \<open>
  C8: the SRP client and a conforming server authenticate each other. For a session of
  the user and password behind the server's verifier (a password set late included),
  and a challenge the client does not have to refuse, \<open>process_challenge\<close> succeeds, the
  server accepts the client's proof, both hold the same session key, and the client
  accepts the server's proof and no other.
\<close>

theorem srp_mutual_authentication:
  assumes "new_srp_session I p0 t = (Inr s0, t')" and "s = set_password p s0"
    and "server_verifier L I p salt = Inr v" and "server_challenge L v b = Inr B_bytes"
    and "from_bytes_big B_bytes mod srp_N \<noteq> 0" and "srp_u L (srp_A s) B_bytes \<noteq> 0"
  shows "\<exists>M1 s' Ah K M2. process_challenge L (PHex salt) (PHex B_bytes) s = (Inr M1, s') \<and>
    A_hex s = Inr Ah \<and> server_accept L I salt v b B_bytes Ah M1 = Inr (Some (K, M2)) \<and>
    session_key_hex s' = Inr (hex K) \<and> (\<forall>m. verify_server s' m \<longleftrightarrow> fromhex_val m = Inr M2)"
proof -
  have "srp_wf s" "srp_username s = I" "srp_password s = p"
    using new_srp_session_wf [OF assms(1)] assms(2) by (auto simp: set_password_def srp_wf_def)
  from srp_exchange [OF this assms(3-6)] show ?thesis .
qed

text \<open>A hash function that makes the numbers of the protocol small.\<close>

definition one_hash_lib :: crypto where
  "one_hash_lib = example_lib\<lparr>sha256 := \<lambda>_. be_bytes 32 1\<rparr>"

lemma one_hash [simp]: "from_bytes_big (digest one_hash_lib ps) = 1"
  by (simp add: digest_def one_hash_lib_def from_bytes_big_def be_nat_be_bytes)

lemma example_server:
  "server_verifier one_hash_lib (lit ''u'') (lit ''p'') [7] = Inr 5" "server_challenge one_hash_lib 5 1 = Inr (be_bytes 384 10)"
  "from_bytes_big (be_bytes 384 10) mod srp_N \<noteq> 0" "srp_u one_hash_lib A (be_bytes 384 10) \<noteq> 0"
proof -
  have n: "1 mod srp_N = 1" "5 mod srp_N = 5" "10 mod srp_N = 10" by (simp_all add: srp_N_def)
  have k: "srp_k one_hash_lib = Inr 1"
    using srp_k_eq [of one_hash_lib] by (auto simp: srp_k_def bindR_Inr_iff)
  show "server_verifier one_hash_lib (lit ''u'') (lit ''p'') [7] = Inr 5"
    by (simp add: server_verifier_def srp_x_def lit_def utf8_char_def srp_g_def n)
  show "server_challenge one_hash_lib 5 1 = Inr (be_bytes 384 10)"
    using srp_pad_mod [of 10] by (simp add: server_challenge_def k srp_g_def n)
  show "from_bytes_big (be_bytes 384 10) mod srp_N \<noteq> 0"
    by (simp add: from_bytes_big_def be_nat_be_bytes n)
  show "srp_u one_hash_lib A (be_bytes 384 10) \<noteq> 0" by (simp add: srp_u_def)
qed

theorem srp_mutual_authentication_witness:
  "\<exists>M1 s' Ah K M2. process_challenge one_hash_lib (PHex [7]) (PHex (be_bytes 384 10))
      \<lparr>srp_username = lit ''u'', srp_password = lit ''p'', srp_a = 0, srp_A = 1, srp_K = None,
       srp_HAMK = None\<rparr> = (Inr M1, s') \<and>
    server_accept one_hash_lib (lit ''u'') [7] 5 1 (be_bytes 384 10) Ah M1 = Inr (Some (K, M2)) \<and>
    verify_server s' (PHex M2)"
proof -
  let ?s = "\<lparr>srp_username = lit ''u'', srp_password = [], srp_a = 0, srp_A = 1, srp_K = None,
       srp_HAMK = None\<rparr>"
  have "new_srp_session (lit ''u'') [] (\<lambda>_. 0) = (Inr ?s, \<lambda>_. 0)"
    by (rule new_srp_session_zero)
  moreover note example_server
  ultimately obtain M1 s' Ah K M2 where
    "process_challenge one_hash_lib (PHex [7]) (PHex (be_bytes 384 10)) (set_password (lit ''p'') ?s) = (Inr M1, s')"
    "server_accept one_hash_lib (lit ''u'') [7] 5 1 (be_bytes 384 10) Ah M1 = Inr (Some (K, M2))"
    "\<forall>m. verify_server s' m \<longleftrightarrow> fromhex_val m = Inr M2"
    using srp_mutual_authentication [of "lit ''u''" "[]" "\<lambda>_. 0" ?s "\<lambda>_. 0"
        "set_password (lit ''p'') ?s" "lit ''p''" one_hash_lib "[7]" 5 1 "be_bytes 384 10"]
    by (auto simp: set_password_def)
  then show ?thesis
    by (intro exI [of _ M1] exI [of _ s'] exI [of _ Ah] exI [of _ K] exI [of _ M2])
      (simp add: set_password_def)
qed

text \<open>
  A refused challenge leaves no key behind. On a session that has not completed,
  \<open>process_challenge\<close> refuses every \<open>B\<close> that is a multiple of the modulus, and whatever
  it raises (malformed hex, a \<open>B\<close> of more than 384 bytes, \<open>u == 0\<close>), the session is as
  before: \<open>verify_server\<close> is false for every proof and \<open>session_key_hex\<close> raises.
\<close>

lemma srp_refusal_is_clean:
  assumes "new_srp_session I p t = (Inr s, t')"
  shows "(from_bytes_big B_bytes mod srp_N = 0 \<longrightarrow> process_challenge L salt (PHex B_bytes) s =
      (Inl (ValueError ''SRP challenge rejected: B is invalid''), s)) \<and>
    (\<forall>e s'. process_challenge L salt B s = (Inl e, s') \<longrightarrow> s' = s) \<and>
    \<not> verify_server s m \<and> session_key_hex s = Inl (ValueError ''SRP session not completed'')"
  using new_srp_session_wf [OF assms] process_challenge_error [of s L salt B]
  by (auto simp: verify_server_def session_key_hex_def)
    (simp add: process_challenge_def Let_def bindE_def)

end
