(* ===== verification/Kdf.thy ===== *)
theory Kdf
  imports Constants Crypto_Lib
begin

text \<open>
  core/kdf.py and core/password.py: HKDF-SHA256 with fixed domain-separation strings,
  Argon2id hashing and key derivation. Lengths are Python integers, so that the checks
  for non-positive lengths are the code's.
\<close>

section \<open>Domain separation\<close>

definition INFO_PQXDH_SK :: bytes where "INFO_PQXDH_SK = blit ''pqxdh-v1-shared-secret''"
definition INFO_ROOT_KDF :: bytes where "INFO_ROOT_KDF = blit ''dr-v1-root-kdf''"
definition INFO_CHAIN_KDF :: bytes where "INFO_CHAIN_KDF = blit ''dr-v1-chain-kdf''"
definition INFO_HEADER_KEY :: bytes where "INFO_HEADER_KEY = blit ''dr-v1-header-key''"
definition INFO_LOCAL_KEY_ENC :: bytes where "INFO_LOCAL_KEY_ENC = blit ''local-v1-key-encryption''"
definition INFO_LOCAL_KEY_MASTER :: bytes where "INFO_LOCAL_KEY_MASTER = blit ''local-v1-master-key''"
definition INFO_SRP_AUTH :: bytes where "INFO_SRP_AUTH = blit ''srp-v1-auth''"

definition ALL_INFO :: "bytes list" where
  "ALL_INFO = [INFO_PQXDH_SK, INFO_ROOT_KDF, INFO_CHAIN_KDF, INFO_HEADER_KEY,
     INFO_LOCAL_KEY_ENC, INFO_LOCAL_KEY_MASTER, INFO_SRP_AUTH]"

text \<open>The module's import-time assertion, \<open>len(_ALL_INFO) == len(set(_ALL_INFO))\<close>.\<close>

definition kdf_import_check :: "unit res" where
  "kdf_import_check = guardR (length ALL_INFO = length (remdups ALL_INFO)) AssertionError"

lemmas info_defs = INFO_PQXDH_SK_def INFO_ROOT_KDF_def INFO_CHAIN_KDF_def INFO_HEADER_KEY_def
  INFO_LOCAL_KEY_ENC_def INFO_LOCAL_KEY_MASTER_def INFO_SRP_AUTH_def

lemma distinct_ALL_INFO: "distinct ALL_INFO"
  by (simp add: ALL_INFO_def info_defs)

lemma info_nonempty [simp]:
  "INFO_PQXDH_SK \<noteq> []" "INFO_ROOT_KDF \<noteq> []" "INFO_CHAIN_KDF \<noteq> []" "INFO_HEADER_KEY \<noteq> []"
  "INFO_LOCAL_KEY_ENC \<noteq> []" "INFO_LOCAL_KEY_MASTER \<noteq> []" "INFO_SRP_AUTH \<noteq> []"
  by (simp_all add: info_defs)

lemma kdf_import_check_ok: "kdf_import_check = Inr ()"
  using distinct_ALL_INFO by (simp add: kdf_import_check_def distinct_remdups_id)

section \<open>HKDF\<close>

definition hkdf_derive :: "crypto \<Rightarrow> bytes \<Rightarrow> bytes \<Rightarrow> bytes \<Rightarrow> int \<Rightarrow> bytes res" where
  "hkdf_derive L ikm salt info n =
     (if ikm = [] then Inl (ValueError ''ikm must not be empty'')
      else if salt = [] then Inl (ValueError ''salt must not be empty'')
      else if n \<le> 0 then Inl (ValueError ''length must be positive'')
      else if info = [] then Inl (ValueError ''info must not be empty'')
      else hkdf_sha256 L (nat n) salt info ikm)"

text \<open>The loop of \<open>hkdf_derive_many\<close> that cuts the output into keys, from \<open>offset\<close> on.\<close>

fun split_keys :: "bytes \<Rightarrow> nat \<Rightarrow> int list \<Rightarrow> bytes list" where
  "split_keys raw offset [] = []"
| "split_keys raw offset (l # ls) =
     pyslice raw offset (offset + nat l) # split_keys raw (offset + nat l) ls"

definition hkdf_derive_many ::
    "crypto \<Rightarrow> bytes \<Rightarrow> bytes \<Rightarrow> bytes \<Rightarrow> int list \<Rightarrow> bytes list res" where
  "hkdf_derive_many L ikm salt info lengths =
     (if lengths = [] then Inl (ValueError ''lengths must not be empty'')
      else if (\<exists>l\<in>set lengths. l \<le> 0) then Inl (ValueError ''all lengths must be positive'')
      else bindR (hkdf_derive L ikm salt info (sum_list lengths)) (\<lambda>raw.
        Inr (split_keys raw 0 lengths)))"

section \<open>Argon2id\<close>

definition argon2id_hash :: "crypto \<Rightarrow> pystr \<Rightarrow> (entropy, pystr) eff" where
  "argon2id_hash L password = hasher_hash L password"

text \<open>The exception classes of the argon2 package that \<open>argon2id_verify\<close> names.\<close>

definition is_argon2_failure :: "exn \<Rightarrow> bool" where
  "is_argon2_failure e \<longleftrightarrow> e \<in> {LibraryError ''VerifyMismatchError'',
     LibraryError ''VerificationError'', LibraryError ''InvalidHashError''}"

definition argon2id_verify :: "crypto \<Rightarrow> pystr \<Rightarrow> pystr \<Rightarrow> bool res" where
  "argon2id_verify L stored_hash password =
     (case hasher_verify L stored_hash password of
        Inl e \<Rightarrow> if is_argon2_failure e then Inr False else Inl e
      | Inr b \<Rightarrow> Inr b)"

definition argon2id_derive_key ::
    "crypto \<Rightarrow> pystr \<Rightarrow> bytes option \<Rightarrow> (entropy, bytes \<times> bytes) eff" where
  "argon2id_derive_key L passphrase salt =
     bindE (case salt of None \<Rightarrow> drawE (urandom ARGON2_SALT_LEN) | Some s \<Rightarrow> returnE s) (\<lambda>salt.
     bindE (guardE (length salt = ARGON2_SALT_LEN) (ValueError ''salt must be 32 bytes'')) (\<lambda>_.
     bindE (liftE (utf8_encode passphrase)) (\<lambda>secret.
     bindE (liftE (argon2id_raw L secret salt ARGON2_TIME_COST ARGON2_MEMORY_COST
              ARGON2_PARALLELISM ARGON2_HASH_LEN)) (\<lambda>key.
     returnE (key, salt)))))"

definition derive_master_components ::
    "crypto \<Rightarrow> pystr \<Rightarrow> bytes option \<Rightarrow> (entropy, bytes \<times> bytes \<times> bytes) eff" where
  "derive_master_components L password salt =
     bindE (argon2id_derive_key L password salt) (\<lambda>(master_key, used_salt).
     bindE (liftE (hkdf_derive L master_key used_salt INFO_SRP_AUTH 32)) (\<lambda>srp_pass.
     bindE (liftE (hkdf_derive L master_key used_salt INFO_LOCAL_KEY_ENC 32)) (\<lambda>keystore_key.
     returnE (srp_pass, keystore_key, used_salt))))"

section \<open>Lemmas\<close>

lemma hkdf_derive_length:
  "hkdf_correct L \<Longrightarrow> hkdf_derive L ikm salt info n = Inr b \<Longrightarrow> int (length b) = n"
  by (auto simp: hkdf_derive_def hkdf_correct_def split: if_splits)

lemma hkdf_derive_total:
  assumes "hkdf_correct L" and "ikm \<noteq> []" "salt \<noteq> []" "info \<noteq> []" and "0 < n" "n \<le> 8160"
  shows "\<exists>b. hkdf_derive L ikm salt info n = Inr b"
proof -
  have "nat n \<le> 8160" using assms(6) by simp
  with assms show ?thesis by (auto simp: hkdf_derive_def hkdf_correct_def)
qed

lemma hkdf_derive_Inr_iff:
  assumes "hkdf_correct L"
  shows "(\<exists>b. hkdf_derive L ikm salt info n = Inr b) \<longleftrightarrow>
    ikm \<noteq> [] \<and> salt \<noteq> [] \<and> info \<noteq> [] \<and> 0 < n \<and> n \<le> 8160"
  using assms unfolding hkdf_derive_def hkdf_correct_def by (auto split: if_splits)

lemma split_keys_concat:
  assumes "\<forall>l\<in>set ls. 0 < l" and "int offset + sum_list ls = int (length raw)"
  shows "concat (split_keys raw offset ls) = drop offset raw \<and>
    map (\<lambda>k. int (length k)) (split_keys raw offset ls) = ls"
  using assms
proof (induction ls arbitrary: offset)
  case (Cons l ls)
  have nn: "0 \<le> sum_list ls" using Cons.prems(1) by (intro sum_list_nonneg) auto
  have l: "0 < l" using Cons.prems(1) by simp
  with nn Cons.prems(2) have le: "offset + nat l \<le> length raw" by simp
  have *: "int (offset + nat l) + sum_list ls = int (length raw)" using l Cons.prems(2) by simp
  have "drop offset raw = pyslice raw offset (offset + nat l) @ drop (offset + nat l) raw"
    by (simp add: pyslice_def) (metis append_take_drop_id drop_drop add.commute)
  with Cons.IH [OF _ *] Cons.prems(1) l le show ?case by (simp add: length_pyslice)
qed simp

lemma argon2id_derive_key_salt:
  "argon2id_derive_key L p salt t = (Inr (k, s), t') \<Longrightarrow>
     length s = ARGON2_SALT_LEN \<and> argon2id_derive_key L p (Some s) u = (Inr (k, s), u)"
  by (auto simp: argon2id_derive_key_def bindE_eq_Inr)

lemma argon2id_derive_key_nonempty:
  "argon2_correct L \<Longrightarrow> argon2id_derive_key L p salt t = (Inr (k, s), t') \<Longrightarrow> length k = 32"
  by (auto simp: argon2id_derive_key_def bindE_eq_Inr argon2_correct_def ARGON2_HASH_LEN_def)

lemma master_components_again:
  assumes "derive_master_components L password salt t = (Inr (srp_pass, keystore_key, used), t')"
  shows "length used = ARGON2_SALT_LEN \<and>
    derive_master_components L password (Some used) u = (Inr (srp_pass, keystore_key, used), u)"
proof -
  obtain master t1 where m: "argon2id_derive_key L password salt t = (Inr (master, used), t1)"
    and r: "hkdf_derive L master used INFO_SRP_AUTH 32 = Inr srp_pass"
      "hkdf_derive L master used INFO_LOCAL_KEY_ENC 32 = Inr keystore_key"
    using assms by (auto simp: derive_master_components_def bindE_eq_Inr split: prod.splits)
  then show ?thesis using argon2id_derive_key_salt [OF m, of u] by (simp add: derive_master_components_def)
qed

lemma master_components_key_length:
  "hkdf_correct L \<Longrightarrow> derive_master_components L password salt t = (Inr (srp_pass, keystore_key, used), t') \<Longrightarrow>
     length keystore_key = 32 \<and> (\<forall>s. salt = Some s \<longrightarrow> used = s)"
  by (auto simp: derive_master_components_def argon2id_derive_key_def bindE_eq_Inr dest: hkdf_derive_length
      split: prod.splits option.splits)

section \<open>Properties\<close>

text \<open>
  \<open>hkdf_derive_many\<close> succeeds exactly on non-empty input material, salt and info and
  a non-empty list of positive lengths of at most 8160 bytes in total, and then the
  keys it returns have exactly the requested lengths and are, in order, the pieces of
  the one \<open>hkdf_derive\<close> output of the total length: nothing is lost or overlaps.
\<close>

lemma hkdf_derive_many_splits:
  assumes "hkdf_correct L"
  shows "((\<exists>keys. hkdf_derive_many L ikm salt info lengths = Inr keys) \<longleftrightarrow>
      ikm \<noteq> [] \<and> salt \<noteq> [] \<and> info \<noteq> [] \<and> lengths \<noteq> [] \<and> (\<forall>l\<in>set lengths. 0 < l) \<and>
      sum_list lengths \<le> 8160) \<and>
    (\<forall>keys. hkdf_derive_many L ikm salt info lengths = Inr keys \<longrightarrow>
      map (\<lambda>k. int (length k)) keys = lengths \<and>
      hkdf_derive L ikm salt info (sum_list lengths) = Inr (concat keys))"
proof (intro conjI allI impI)
  have pos: "0 < sum_list lengths" if "lengths \<noteq> []" "\<forall>l\<in>set lengths. 0 < l"
  proof (cases lengths)
    case (Cons l ls)
    with that(2) have "0 < l" "0 \<le> sum_list ls"
      by (auto intro!: sum_list_nonneg simp: less_imp_le)
    with Cons show ?thesis by simp
  qed (use that in simp)
  have "(\<exists>keys. hkdf_derive_many L ikm salt info lengths = Inr keys) \<longleftrightarrow>
      lengths \<noteq> [] \<and> (\<forall>l\<in>set lengths. 0 < l) \<and>
      (\<exists>raw. hkdf_derive L ikm salt info (sum_list lengths) = Inr raw)"
    by (auto simp: hkdf_derive_many_def bindR_Inr_iff not_le) (meson not_le)
  with pos show "(\<exists>keys. hkdf_derive_many L ikm salt info lengths = Inr keys) \<longleftrightarrow>
      ikm \<noteq> [] \<and> salt \<noteq> [] \<and> info \<noteq> [] \<and> lengths \<noteq> [] \<and> (\<forall>l\<in>set lengths. 0 < l) \<and>
      sum_list lengths \<le> 8160"
    unfolding hkdf_derive_Inr_iff [OF assms] by blast
  fix keys assume *: "hkdf_derive_many L ikm salt info lengths = Inr keys"
  then obtain raw where raw: "hkdf_derive L ikm salt info (sum_list lengths) = Inr raw"
    and keys: "keys = split_keys raw 0 lengths" and "\<forall>l\<in>set lengths. 0 < l"
    by (auto simp: hkdf_derive_many_def bindR_Inr_iff not_le split: if_splits)
  then have "concat keys = raw \<and> map (\<lambda>k. int (length k)) keys = lengths"
    using split_keys_concat [of lengths 0 raw] hkdf_derive_length [OF assms raw] by simp
  with raw show "map (\<lambda>k. int (length k)) keys = lengths"
    and "hkdf_derive L ikm salt info (sum_list lengths) = Inr (concat keys)" by simp_all
qed

text \<open>
  Logging in again derives what registration derived. When
  \<open>derive_master_components\<close> succeeds with a fresh salt or a given one, the salt it
  returns is 32 bytes, and calling it with that salt, at any later time, returns the
  same SRP password, keystore key and salt and draws no randomness; the seven info
  strings that separate the derivations are pairwise distinct, so the module's
  import-time assertion passes.
\<close>

lemma master_components_reproducible:
  assumes "derive_master_components L password salt t = (Inr (srp_pass, keystore_key, used), t')"
  shows "length used = ARGON2_SALT_LEN \<and>
    derive_master_components L password (Some used) u = (Inr (srp_pass, keystore_key, used), u) \<and>
    kdf_import_check = Inr () \<and> INFO_SRP_AUTH \<noteq> INFO_LOCAL_KEY_ENC"
proof -
  have "INFO_SRP_AUTH \<noteq> INFO_LOCAL_KEY_ENC" by (simp add: info_defs)
  with master_components_again [OF assms, of u] kdf_import_check_ok show ?thesis by simp
qed

end
