(* ===== verification/Header_Counter.thy ===== *)
theory Header_Counter
  imports Constants Py_Text
begin

text \<open>
  core/header_counter.py: the per-session counter behind header nonces. The object is
  the record \<open>header_counter\<close>; \<open>HeaderCounter(...)\<close> is \<open>new_header_counter\<close>;
  \<open>next_nonce\<close> is an effect on the record. The interface \<open>nonce_source\<close> is what the
  header encryption layer needs of it: no nonce comes twice before a reset.
\<close>

section \<open>The counter\<close>

record header_counter =
  hc_session_id :: pystr
  hc_counter :: int

definition new_header_counter :: "pystr \<Rightarrow> int \<Rightarrow> header_counter res" where
  "new_header_counter session_id initial =
     (if initial < 0 then Inl (ValueError ''Counter must start at 0 or above'')
      else if initial > MAX_HEADER_MESSAGES then Inl HeaderCounterError
      else Inr \<lparr>hc_session_id = session_id, hc_counter = initial\<rparr>)"

definition counter_to_nonce :: "int \<Rightarrow> bytes res" where
  "counter_to_nonce counter =
     bindR (pack_Q counter) (\<lambda>b. Inr (b @ zeros (NONCE_LEN - 8)))"

definition next_nonce :: "(header_counter, bytes) eff" where
  "next_nonce hc =
     (let next_val = hc_counter hc + 1 in
      if next_val > MAX_HEADER_MESSAGES then (Inl HeaderCounterError, hc)
      else (let hc' = hc\<lparr>hc_counter := next_val\<rparr> in (counter_to_nonce (hc_counter hc'), hc')))"

definition reset_counter :: "header_counter \<Rightarrow> header_counter" where
  "reset_counter hc = hc\<lparr>hc_counter := 0\<rparr>"

definition current :: "header_counter \<Rightarrow> int" where
  "current hc = hc_counter hc"

section \<open>Nonce sources\<close>

text \<open>
  Drawing \<open>n\<close> nonces in a row, stopping at the first error; the state after it.
\<close>

fun draw :: "nat \<Rightarrow> ('s, 'n) eff \<Rightarrow> 's \<Rightarrow> 'n list \<times> 's" where
  "draw 0 step s = ([], s)"
| "draw (Suc n) step s = (case step s of
      (Inl e, t) \<Rightarrow> ([], t)
    | (Inr x, t) \<Rightarrow> (let (xs, u) = draw n step t in (x # xs, u)))"

locale nonce_source =
  fixes step :: "('s, 'n) eff"
    and inv :: "'s \<Rightarrow> bool"
    and mark :: "'s \<Rightarrow> int"
    and nonce_of :: "int \<Rightarrow> 'n"
    and limit :: int
  assumes step_ok: "inv s \<Longrightarrow> mark s < limit \<Longrightarrow>
      \<exists>t. step s = (Inr (nonce_of (mark s + 1)), t) \<and> inv t \<and> mark t = mark s + 1"
    and step_full: "inv s \<Longrightarrow> \<not> mark s < limit \<Longrightarrow> \<exists>e. step s = (Inl e, s)"
    and nonce_inj: "i \<le> limit \<Longrightarrow> j \<le> limit \<Longrightarrow> 0 < i \<Longrightarrow> 0 < j \<Longrightarrow> nonce_of i = nonce_of j \<Longrightarrow> i = j"
    and mark_nonneg: "inv s \<Longrightarrow> 0 \<le> mark s"
    and mark_le: "inv s \<Longrightarrow> mark s \<le> limit"
begin

lemma draw_marks:
  "inv s \<Longrightarrow> draw n step s = (xs, t) \<Longrightarrow>
     xs = map (\<lambda>i. nonce_of (mark s + 1 + int i)) [0..<length xs] \<and>
     mark t = mark s + int (length xs) \<and> inv t"
proof (induction n arbitrary: s xs t)
  case (Suc n)
  show ?case
  proof (cases "mark s < limit")
    case True
    with step_ok [OF Suc.prems(1)] obtain u where
      u: "step s = (Inr (nonce_of (mark s + 1)), u)" "inv u" "mark u = mark s + 1" by blast
    with Suc.prems obtain ys where ys: "draw n step u = (ys, t)" "xs = nonce_of (mark s + 1) # ys"
      by (auto split: prod.splits)
    note IH = Suc.IH [OF u(2) ys(1)]
    have "ys = map (\<lambda>i. nonce_of (mark s + 1 + int (Suc i))) [0..<length ys]"
      using IH u(3) by (simp add: algebra_simps)
    then have "xs = map (\<lambda>i. nonce_of (mark s + 1 + int i)) (0 # map Suc [0..<length ys])"
      by (simp add: ys(2) comp_def)
    moreover have "0 # map Suc [0..<length ys] = [0..<length xs]"
      by (simp only: ys(2) list.size(4) add_0_right add_Suc_right upt_conv_Cons [OF zero_less_Suc]
          map_Suc_upt)
    ultimately have "xs = map (\<lambda>i. nonce_of (mark s + 1 + int i)) [0..<length xs]" by simp
    with IH u(3) ys(2) show ?thesis by simp
  next
    case False
    with step_full [OF Suc.prems(1)] Suc.prems show ?thesis by auto
  qed
qed simp

lemma draw_distinct:
  assumes "inv s" and "draw n step s = (xs, t)"
  shows "distinct xs"
proof -
  from draw_marks [OF assms] have xs: "xs = map (\<lambda>i. nonce_of (mark s + 1 + int i)) [0..<length xs]"
    and t: "mark t = mark s + int (length xs)" "inv t" by blast+
  have "inj_on (\<lambda>i. nonce_of (mark s + 1 + int i)) {0..<length xs}"
    using mark_le [OF t(2)] mark_nonneg [OF assms(1)] t(1)
    by (auto intro!: inj_onI dest!: nonce_inj [rotated 4])
  then show ?thesis
    by (subst xs) (simp only: distinct_map set_upt distinct_upt simp_thms)
qed

lemma draw_all:
  "inv s \<Longrightarrow> mark s + int n \<le> limit \<Longrightarrow> length (fst (draw n step s)) = n"
proof (induction n arbitrary: s)
  case (Suc n)
  then obtain u where "step s = (Inr (nonce_of (mark s + 1)), u)" "inv u" "mark u = mark s + 1"
    using step_ok [of s] by force
  with Suc.IH [of u] Suc.prems show ?case by (auto split: prod.splits)
qed simp

text \<open>Nonces drawn after any later point differ from those drawn before it.\<close>

lemma draw_disjoint:
  assumes "inv s" and "draw m step s = (xs, t)" and "draw n step t = (ys, u)"
  shows "set xs \<inter> set ys = {}"
proof -
  from draw_marks [OF assms(1,2)] have xs: "xs = map (\<lambda>i. nonce_of (mark s + 1 + int i)) [0..<length xs]"
    and t: "mark t = mark s + int (length xs)" "inv t" by blast+
  from draw_marks [OF t(2) assms(3)] have ys: "ys = map (\<lambda>i. nonce_of (mark t + 1 + int i)) [0..<length ys]"
    and u: "mark u = mark t + int (length ys)" "inv u" by blast+
  have ne: "nonce_of (mark s + 1 + int i) \<noteq> nonce_of (mark t + 1 + int j)"
    if "i < length xs" "j < length ys" for i j
    using nonce_inj [of "mark s + 1 + int i" "mark t + 1 + int j"] that t(1) u(1)
      mark_le [OF u(2)] mark_nonneg [OF assms(1)] by auto
  show ?thesis by (subst xs, subst ys) (use ne in auto)
qed

end

section \<open>The counter is a nonce source\<close>

definition hc_inv :: "header_counter \<Rightarrow> bool" where
  "hc_inv hc \<longleftrightarrow> 0 \<le> hc_counter hc \<and> hc_counter hc \<le> MAX_HEADER_MESSAGES"

definition nonce_bytes :: "int \<Rightarrow> bytes" where
  "nonce_bytes n = le_bytes 8 (nat n) @ zeros 4"

lemma counter_to_nonce_Inr:
  "0 \<le> n \<Longrightarrow> n \<le> MAX_HEADER_MESSAGES \<Longrightarrow> counter_to_nonce n = Inr (nonce_bytes n)"
  by (simp add: counter_to_nonce_def pack_le_def nonce_bytes_def MAX_HEADER_MESSAGES_def NONCE_LEN_def)

lemma nonce_bytes_inj:
  assumes "nonce_bytes m = nonce_bytes n" and "0 \<le> m" "m \<le> MAX_HEADER_MESSAGES"
    and "0 \<le> n" "n \<le> MAX_HEADER_MESSAGES"
  shows "m = n"
proof -
  have "nat m = nat n"
    using assms by (intro le_bytes_inj [of _ 8])
      (auto simp: nonce_bytes_def MAX_HEADER_MESSAGES_def)
  with assms show ?thesis by simp
qed

lemma next_nonce_simps:
  assumes "hc_inv hc"
  shows "hc_counter hc < MAX_HEADER_MESSAGES \<Longrightarrow>
      next_nonce hc = (Inr (nonce_bytes (hc_counter hc + 1)), hc\<lparr>hc_counter := hc_counter hc + 1\<rparr>)"
    and "\<not> hc_counter hc < MAX_HEADER_MESSAGES \<Longrightarrow> next_nonce hc = (Inl HeaderCounterError, hc)"
  using assms by (auto simp: next_nonce_def Let_def hc_inv_def counter_to_nonce_Inr)

interpretation hc: nonce_source next_nonce hc_inv hc_counter nonce_bytes MAX_HEADER_MESSAGES
proof
  fix s assume "hc_inv s" "hc_counter s < MAX_HEADER_MESSAGES"
  then show "\<exists>t. next_nonce s = (Inr (nonce_bytes (hc_counter s + 1)), t) \<and> hc_inv t \<and>
      hc_counter t = hc_counter s + 1"
    by (simp add: next_nonce_simps) (simp add: hc_inv_def)
next
  fix s assume "hc_inv s" "\<not> hc_counter s < MAX_HEADER_MESSAGES"
  then show "\<exists>e. next_nonce s = (Inl e, s)" by (simp add: next_nonce_simps)
qed (auto simp: hc_inv_def intro: nonce_bytes_inj)

lemma new_header_counter_inv:
  "new_header_counter sid n = Inr hc \<Longrightarrow> hc_inv hc \<and> hc_counter hc = n"
  by (auto simp: new_header_counter_def hc_inv_def split: if_splits)

lemma length_nonce_bytes [simp]: "length (nonce_bytes n) = 12"
  by (simp add: nonce_bytes_def)

lemma next_nonce_length: "next_nonce hc = (Inr n, hc') \<Longrightarrow> length n = 12"
  by (auto simp: next_nonce_def Let_def counter_to_nonce_def bindR_Inr_iff NONCE_LEN_def
      dest: pack_le_length split: if_splits)

text \<open>
  A counter restored from a persisted value goes on where the persisted one stopped.
\<close>

lemma restored_counter:
  assumes "hc_inv hc"
  shows "new_header_counter (hc_session_id hc) (current hc) = Inr hc"
  using assms by (simp add: new_header_counter_def hc_inv_def current_def)

lemma next_nonce_session: "next_nonce hc = (r, hc') \<Longrightarrow> hc_session_id hc' = hc_session_id hc"
  by (auto simp: next_nonce_def Let_def split: if_splits)

lemma draw_session: "draw n next_nonce hc = (xs, hc') \<Longrightarrow> hc_session_id hc' = hc_session_id hc"
  by (induction n arbitrary: hc xs)
    (auto split: prod.splits sum.splits simp: next_nonce_session)

section \<open>Properties\<close>

text \<open>
  C28: in one header-key epoch no nonce repeats. From any counter that
  \<open>HeaderCounter(session_id, initial)\<close> constructs, \<open>m\<close> calls of \<open>next_nonce\<close>
  return distinct nonces, and after a restart that restores the counter from its
  \<open>current\<close> value, \<open>k\<close> more calls return nonces distinct from all earlier ones.
\<close>

theorem header_nonces_unique:
  assumes "new_header_counter sid initial = Inr hc"
    and "draw m next_nonce hc = (xs, hc1)"
    and "new_header_counter sid (current hc1) = Inr hc2"
    and "draw k next_nonce hc2 = (ys, hc3)"
  shows "distinct (xs @ ys)"
proof -
  have i: "hc_inv hc" using assms(1) by (simp add: new_header_counter_inv)
  have i1: "hc_inv hc1" using hc.draw_marks [OF i assms(2)] by blast
  have "hc_session_id hc1 = sid"
    using assms(1) draw_session [OF assms(2)] by (auto simp: new_header_counter_def split: if_splits)
  with restored_counter [OF i1] assms(3) have "hc2 = hc1" by simp
  with hc.draw_distinct [OF i assms(2)] hc.draw_distinct [OF i1]
    hc.draw_disjoint [OF i assms(2)] assms(4) show ?thesis by simp
qed

theorem header_nonces_unique_witness:
  "distinct ([nonce_bytes 6, nonce_bytes 7] @ [nonce_bytes 8])"
  by (rule header_nonces_unique [where sid = "lit ''s''" and initial = 5 and m = 2 and k = 1
        and hc = "\<lparr>hc_session_id = lit ''s'', hc_counter = 5\<rparr>"
        and ?hc1.0 = "\<lparr>hc_session_id = lit ''s'', hc_counter = 7\<rparr>"
        and ?hc2.0 = "\<lparr>hc_session_id = lit ''s'', hc_counter = 7\<rparr>"
        and ?hc3.0 = "\<lparr>hc_session_id = lit ''s'', hc_counter = 8\<rparr>"])
    (simp_all add: new_header_counter_def next_nonce_def counter_to_nonce_Inr current_def
      MAX_HEADER_MESSAGES_def numeral_2_eq_2)

text \<open>
  C36: the counter respects its rotation bound. From a constructed counter exactly
  \<open>MAX_HEADER_MESSAGES - initial\<close> nonces can be drawn: that many calls all succeed and
  leave the counter at the bound, and a call at the bound raises \<open>HeaderCounterError\<close>
  and changes nothing; \<open>reset\<close> starts again at 0.
\<close>

theorem header_counter_bound:
  assumes "new_header_counter sid initial = Inr hc"
    and "n = nat (MAX_HEADER_MESSAGES - initial)"
  shows "length (fst (draw n next_nonce hc)) = n \<and>
    current (snd (draw n next_nonce hc)) = MAX_HEADER_MESSAGES \<and>
    next_nonce (snd (draw n next_nonce hc)) = (Inl HeaderCounterError, snd (draw n next_nonce hc)) \<and>
    current (reset_counter (snd (draw n next_nonce hc))) = 0"
proof -
  have i: "hc_inv hc" "hc_counter hc = initial" using assms(1) by (simp_all add: new_header_counter_inv)
  obtain xs t where d: "draw n next_nonce hc = (xs, t)" by force
  have l: "length xs = n" using hc.draw_all [OF i(1), of n] i d assms(2) by (auto simp: hc_inv_def)
  with hc.draw_marks [OF i(1) d] i assms(2)
  have "hc_counter t = MAX_HEADER_MESSAGES" "hc_inv t" by (auto simp: hc_inv_def)
  with l d show ?thesis by (simp add: current_def next_nonce_simps reset_counter_def)
qed

theorem header_counter_bound_witness:
  "length (fst (draw 1 next_nonce \<lparr>hc_session_id = [], hc_counter = 2 ^ 32 - 2\<rparr>)) = 1"
  using header_counter_bound [of "[]" "2 ^ 32 - 2" "\<lparr>hc_session_id = [], hc_counter = 2 ^ 32 - 2\<rparr>" 1]
  by (simp add: new_header_counter_def MAX_HEADER_MESSAGES_def)

end
