(* ===== verification/Aead.thy ===== *)
theory Aead
  imports Kdf Header_Counter
begin

text \<open>
  core/aead.py: the message layer, whose nonce is derived from key and index, and the
  header layer, whose nonce comes from the session's counter. Both are sealed boxes.
\<close>

section \<open>Message encryption\<close>

definition derive_nonce :: "crypto \<Rightarrow> bytes \<Rightarrow> int \<Rightarrow> bytes res" where
  "derive_nonce L message_key message_index =
     (if length message_key \<noteq> KEY_LEN then Inl (ValueError ''message_key must be 32 bytes'')
      else if \<not> (0 \<le> message_index \<and> message_index < 2 ^ 64)
      then Inl (ValueError ''message_index must be a uint64'')
      else bindR (pack_Q message_index) (\<lambda>index_bytes.
        hkdf_sha256 L NONCE_LEN index_bytes NONCE_INFO message_key))"

definition aead_encrypt :: "crypto \<Rightarrow> bytes \<Rightarrow> bytes \<Rightarrow> bytes \<Rightarrow> int \<Rightarrow> bytes res" where
  "aead_encrypt L message_key plaintext associated_data message_index =
     bindR (derive_nonce L message_key message_index) (\<lambda>nonce.
     bindR (chacha_encrypt L message_key nonce plaintext associated_data) (\<lambda>ct.
     Inr (nonce @ ct)))"

definition aead_decrypt :: "crypto \<Rightarrow> bytes \<Rightarrow> bytes \<Rightarrow> bytes \<Rightarrow> int \<Rightarrow> bytes res" where
  "aead_decrypt L message_key data associated_data message_index =
     (if length data < MIN_CT_LEN then Inl (ValueError ''Ciphertext too short'')
      else (let wire_nonce = take NONCE_LEN data; ct = drop NONCE_LEN data in
        bindR (derive_nonce L message_key message_index) (\<lambda>expected_nonce.
        bindR (guardR (compare_digest wire_nonce expected_nonce) InvalidTag) (\<lambda>_.
        chacha_decrypt L message_key expected_nonce ct associated_data))))"

section \<open>Header encryption\<close>

definition encrypt_header :: "crypto \<Rightarrow> bytes \<Rightarrow> bytes \<Rightarrow> bytes \<Rightarrow> (header_counter, bytes) eff" where
  "encrypt_header L header_key header_plaintext associated_data =
     bindE next_nonce (\<lambda>nonce.
     bindE (liftE (chacha_encrypt L header_key nonce header_plaintext associated_data)) (\<lambda>ct.
     returnE (nonce @ ct)))"

definition decrypt_header :: "crypto \<Rightarrow> bytes \<Rightarrow> bytes \<Rightarrow> bytes \<Rightarrow> bytes res" where
  "decrypt_header L header_key data associated_data =
     (if length data < MIN_CT_LEN then Inl (ValueError ''Header ciphertext too short'')
      else (let nonce = take NONCE_LEN data; ct = drop NONCE_LEN data in
        chacha_decrypt L header_key nonce ct associated_data))"

section \<open>Lemmas\<close>

lemma derive_nonce_length:
  "hkdf_correct L \<Longrightarrow> derive_nonce L k i = Inr n \<Longrightarrow> length n = 12"
  by (auto simp: derive_nonce_def hkdf_correct_def bindR_Inr_iff NONCE_LEN_def split: if_splits)

lemma derive_nonce_key: "derive_nonce L k i = Inr n \<Longrightarrow> length k = 32"
  by (auto simp: derive_nonce_def KEY_LEN_def split: if_splits)

lemma derive_nonce_total:
  assumes "hkdf_correct L" "length k = 32" "0 \<le> i" "i < 2 ^ 64"
  shows "\<exists>n. derive_nonce L k i = Inr n \<and> length n = 12"
proof -
  have "\<exists>n. hkdf_sha256 L 12 s NONCE_INFO k = Inr n" for s
    using assms(1) by (simp add: hkdf_correct_def)
  then have "\<exists>n. derive_nonce L k i = Inr n"
    using assms by (simp add: derive_nonce_def KEY_LEN_def NONCE_LEN_def pack_le_def)
  with assms(1) show ?thesis by (meson derive_nonce_length)
qed

lemma aead_encrypt_length:
  assumes "aead_correct L" "hkdf_correct L" and "aead_encrypt L k p a i = Inr c"
  shows "length c = length p + 28"
proof -
  from assms(3) obtain n ct where n: "derive_nonce L k i = Inr n"
    and ct: "chacha_encrypt L k n p a = Inr ct" "c = n @ ct"
    by (auto simp: aead_encrypt_def bindR_Inr_iff)
  have "length n = 12" "length k = 32"
    using derive_nonce_length [OF assms(2) n] derive_nonce_key [OF n] by auto
  with aead_correctD [OF assms(1) _ _ ct(1)] ct(2) show ?thesis by simp
qed

interpretation message_box: sealed_box
  "\<lambda>k i a p. aead_encrypt L k p a i" "\<lambda>k i a c. aead_decrypt L k c a i"
  "\<lambda>k i. aead_correct L \<and> hkdf_correct L \<and> length k = 32 \<and> 0 \<le> i \<and> i < 2 ^ 64" for L
proof
  fix k :: bytes and i :: int and ad p :: bytes
  assume "aead_correct L \<and> hkdf_correct L \<and> length k = 32 \<and> 0 \<le> i \<and> i < 2 ^ 64"
  then have ok: "aead_correct L" "hkdf_correct L" "length k = 32" "0 \<le> i" "i < 2 ^ 64" by blast+
  obtain n where n: "derive_nonce L k i = Inr n" "length n = 12"
    using derive_nonce_total [OF ok(2-5)] by blast
  obtain ct where ct: "chacha_encrypt L k n p ad = Inr ct" "length ct = length p + 16"
      "chacha_decrypt L k n ct ad = Inr p"
    using ok(1,3) n(2) unfolding aead_correct_def by blast
  show "\<exists>c. aead_encrypt L k p ad i = Inr c" using n ct by (simp add: aead_encrypt_def)
  fix c assume "aead_encrypt L k p ad i = Inr c"
  with n ct show "aead_decrypt L k c ad i = Inr p"
    by (auto simp: aead_encrypt_def aead_decrypt_def length_constants)
qed

lemma encrypt_header_ok:
  assumes "aead_correct L" "length k = 32" "hc_inv hc" "hc_counter hc < MAX_HEADER_MESSAGES"
  shows "\<exists>ct. encrypt_header L k p a hc =
      (Inr (nonce_bytes (hc_counter hc + 1) @ ct), hc\<lparr>hc_counter := hc_counter hc + 1\<rparr>) \<and>
    length ct = length p + 16 \<and>
    decrypt_header L k (nonce_bytes (hc_counter hc + 1) @ ct) a = Inr p"
proof -
  have "length (nonce_bytes (hc_counter hc + 1)) = 12" by simp
  then obtain ct where "chacha_encrypt L k (nonce_bytes (hc_counter hc + 1)) p a = Inr ct"
      "length ct = length p + 16" "chacha_decrypt L k (nonce_bytes (hc_counter hc + 1)) ct a = Inr p"
    using assms(1,2) unfolding aead_correct_def by blast
  with next_nonce_simps(1) [OF assms(3,4)] show ?thesis
    by (simp add: encrypt_header_def decrypt_header_def length_constants)
qed

lemma encrypt_header_full:
  assumes "hc_inv hc" "\<not> hc_counter hc < MAX_HEADER_MESSAGES"
  shows "encrypt_header L k p a hc = (Inl HeaderCounterError, hc)"
  using next_nonce_simps(2) [OF assms] by (simp add: encrypt_header_def)

interpretation header_box: sealed_box
  "\<lambda>k hc a p. fst (encrypt_header L k p a hc)" "\<lambda>k hc a c. decrypt_header L k c a"
  "\<lambda>k hc. aead_correct L \<and> length k = 32 \<and> hc_inv hc \<and> hc_counter hc < MAX_HEADER_MESSAGES" for L
proof
  fix k a p c :: bytes and hc
  assume ok: "aead_correct L \<and> length k = 32 \<and> hc_inv hc \<and> hc_counter hc < MAX_HEADER_MESSAGES"
  then obtain ct where ct: "fst (encrypt_header L k p a hc) = Inr (nonce_bytes (hc_counter hc + 1) @ ct)"
      "decrypt_header L k (nonce_bytes (hc_counter hc + 1) @ ct) a = Inr p"
    using encrypt_header_ok [of L k hc p a] by auto
  then show "\<exists>c. fst (encrypt_header L k p a hc) = Inr c" by blast
  assume "fst (encrypt_header L k p a hc) = Inr c"
  with ct show "decrypt_header L k c a = Inr p" by simp
qed

text \<open>Headers encrypted one after another under one key, each with its own data.\<close>

fun header_run :: "crypto \<Rightarrow> bytes \<Rightarrow> (bytes \<times> bytes) list \<Rightarrow> header_counter \<Rightarrow> bytes list \<times> header_counter" where
  "header_run L k [] hc = ([], hc)"
| "header_run L k ((p, a) # hs) hc = (case encrypt_header L k p a hc of
      (Inl e, hc') \<Rightarrow> ([], hc')
    | (Inr w, hc') \<Rightarrow> (let (ws, hc'') = header_run L k hs hc' in (w # ws, hc'')))"

lemma header_run_draw:
  assumes "aead_correct L" "length k = 32"
  shows "hc_inv hc \<Longrightarrow> header_run L k hs hc = (ws, hc') \<Longrightarrow>
    draw (length hs) next_nonce hc = (map (take NONCE_LEN) ws, hc')"
proof (induction hs arbitrary: hc ws)
  case (Cons h hs)
  obtain p a where h: "h = (p, a)" by (cases h)
  show ?case
  proof (cases "hc_counter hc < MAX_HEADER_MESSAGES")
    case True
    let ?n = "nonce_bytes (hc_counter hc + 1)" and ?hc = "hc\<lparr>hc_counter := hc_counter hc + 1\<rparr>"
    obtain ct where ct: "encrypt_header L k p a hc = (Inr (?n @ ct), ?hc)"
      using encrypt_header_ok [OF assms Cons.prems(1) True] by blast
    then obtain us where us: "header_run L k hs ?hc = (us, hc')" "ws = (?n @ ct) # us"
      using Cons.prems(2) h by (auto split: prod.splits)
    have "hc_inv ?hc" using Cons.prems(1) True by (simp add: hc_inv_def)
    with Cons.IH us(1) have "draw (length hs) next_nonce ?hc = (map (take NONCE_LEN) us, hc')" by blast
    with us(2) next_nonce_simps(1) [OF Cons.prems(1) True] show ?thesis by (simp add: NONCE_LEN_def)
  next
    case False
    with Cons.prems h encrypt_header_full [OF Cons.prems(1)] next_nonce_simps(2) [OF Cons.prems(1)]
    show ?thesis by simp
  qed
qed simp

section \<open>Properties\<close>

text \<open>
  C31: the message layer decrypts exactly what it encrypts. With the documented AEAD
  and HKDF behaviour, \<open>decrypt(key, data, ad, index)\<close> returns a plaintext if and only
  if \<open>data\<close> is what \<open>encrypt\<close> produces for it under the same key, associated data and
  index; shorter input is a \<open>ValueError\<close>, a wrong nonce on the wire an \<open>InvalidTag\<close>.
\<close>

theorem aead_decrypt_iff_encrypt:
  assumes "aead_correct L" "aead_strict L" "hkdf_correct L"
  shows "(aead_decrypt L k data ad i = Inr p \<longleftrightarrow> aead_encrypt L k p ad i = Inr data) \<and>
    (length data < MIN_CT_LEN \<longrightarrow>
      aead_decrypt L k data ad i = Inl (ValueError ''Ciphertext too short'')) \<and>
    (\<forall>n. MIN_CT_LEN \<le> length data \<longrightarrow> derive_nonce L k i = Inr n \<longrightarrow> take NONCE_LEN data \<noteq> n \<longrightarrow>
      aead_decrypt L k data ad i = Inl InvalidTag)"
proof (intro conjI)
  show "aead_decrypt L k data ad i = Inr p \<longleftrightarrow> aead_encrypt L k p ad i = Inr data"
  proof
    assume "aead_decrypt L k data ad i = Inr p"
    then obtain n where n: "derive_nonce L k i = Inr n" "take NONCE_LEN data = n"
        "chacha_decrypt L k n (drop NONCE_LEN data) ad = Inr p"
      by (auto simp: aead_decrypt_def Let_def bindR_Inr_iff split: if_splits)
    then have "chacha_encrypt L k n p ad = Inr (drop NONCE_LEN data)"
      using assms(2) unfolding aead_strict_def by blast
    with n show "aead_encrypt L k p ad i = Inr data"
      by (simp add: aead_encrypt_def) (metis append_take_drop_id)
  next
    assume enc: "aead_encrypt L k p ad i = Inr data"
    then obtain n where n: "derive_nonce L k i = Inr n" by (auto simp: aead_encrypt_def bindR_Inr_iff)
    have "0 \<le> i \<and> i < 2 ^ 64" using n by (auto simp: derive_nonce_def split: if_splits)
    with derive_nonce_key [OF n] assms message_box.open_seal [OF _ enc]
    show "aead_decrypt L k data ad i = Inr p" by blast
  qed
qed (auto simp: aead_decrypt_def Let_def)

theorem aead_decrypt_iff_encrypt_witness:
  "aead_decrypt example_lib (zeros 32) (zeros 28) [] 0 \<noteq> Inr [1]"
  using aead_decrypt_iff_encrypt [OF example_aead_correct example_aead_strict example_hkdf_correct,
      of "zeros 32" "zeros 28" "[]" 0 "[1]"]
    aead_encrypt_length [OF example_aead_correct example_hkdf_correct, of "zeros 32" "[1]" "[]" 0 "zeros 28"]
  by auto

text \<open>
  C32: the header layer never reuses a nonce under a header key. Encrypting any list of
  headers in order, each decrypts to its plaintext under its associated data, and the
  nonces on the wire (the first 12 bytes) are pairwise distinct; when the counter is
  exhausted the next header is refused with \<open>HeaderCounterError\<close> before the cipher runs.
\<close>

theorem header_layer_nonces:
  assumes "aead_correct L" "length k = 32" "new_header_counter sid initial = Inr hc"
  shows "distinct (map (take NONCE_LEN) (fst (header_run L k hs hc))) \<and>
    (initial < MAX_HEADER_MESSAGES \<longrightarrow>
      (\<exists>w. fst (encrypt_header L k p ad hc) = Inr w \<and> decrypt_header L k w ad = Inr p)) \<and>
    (initial = MAX_HEADER_MESSAGES \<longrightarrow> encrypt_header L k p ad hc = (Inl HeaderCounterError, hc))"
proof -
  have hc: "hc_inv hc" "hc_counter hc = initial" using new_header_counter_inv [OF assms(3)] by blast+
  obtain ws hc' where ws: "header_run L k hs hc = (ws, hc')" by force
  have "distinct (map (take NONCE_LEN) ws)"
    using hc.draw_distinct [OF hc(1) header_run_draw [OF assms(1,2) hc(1) ws]] .
  moreover have "\<exists>w. fst (encrypt_header L k p ad hc) = Inr w \<and> decrypt_header L k w ad = Inr p"
    if "initial < MAX_HEADER_MESSAGES"
    using encrypt_header_ok [OF assms(1,2) hc(1), of p ad] that hc(2) by auto
  moreover have "encrypt_header L k p ad hc = (Inl HeaderCounterError, hc)"
    if "initial = MAX_HEADER_MESSAGES"
    using encrypt_header_full [OF hc(1)] that hc(2) by simp
  ultimately show ?thesis using ws by simp
qed

theorem header_layer_nonces_witness:
  "distinct (map (take NONCE_LEN) (fst (header_run example_lib (zeros 32) [([1], []), ([2], [3])]
     \<lparr>hc_session_id = lit ''s'', hc_counter = 0\<rparr>)))"
  using header_layer_nonces [OF example_aead_correct length_zeros, of "lit ''s''" 0
      "\<lparr>hc_session_id = lit ''s'', hc_counter = 0\<rparr>" "[([1], []), ([2], [3])]"]
  unfolding new_header_counter_def MAX_HEADER_MESSAGES_def by auto

end
