(* ===== verification/Py_Json.thy ===== *)
theory Py_Json
  imports Py_Value
begin

text \<open>
  The parts of the standard \<open>json\<close> module the code uses: \<open>json.dumps\<close> with the
  default and with the compact separators, and \<open>json.loads\<close>. The parser is the
  recursive descent of \<open>json.scanner\<close>/\<open>json.decoder\<close>, with fuel; fuel above twice the length
  of the text is enough for every text (\<open>loads_fuel\<close>), and printing followed by parsing
  is the identity (\<open>loads_dumps\<close>). Not modelled: the interpreter's recursion limit.
\<close>

section \<open>Printing\<close>

fun dec_nat :: "nat \<Rightarrow> pystr" where
  "dec_nat n = (if n < 10 then [48 + n] else dec_nat (n div 10) @ [48 + n mod 10])"

declare dec_nat.simps [simp del]

definition dec_int :: "int \<Rightarrow> pystr" where
  "dec_int n = (if n < 0 then 45 # dec_nat (nat (- n)) else dec_nat (nat n))"

definition u_escape :: "nat \<Rightarrow> pystr" where
  "u_escape c = [92, 117, hex_digit (c div 4096 mod 16), hex_digit (c div 256 mod 16),
     hex_digit (c div 16 mod 16), hex_digit (c mod 16)]"

text \<open>\<open>py_encode_basestring_ascii\<close>\<close>

definition escape_char :: "nat \<Rightarrow> pystr" where
  "escape_char c =
     (if c = 34 then [92, 34] else if c = 92 then [92, 92]
      else if c = 10 then [92, 110] else if c = 13 then [92, 114]
      else if c = 9 then [92, 116] else if c = 12 then [92, 102]
      else if c = 8 then [92, 98]
      else if 32 \<le> c \<and> c \<le> 126 then [c]
      else if c < 0x10000 then u_escape c
      else u_escape (0xD800 + (c - 0x10000) div 1024 mod 1024)
         @ u_escape (0xDC00 + (c - 0x10000) mod 1024))"

definition escape_str :: "pystr \<Rightarrow> pystr" where
  "escape_str s = concat (map escape_char s)"

definition dumps_str :: "pystr \<Rightarrow> pystr" where
  "dumps_str s = 34 # escape_str s @ [34]"

text \<open>\<open>i\<close> separates items, \<open>k\<close> separates a key from its value.\<close>

fun dumps_with :: "pystr \<Rightarrow> pystr \<Rightarrow> pyval \<Rightarrow> pystr res"
  and dumps_items :: "pystr \<Rightarrow> pystr \<Rightarrow> pyval list \<Rightarrow> pystr res"
  and dumps_pairs :: "pystr \<Rightarrow> pystr \<Rightarrow> (pystr \<times> pyval) list \<Rightarrow> pystr res" where
  "dumps_with i k PNone = Inr (lit ''null'')"
| "dumps_with i k (PBool b) = Inr (if b then lit ''true'' else lit ''false'')"
| "dumps_with i k (PInt n) = Inr (dec_int n)"
| "dumps_with i k (PFloat t) = Inr (lit t)"
| "dumps_with i k (PStr s) = Inr (dumps_str s)"
| "dumps_with i k (PBytes b) = Inl TypeError"
| "dumps_with i k (PList vs) = bindR (dumps_items i k vs) (\<lambda>t. Inr (91 # t @ [93]))"
| "dumps_with i k (PDict d) = bindR (dumps_pairs i k d) (\<lambda>t. Inr (123 # t @ [125]))"
| "dumps_items i k [] = Inr []"
| "dumps_items i k (v # vs) =
     bindR (dumps_with i k v) (\<lambda>t. if vs = [] then Inr t
       else bindR (dumps_items i k vs) (\<lambda>u. Inr (t @ i @ u)))"
| "dumps_pairs i k [] = Inr []"
| "dumps_pairs i k ((s, v) # d) =
     bindR (dumps_with i k v) (\<lambda>t. if d = [] then Inr (dumps_str s @ k @ t)
       else bindR (dumps_pairs i k d) (\<lambda>u. Inr (dumps_str s @ k @ t @ i @ u)))"

definition dumps :: "pyval \<Rightarrow> pystr res" where
  "dumps = dumps_with (lit '', '') (lit '': '')"

definition dumps_compact :: "pyval \<Rightarrow> pystr res" where
  "dumps_compact = dumps_with (lit '','') (lit '':'')"

section \<open>Parsing\<close>

definition is_ws :: "nat \<Rightarrow> bool" where
  "is_ws c \<longleftrightarrow> c = 32 \<or> c = 9 \<or> c = 10 \<or> c = 13"

abbreviation skip_ws :: "pystr \<Rightarrow> pystr" where
  "skip_ws s \<equiv> dropWhile is_ws s"

fun hex4 :: "pystr \<Rightarrow> (nat \<times> pystr) option" where
  "hex4 (a # b # c # d # s) =
     (case (hex_value a, hex_value b, hex_value c, hex_value d) of
        (Some h1, Some h2, Some h3, Some h4) \<Rightarrow>
          Some (((h1 * 16 + h2) * 16 + h3) * 16 + h4, s)
      | _ \<Rightarrow> None)"
| "hex4 _ = None"

lemma hex4_length: "hex4 s = Some (u, r) \<Longrightarrow> length s = length r + 4"
  by (cases s rule: hex4.cases) (auto split: option.splits)

definition simple_escape :: "nat \<Rightarrow> nat option" where
  "simple_escape e =
     (if e = 34 \<or> e = 92 \<or> e = 47 then Some e
      else if e = 110 then Some 10 else if e = 114 then Some 13 else if e = 116 then Some 9
      else if e = 102 then Some 12 else if e = 98 then Some 8 else None)"

text \<open>The escape after a backslash: the code point and the rest.\<close>

definition parse_escape :: "pystr \<Rightarrow> (nat \<times> pystr) option" where
  "parse_escape s = (case s of
      [] \<Rightarrow> None
    | e # s1 \<Rightarrow>
        if e \<noteq> 117 then map_option (\<lambda>c. (c, s1)) (simple_escape e)
        else case hex4 s1 of
          None \<Rightarrow> None
        | Some (u, s2) \<Rightarrow>
            (case s2 of
               b # v # s3 \<Rightarrow>
                 if 0xD800 \<le> u \<and> u < 0xDC00 \<and> b = 92 \<and> v = 117 then
                   (case hex4 s3 of
                      None \<Rightarrow> None
                    | Some (w, s4) \<Rightarrow>
                        if 0xDC00 \<le> w \<and> w < 0xE000
                        then Some (0x10000 + (u - 0xD800) * 1024 + (w - 0xDC00), s4)
                        else Some (u, s2))
                 else Some (u, s2)
             | _ \<Rightarrow> Some (u, s2)))"

lemma parse_escape_length: "parse_escape s = Some (c, r) \<Longrightarrow> length r < length s"
  by (auto simp: parse_escape_def dest!: hex4_length
      split: list.splits option.splits if_splits prod.splits)

text \<open>The rest of a string literal after its opening quote.\<close>

function parse_string :: "pystr \<Rightarrow> (pystr \<times> pystr) res" where
  "parse_string s = (case s of
      [] \<Rightarrow> Inl JSONDecodeError
    | c # s1 \<Rightarrow>
        if c = 34 then Inr ([], s1)
        else if c = 92 then
          (case parse_escape s1 of
             None \<Rightarrow> Inl JSONDecodeError
           | Some (e, s2) \<Rightarrow> bindR (parse_string s2) (\<lambda>(t, r). Inr (e # t, r)))
        else if c < 32 then Inl JSONDecodeError
        else bindR (parse_string s1) (\<lambda>(t, r). Inr (c # t, r)))"
  by pat_completeness auto
termination
  by (relation "measure length") (auto dest: parse_escape_length)

declare parse_string.simps [simp del]

text \<open>
  A number: \<open>(-?(0|[1-9][0-9]*))(.[0-9]+)?([eE][-+]?[0-9]+)?\<close>, as the longest match at
  the front; \<open>None\<close> if there is none.
\<close>

definition number_int :: "pystr \<Rightarrow> (pystr \<times> pystr) option" where
  "number_int s =
     (let (sg, s1) = (case s of c # r \<Rightarrow> if c = 45 then ([45], r) else ([], s) | [] \<Rightarrow> ([], s))
      in case s1 of
        [] \<Rightarrow> None
      | c # r \<Rightarrow>
          if c = 48 then Some (sg @ [48], r)
          else if is_digit c then Some (sg @ takeWhile is_digit s1, dropWhile is_digit s1)
          else None)"

definition number_frac :: "pystr \<Rightarrow> pystr \<times> pystr" where
  "number_frac s = (case s of
      c # d # r \<Rightarrow>
        if c = 46 \<and> is_digit d then (c # takeWhile is_digit (d # r), dropWhile is_digit (d # r))
        else ([], s)
    | _ \<Rightarrow> ([], s))"

definition number_exp :: "pystr \<Rightarrow> pystr \<times> pystr" where
  "number_exp s = (case s of
      c # d # r \<Rightarrow>
        if c = 69 \<or> c = 101 then
          (if is_digit d then (c # takeWhile is_digit (d # r), dropWhile is_digit (d # r))
           else if (d = 43 \<or> d = 45) \<and> r \<noteq> [] \<and> is_digit (hd r)
           then (c # d # takeWhile is_digit r, dropWhile is_digit r)
           else ([], s))
        else ([], s)
    | _ \<Rightarrow> ([], s))"

definition int_literal :: "pystr \<Rightarrow> int" where
  "int_literal t = (case t of
      [] \<Rightarrow> 0
    | c # s \<Rightarrow> if c = 45 then - int (digits_val 0 s) else int (digits_val 0 t))"

definition to_chars :: "pystr \<Rightarrow> string" where
  "to_chars = map char_of"

definition parse_number :: "pystr \<Rightarrow> (pyval \<times> pystr) res" where
  "parse_number s = (case number_int s of
      None \<Rightarrow> Inl JSONDecodeError
    | Some (t, s1) \<Rightarrow>
        let (f, s2) = number_frac s1; (e, s3) = number_exp s2
        in if f = [] \<and> e = [] then Inr (PInt (int_literal t), s3)
           else Inr (PFloat (to_chars (t @ f @ e)), s3))"

text \<open>\<open>s\<close> without the prefix \<open>p\<close>.\<close>

definition after :: "string \<Rightarrow> pystr \<Rightarrow> pystr option" where
  "after p s = (if take (length p) s = lit p then Some (drop (length p) s) else None)"

text \<open>The literals beyond the JSON standard that \<open>json.loads\<close> accepts and \<open>json.dumps\<close> writes.\<close>

definition parse_constant :: "pystr \<Rightarrow> (pyval \<times> pystr) res" where
  "parse_constant s =
     (case after ''NaN'' s of Some r \<Rightarrow> Inr (PFloat ''NaN'', r) | None \<Rightarrow>
      case after ''Infinity'' s of Some r \<Rightarrow> Inr (PFloat ''Infinity'', r) | None \<Rightarrow>
      case after ''-Infinity'' s of Some r \<Rightarrow> Inr (PFloat ''-Infinity'', r) | None \<Rightarrow> Inl JSONDecodeError)"

definition parse_atom :: "pystr \<Rightarrow> (pyval \<times> pystr) res" where
  "parse_atom s =
     (case after ''null'' s of Some r \<Rightarrow> Inr (PNone, r) | None \<Rightarrow>
      case after ''true'' s of Some r \<Rightarrow> Inr (PBool True, r) | None \<Rightarrow>
      case after ''false'' s of Some r \<Rightarrow> Inr (PBool False, r) | None \<Rightarrow>
      case parse_number s of Inr x \<Rightarrow> Inr x | Inl e \<Rightarrow> parse_constant s)"

text \<open>A list of pairs read from an object becomes a dictionary: a later duplicate wins.\<close>

definition dict_of_pairs :: "(pystr \<times> pyval) list \<Rightarrow> pydict" where
  "dict_of_pairs ps = dict_merge [] ps"

fun parse_value :: "nat \<Rightarrow> pystr \<Rightarrow> (pyval \<times> pystr) res"
  and parse_items :: "nat \<Rightarrow> pystr \<Rightarrow> (pyval list \<times> pystr) res"
  and parse_pairs :: "nat \<Rightarrow> pystr \<Rightarrow> ((pystr \<times> pyval) list \<times> pystr) res" where
  "parse_value 0 s = Inl RecursionError"
| "parse_value (Suc n) s = (case s of
      [] \<Rightarrow> Inl JSONDecodeError
    | c # r \<Rightarrow>
        if c = 34 then bindR (parse_string r) (\<lambda>(t, r1). Inr (PStr t, r1))
        else if c = 123 then
          (case skip_ws r of
             [] \<Rightarrow> Inl JSONDecodeError
           | d # r1 \<Rightarrow>
               if d = 34 then bindR (parse_pairs n r1) (\<lambda>(ps, r2). Inr (PDict (dict_of_pairs ps), r2))
               else if d = 125 then Inr (PDict [], r1)
               else Inl JSONDecodeError)
        else if c = 91 then
          (case skip_ws r of
             [] \<Rightarrow> Inl JSONDecodeError
           | d # r1 \<Rightarrow>
               if d = 93 then Inr (PList [], r1)
               else bindR (parse_items n (d # r1)) (\<lambda>(vs, r2). Inr (PList vs, r2)))
        else parse_atom s)"
| "parse_items 0 s = Inl RecursionError"
| "parse_items (Suc n) s =
     bindR (parse_value n s) (\<lambda>(v, r).
       case skip_ws r of
         [] \<Rightarrow> Inl JSONDecodeError
       | d # r1 \<Rightarrow>
           if d = 93 then Inr ([v], r1)
           else if d = 44 then bindR (parse_items n (skip_ws r1)) (\<lambda>(vs, r2). Inr (v # vs, r2))
           else Inl JSONDecodeError)"
| "parse_pairs 0 s = Inl RecursionError"
| "parse_pairs (Suc n) s =
     bindR (parse_string s) (\<lambda>(k, r).
       case skip_ws r of
         [] \<Rightarrow> Inl JSONDecodeError
       | d # r1 \<Rightarrow>
           if d \<noteq> 58 then Inl JSONDecodeError
           else bindR (parse_value n (skip_ws r1)) (\<lambda>(v, r2).
             case skip_ws r2 of
               [] \<Rightarrow> Inl JSONDecodeError
             | e # r3 \<Rightarrow>
                 if e = 125 then Inr ([(k, v)], r3)
                 else if e \<noteq> 44 then Inl JSONDecodeError
                 else case skip_ws r3 of
                   [] \<Rightarrow> Inl JSONDecodeError
                 | q # r4 \<Rightarrow>
                     if q \<noteq> 34 then Inl JSONDecodeError
                     else bindR (parse_pairs n r4) (\<lambda>(ps, r5). Inr ((k, v) # ps, r5))))"

definition loads :: "pystr \<Rightarrow> pyval res" where
  "loads s =
     (if s \<noteq> [] \<and> hd s = 0xFEFF then Inl JSONDecodeError
      else bindR (parse_value (Suc (2 * length s)) (skip_ws s)) (\<lambda>(v, r).
        if skip_ws r = [] then Inr v else Inl JSONDecodeError))"

section \<open>Numbers\<close>

lemma dec_nat_digits: "c \<in> set (dec_nat n) \<Longrightarrow> is_digit c"
proof (induction n rule: dec_nat.induct)
  case (1 n)
  have "n mod 10 < 10" by simp
  then show ?case
    using "1" by (subst (asm) dec_nat.simps) (auto simp: is_digit_def split: if_splits)
qed

lemma dec_nat_nonempty [simp]: "dec_nat n \<noteq> []"
  by (subst dec_nat.simps) simp

lemma digits_val_append: "digits_val n (s @ t) = digits_val (digits_val n s) t"
  by (induction s arbitrary: n) auto

lemma digits_val_dec_nat [simp]: "digits_val 0 (dec_nat n) = n"
proof (induction n rule: dec_nat.induct)
  case (1 n)
  then show ?case by (subst dec_nat.simps) (auto simp: digits_val_append)
qed

lemma dec_nat_hd_zero: "hd (dec_nat n) = 48 \<Longrightarrow> dec_nat n = [48]"
proof (induction n rule: dec_nat.induct)
  case (1 n)
  show ?case
  proof (cases "n < 10")
    case True
    then show ?thesis using "1.prems" by (auto simp: dec_nat.simps)
  next
    case False
    then have "hd (dec_nat (n div 10)) = 48"
      using "1.prems" by (simp add: dec_nat.simps [of n])
    with "1.IH" False have "dec_nat (n div 10) = [48]" by simp
    then have "n div 10 = 0" using digits_val_dec_nat [of "n div 10"] by simp
    with False show ?thesis by simp
  qed
qed

text \<open>Text after which a number cannot go on.\<close>

definition stops :: "pystr \<Rightarrow> bool" where
  "stops r \<longleftrightarrow> r = [] \<or> \<not> is_digit (hd r) \<and> hd r \<notin> {46, 69, 101, 43, 45}"

lemma stops_cases:
  assumes "stops r"
  obtains "r = []" | c r' where "r = c # r'" "\<not> is_digit c" "c \<notin> {46, 69, 101, 43, 45}"
  using assms by (cases r) (auto simp: stops_def)

lemma takeWhile_digit_stops: "stops r \<Longrightarrow> takeWhile is_digit (s @ r) = takeWhile is_digit s"
  by (induction s) (auto elim: stops_cases)

lemma dropWhile_digit_stops: "stops r \<Longrightarrow> dropWhile is_digit (s @ r) = dropWhile is_digit s @ r"
  by (induction s) (auto elim: stops_cases)

lemmas digit_run = takeWhile_digit_stops dropWhile_digit_stops

lemma number_int_append:
  "number_int s = Some (t, u) \<Longrightarrow> stops r \<Longrightarrow> number_int (s @ r) = Some (t, u @ r)"
  using digit_run [of r s] digit_run [of r "tl s"]
  by (cases s; cases "tl s")
    (auto simp: number_int_def Let_def split: if_splits list.splits)

lemma number_frac_append:
  assumes "stops r"
  shows "number_frac (s @ r) = (fst (number_frac s), snd (number_frac s) @ r)"
proof (cases s)
  case Nil
  with assms show ?thesis by (auto simp: number_frac_def split: list.splits elim: stops_cases)
next
  case (Cons c s1)
  show ?thesis
  proof (cases s1)
    case Nil
    with assms Cons show ?thesis by (auto simp: number_frac_def split: list.splits elim: stops_cases)
  next
    case (Cons d s2)
    with \<open>s = c # s1\<close> assms digit_run [of r s2] show ?thesis by (auto simp: number_frac_def)
  qed
qed

lemma number_exp_append:
  assumes "stops r"
  shows "number_exp (s @ r) = (fst (number_exp s), snd (number_exp s) @ r)"
proof (cases s)
  case Nil
  with assms show ?thesis by (auto simp: number_exp_def split: list.splits elim: stops_cases)
next
  case (Cons c s1)
  show ?thesis
  proof (cases s1)
    case Nil
    with assms Cons show ?thesis by (auto simp: number_exp_def split: list.splits elim: stops_cases)
  next
    case (Cons d s2)
    have "s2 @ r \<noteq> [] \<and> is_digit (hd (s2 @ r)) \<longleftrightarrow> s2 \<noteq> [] \<and> is_digit (hd s2)"
      using assms by (cases s2) (auto elim: stops_cases)
    with Cons \<open>s = c # s1\<close> assms digit_run [of r s2] show ?thesis
      by (auto simp: number_exp_def)
  qed
qed

lemma parse_number_append:
  assumes "parse_number s = Inr (v, [])" and "stops r"
  shows "parse_number (s @ r) = Inr (v, r)"
  using assms number_int_append [OF _ assms(2)]
  by (auto simp: parse_number_def number_frac_append number_exp_append Let_def
      split: option.splits prod.splits if_splits)

lemma number_int_dec_nat: "number_int (dec_nat n) = Some (dec_nat n, [])"
proof -
  obtain c r where cr: "dec_nat n = c # r" by (cases "dec_nat n") auto
  have dig: "is_digit c" "\<forall>x \<in> set r. is_digit x" using dec_nat_digits [of _ n] cr by auto
  then have "c \<noteq> 45" by (auto simp: is_digit_def)
  moreover have "c = 48 \<Longrightarrow> r = []" using dec_nat_hd_zero [of n] cr by simp
  ultimately show ?thesis
    using dig cr by (auto simp: number_int_def takeWhile_eq_all_conv dropWhile_eq_Nil_conv)
qed

lemma number_int_minus: "number_int (dec_nat n) = Some (t, u) \<Longrightarrow>
    number_int (45 # dec_nat n) = Some (45 # t, u)"
  using dec_nat_digits [of "hd (dec_nat n)" n]
  by (cases "dec_nat n") (auto simp: number_int_def is_digit_def split: if_splits)

lemma dec_nat_not_minus: "dec_nat n = c # r \<Longrightarrow> c \<noteq> 45"
  using dec_nat_digits [of c n] by (auto simp: is_digit_def)

lemma parse_number_dec_int: "parse_number (dec_int n) = Inr (PInt n, [])"
proof -
  have i: "number_int (dec_int n) = Some (dec_int n, [])"
    using number_int_minus [OF number_int_dec_nat] by (simp add: dec_int_def number_int_dec_nat)
  have v: "int_literal (dec_int n) = n"
  proof (cases "dec_nat (nat n)")
    case (Cons c r)
    then have "digits_val (c - 48) r = nat n"
      using digits_val_dec_nat [of "nat n"] by simp
    with Cons show ?thesis
      by (auto simp: dec_int_def int_literal_def dest: dec_nat_not_minus)
  qed simp
  show ?thesis by (simp add: parse_number_def i v number_frac_def number_exp_def)
qed

section \<open>Strings\<close>

definition scalar :: "nat \<Rightarrow> bool" where
  "scalar c \<longleftrightarrow> c < 0x110000 \<and> \<not> is_surrogate c"

lemma hex4_digits:
  assumes "c < 0x10000"
  shows "hex4 (hex_digit (c div 4096 mod 16) # hex_digit (c div 256 mod 16)
      # hex_digit (c div 16 mod 16) # hex_digit (c mod 16) # s) = Some (c, s)"
proof -
  have d: "c div 4096 mod 16 = c div 16 div 16 div 16" "c div 256 mod 16 = c div 16 div 16 mod 16"
    using assms by (simp_all add: div_mult2_eq [symmetric])
  have "((c div 16 div 16 div 16 * 16 + c div 16 div 16 mod 16) * 16 + c div 16 mod 16) * 16
      + c mod 16 = c"
    by (simp only: div_mult_mod_eq)
  moreover have "c div 16 div 16 div 16 < 16" using assms by (simp add: div_mult2_eq [symmetric])
  ultimately show ?thesis by (simp add: d hex_value_digit)
qed

lemma parse_escape_bmp:
  assumes "c < 0x10000" and "\<not> (0xD800 \<le> c \<and> c < 0xDC00)"
  shows "parse_escape (tl (u_escape c) @ s) = Some (c, s)"
  using hex4_digits [OF assms(1), of s] assms(2)
  by (auto simp: parse_escape_def u_escape_def split: list.splits)

lemma parse_escape_pair:
  assumes "0x10000 \<le> c" and "c < 0x110000"
  shows "parse_escape (tl (u_escape (0xD800 + (c - 0x10000) div 1024 mod 1024))
      @ u_escape (0xDC00 + (c - 0x10000) mod 1024) @ s) = Some (c, s)"
proof -
  define h l where h: "h = (c - 0x10000) div 1024 mod 1024" and l: "l = (c - 0x10000) mod 1024"
  have hl: "h < 1024" "l < 1024" by (simp_all add: h l)
  have "(c - 0x10000) div 1024 < 1024" using assms by (auto intro: less_mult_imp_div_less)
  then have c: "0x10000 + h * 1024 + l = c" using assms by (simp add: h l)
  have a: "hex4 (tl (tl (u_escape (0xD800 + h))) @ t) = Some (0xD800 + h, t)"
    and b: "hex4 (tl (tl (u_escape (0xDC00 + l))) @ t) = Some (0xDC00 + l, t)" for t
    using hex4_digits [of "0xD800 + h" t] hex4_digits [of "0xDC00 + l" t] hl
    by (simp_all add: u_escape_def)
  have u: "u_escape x = 92 # 117 # tl (tl (u_escape x))" for x by (simp add: u_escape_def)
  have e: "tl (u_escape (0xD800 + h)) @ u_escape (0xDC00 + l) @ s
      = 117 # (tl (tl (u_escape (0xD800 + h))) @ 92 # 117 # (tl (tl (u_escape (0xDC00 + l))) @ s))"
    by (simp add: u_escape_def)
  have "parse_escape (tl (u_escape (0xD800 + h)) @ u_escape (0xDC00 + l) @ s) = Some (c, s)"
    unfolding e using hl c by (simp add: parse_escape_def a b)
  then show ?thesis by (simp add: h l)
qed

lemma parse_string_escape:
  "parse_escape s = Some (c, r) \<Longrightarrow> parse_string (92 # s) = bindR (parse_string r) (\<lambda>(t, r). Inr (c # t, r))"
  by (simp add: parse_string.simps [of "92 # s"])

lemma u_escape_Cons: "u_escape c @ s = 92 # (tl (u_escape c) @ s)"
  by (simp add: u_escape_def)

lemma parse_string_escape_char:
  assumes "scalar c"
  shows "parse_string (escape_char c @ s) = bindR (parse_string s) (\<lambda>(t, r). Inr (c # t, r))"
proof -
  have simple: "parse_escape (e # s) = Some (d, s)" if "simple_escape e = Some d" "e \<noteq> 117" for e d
    using that by (simp add: parse_escape_def)
  consider "c \<in> {34, 92, 10, 13, 9, 12, 8}"
    | "c \<notin> {34, 92, 10, 13, 9, 12, 8}" "32 \<le> c \<and> c \<le> 126"
    | "c \<notin> {34, 92, 10, 13, 9, 12, 8}" "\<not> (32 \<le> c \<and> c \<le> 126)" "c < 0x10000"
    | "c \<notin> {34, 92, 10, 13, 9, 12, 8}" "\<not> (32 \<le> c \<and> c \<le> 126)" "0x10000 \<le> c"
    by (meson not_le_imp_less)
  then show ?thesis
  proof cases
    case 1
    then show ?thesis
      by (auto simp: escape_char_def simple_escape_def intro!: parse_string_escape simple)
  next
    case 2
    then show ?thesis by (simp add: escape_char_def parse_string.simps [of "c # s"])
  next
    case 3
    have "\<not> (0xD800 \<le> c \<and> c < 0xDC00)" using assms by (auto simp: scalar_def is_surrogate_def)
    with 3 have "parse_escape (tl (u_escape c) @ s) = Some (c, s)" by (simp add: parse_escape_bmp)
    moreover have "escape_char c @ s = 92 # (tl (u_escape c) @ s)"
      using 3 u_escape_Cons [of c "[]"] by (auto simp: escape_char_def)
    ultimately show ?thesis by (simp add: parse_string_escape)
  next
    case 4
    let ?h = "u_escape (0xD800 + (c - 0x10000) div 1024 mod 1024)"
    let ?l = "u_escape (0xDC00 + (c - 0x10000) mod 1024)"
    have "parse_escape (tl ?h @ ?l @ s) = Some (c, s)"
      using assms 4 by (intro parse_escape_pair) (auto simp: scalar_def)
    moreover have "escape_char c @ s = 92 # (tl ?h @ ?l @ s)"
      using 4 by (auto simp: escape_char_def u_escape_Cons [of _ "?l @ s"])
    ultimately show ?thesis by (simp add: parse_string_escape)
  qed
qed

lemma parse_string_escape_str:
  "list_all scalar s \<Longrightarrow> parse_string (escape_str s @ 34 # r) = Inr (s, r)"
  by (induction s)
    (simp_all add: escape_str_def parse_string_escape_char parse_string.simps [of "34 # r"])

section \<open>Values\<close>

text \<open>
  The values that survive printing and parsing: strings of Unicode scalar values
  (a lone surrogate pair would be joined), dictionaries without duplicate keys (always
  so in Python), and float literals that are numbers with a fraction or an exponent.
\<close>

definition float_ok :: "string \<Rightarrow> bool" where
  "float_ok t \<longleftrightarrow> parse_number (lit t) = Inr (PFloat t, [])"

fun json_ok :: "pyval \<Rightarrow> bool" where
  "json_ok (PFloat t) = float_ok t"
| "json_ok (PStr s) = list_all scalar s"
| "json_ok (PBytes b) = False"
| "json_ok (PList vs) = list_all json_ok vs"
| "json_ok (PDict d) =
     (distinct (map fst d) \<and> list_all (\<lambda>(k, v). list_all scalar k \<and> json_ok v) d)"
| "json_ok _ = True"

definition seps_ok :: "pystr \<Rightarrow> pystr \<Rightarrow> bool" where
  "seps_ok i k \<longleftrightarrow> (\<exists>w1 w2. i = 44 # w1 \<and> k = 58 # w2 \<and> list_all is_ws w1 \<and> list_all is_ws w2)"

lemma skip_ws_append: "list_all is_ws w \<Longrightarrow> skip_ws (w @ s) = skip_ws s"
  by (induction w) auto

lemma dict_of_pairs_distinct: "distinct (map fst d) \<Longrightarrow> dict_of_pairs d = d"
proof -
  have "distinct (map fst (e @ d)) \<Longrightarrow> dict_merge e d = e @ d" for e
  proof (induction d arbitrary: e)
    case (Cons p d)
    obtain k v where p: "p = (k, v)" by force
    have "k \<notin> fst ` set e" using Cons.prems p by auto
    then have "AList.update k v e = e @ [(k, v)]" by (induction e) auto
    then show ?case using Cons.IH [of "e @ [p]"] Cons.prems by (simp add: dict_merge_def p)
  qed (simp add: dict_merge_def)
  from this [of "[]"] show "distinct (map fst d) \<Longrightarrow> dict_of_pairs d = d"
    by (simp add: dict_of_pairs_def)
qed

lemma after_lit: "after p (lit p @ r) = Some r"
  by (simp add: after_def lit_def)

lemma after_hd: "p \<noteq> [] \<Longrightarrow> hd s \<noteq> of_char (hd p) \<Longrightarrow> after p s = None"
  by (cases p; cases s) (auto simp: after_def lit_def)

lemma parse_number_first:
  "parse_number s = Inr (v, r) \<Longrightarrow> s \<noteq> [] \<and> (hd s = 45 \<or> is_digit (hd s))"
  by (cases s) (auto simp: parse_number_def number_int_def is_digit_def Let_def
      split: option.splits list.splits if_splits)

lemma parse_atom_number:
  assumes "parse_number s = Inr (v, [])" and "stops r"
  shows "parse_atom (s @ r) = Inr (v, r)"
  using parse_number_first [OF assms(1)] parse_number_append [OF assms]
  by (auto simp: parse_atom_def after_hd is_digit_def)

lemma parse_value_number:
  assumes "parse_number s = Inr (v, [])" and "stops r" and "length s < n"
  shows "parse_value n (s @ r) = Inr (v, r)"
proof -
  from parse_number_first [OF assms(1)] obtain c s' where s: "s = c # s'" "c = 45 \<or> is_digit c"
    by (cases s) auto
  then show ?thesis
    using parse_atom_number [OF assms(1,2)] assms(3)
    by (cases n) (auto simp: is_digit_def)
qed

lemma dumps_first:
  assumes "dumps_with i k v = Inr t" and "json_ok v"
  shows "t \<noteq> [] \<and> \<not> is_ws (hd t) \<and> hd t \<noteq> 93"
proof (cases v)
  case (PInt n)
  with assms parse_number_first [OF parse_number_dec_int [of n]] show ?thesis
    by (auto simp: is_ws_def is_digit_def)
next
  case (PFloat x)
  with assms parse_number_first [of "lit x" "PFloat x" "[]"] show ?thesis
    by (auto simp: is_ws_def is_digit_def float_ok_def)
qed (use assms in \<open>auto simp: is_ws_def lit_def dumps_str_def bindR_Inr_iff split: if_splits\<close>)

lemma stops_sep: "c \<in> {44, 93, 125} \<Longrightarrow> stops (c # r)"
  by (auto simp: stops_def is_digit_def)

lemma skip_ws_dumps:
  assumes "dumps_with i k v = Inr t" and "json_ok v"
  shows "skip_ws (t @ r) = t @ r" and "\<exists>c t'. t = c # t' \<and> c \<noteq> 93 \<and> \<not> is_ws c"
  using dumps_first [OF assms] by (cases t; auto)+

lemma parse_dumps:
  "seps_ok i k \<Longrightarrow> dumps_with i k v = Inr t \<Longrightarrow> json_ok v \<Longrightarrow> length t < n \<Longrightarrow> stops r \<Longrightarrow>
      parse_value n (t @ r) = Inr (v, r)"
  "seps_ok i k \<Longrightarrow> dumps_items i k vs = Inr t \<Longrightarrow> list_all json_ok vs \<Longrightarrow> vs \<noteq> [] \<Longrightarrow> length t + 1 < n \<Longrightarrow>
      parse_items n (t @ 93 # r) = Inr (vs, r) \<and> (\<exists>c t'. t = c # t' \<and> c \<noteq> 93 \<and> \<not> is_ws c)"
  "seps_ok i k \<Longrightarrow> dumps_pairs i k d = Inr t \<Longrightarrow> list_all (\<lambda>(k, v). list_all scalar k \<and> json_ok v) d \<Longrightarrow>
      d \<noteq> [] \<Longrightarrow> length t + 1 < n \<Longrightarrow>
      \<exists>t'. t = 34 # t' \<and> parse_pairs n (t' @ 125 # r) = Inr (d, r)"
proof (induction i k v and i k vs and i k d arbitrary: t n r and t n r and t n r
    rule: dumps_with_dumps_items_dumps_pairs.induct)
  case (1 i k)
  then show ?case
    using after_lit [of "''null''" r] by (cases n) (auto simp: parse_atom_def lit_def)
next
  case (2 i k b)
  then show ?case
    using after_lit [of "''true''" r] after_lit [of "''false''" r]
    by (cases n) (auto simp: parse_atom_def after_hd lit_def)
next
  case (3 i k n)
  then show ?case by (auto intro: parse_value_number parse_number_dec_int)
next
  case (4 i k x)
  then show ?case by (auto simp: float_ok_def intro!: parse_value_number)
next
  case (5 i k s)
  then show ?case
    by (cases n) (auto simp: dumps_str_def parse_string_escape_str)
next
  case (6 i k b)
  then show ?case by simp
next
  case (7 i k vs)
  then obtain t' where t': "dumps_items i k vs = Inr t'" "t = 91 # t' @ [93]"
    by (auto simp: bindR_Inr_iff)
  obtain m where m: "n = Suc m" using "7.prems" by (cases n) auto
  show ?case
  proof (cases "vs = []")
    case True
    with t' m show ?thesis by (simp add: is_ws_def)
  next
    case False
    have "length t' + 1 < m" using "7.prems" t' m by simp
    with "7.IH" [OF "7.prems"(1) t'(1) _ False, of m r] "7.prems"
    obtain c t'' where p: "parse_items m (t' @ 93 # r) = Inr (vs, r)"
      and c: "t' = c # t''" "c \<noteq> 93" "\<not> is_ws c" by auto
    with t' m show ?thesis by simp
  qed
next
  case (8 i k d)
  then obtain t' where t': "dumps_pairs i k d = Inr t'" "t = 123 # t' @ [125]"
    by (auto simp: bindR_Inr_iff)
  obtain m where m: "n = Suc m" using "8.prems" by (cases n) auto
  show ?case
  proof (cases "d = []")
    case True
    with t' m show ?thesis by (simp add: is_ws_def)
  next
    case False
    have "length t' + 1 < m" using "8.prems" t' m by simp
    with "8.IH" [OF "8.prems"(1) t'(1) _ False, of m r] "8.prems"
    obtain t'' where c: "t' = 34 # t''" and p: "parse_pairs m (t'' @ 125 # r) = Inr (d, r)" by auto
    have "dict_of_pairs d = d" using "8.prems" by (auto intro: dict_of_pairs_distinct)
    with t' m c p show ?thesis by (simp add: is_ws_def)
  qed
next
  case (9 i k)
  then show ?case by simp
next
  case (10 i k v vs)
  from "10.prems"(1) obtain w1 where i: "i = 44 # w1" "list_all is_ws w1" by (unfold seps_ok_def) blast
  obtain m where m: "n = Suc m" using "10.prems" by (cases n) auto
  from "10.prems" obtain t1 where t1: "dumps_with i k v = Inr t1" by (auto simp: bindR_Inr_iff)
  have v: "json_ok v" and vs: "list_all json_ok vs" using "10.prems" by auto
  note first = skip_ws_dumps(2) [OF t1 v]
  show ?case
  proof (cases "vs = []")
    case True
    with "10.prems" t1 m have "parse_value m (t1 @ 93 # r) = Inr (v, 93 # r)"
      by (intro "10.IH"(1)) (auto intro: stops_sep)
    with True "10.prems" t1 m first show ?thesis by (auto simp: is_ws_def)
  next
    case False
    with "10.prems" t1 obtain u where u: "dumps_items i k vs = Inr u" and t: "t = t1 @ i @ u"
      by (auto simp: bindR_Inr_iff)
    have l: "length t1 < m" "length u + 1 < m" using "10.prems"(5) m t i by auto
    have p1: "parse_value m (t1 @ 44 # w1 @ u @ 93 # r) = Inr (v, 44 # w1 @ u @ 93 # r)"
      using t1 v l "10.prems"(1) by (intro "10.IH"(1)) (auto intro: stops_sep)
    from "10.IH"(2) [OF False "10.prems"(1) u vs False l(2), of r]
    have p2: "parse_items m (u @ 93 # r) = Inr (vs, r)" and "skip_ws (u @ 93 # r) = u @ 93 # r"
      by auto
    with p1 m t i first show ?thesis by (auto simp: is_ws_def skip_ws_append)
  qed
next
  case (11 i k)
  then show ?case by simp
next
  case (12 i k s v d)
  from "12.prems"(1) obtain w1 w2 where i: "i = 44 # w1" "list_all is_ws w1"
    and k: "k = 58 # w2" "list_all is_ws w2" by (unfold seps_ok_def) blast
  obtain m where m: "n = Suc m" using "12.prems" by (cases n) auto
  from "12.prems" obtain t1 where t1: "dumps_with i k v = Inr t1" by (auto simp: bindR_Inr_iff)
  have v: "json_ok v" and s: "list_all scalar s"
    and d: "list_all (\<lambda>(k, v). list_all scalar k \<and> json_ok v) d" using "12.prems" by auto
  have p0: "parse_string (escape_str s @ 34 # x) = Inr (s, x)" for x
    by (rule parse_string_escape_str [OF s])
  have sk: "skip_ws (w2 @ t1 @ x) = t1 @ x" for x
    using skip_ws_dumps(1) [OF t1 v] k by (simp add: skip_ws_append)
  show ?case
  proof (cases "d = []")
    case True
    with "12.prems" t1 have t: "t = dumps_str s @ k @ t1" by simp
    have "parse_value m (t1 @ 125 # r) = Inr (v, 125 # r)"
      using t1 v "12.prems"(1,5) m t k by (intro "12.IH"(1)) (auto intro: stops_sep simp: dumps_str_def)
    with True t k m p0 sk show ?thesis by (simp add: dumps_str_def is_ws_def)
  next
    case False
    with "12.prems" t1 obtain u where u: "dumps_pairs i k d = Inr u"
      and t: "t = dumps_str s @ k @ t1 @ i @ u"
      by (auto simp: bindR_Inr_iff)
    have l: "length t1 < m" "length u + 1 < m"
      using "12.prems"(5) m t i k by (auto simp: dumps_str_def)
    have p1: "parse_value m (t1 @ 44 # w1 @ x) = Inr (v, 44 # w1 @ x)" for x
      using t1 v l "12.prems"(1) by (intro "12.IH"(1)) (auto intro: stops_sep)
    from "12.IH"(2) [OF False "12.prems"(1) u d False l(2), of r]
    obtain u' where u': "u = 34 # u'" and p2: "parse_pairs m (u' @ 125 # r) = Inr (d, r)" by auto
    have "skip_ws (w1 @ u @ 125 # r) = u @ 125 # r"
      using i u' by (simp add: skip_ws_append is_ws_def)
    with t i k m p0 p1 p2 sk u' show ?thesis
      by (simp add: dumps_str_def is_ws_def skip_ws_append)
  qed
qed

text \<open>Printing, then parsing the whole text, gives the value back.\<close>

lemma loads_dumps_with:
  assumes "seps_ok i k" and "dumps_with i k v = Inr t" and "json_ok v"
  shows "loads t = Inr v"
proof -
  obtain c t' where t: "t = c # t'" "c \<noteq> 93" "\<not> is_ws c"
    using skip_ws_dumps(2) [OF assms(2,3)] by blast
  have p: "parse_value (Suc (2 * length t)) (t @ []) = Inr (v, [])"
    using assms by (intro parse_dumps) (auto simp: stops_def)
  have "c \<noteq> 0xFEFF"
  proof
    assume "c = 0xFEFF"
    then have "parse_value (Suc (2 * length t)) t = Inl JSONDecodeError"
      using t by (simp add: parse_atom_def parse_constant_def after_hd parse_number_def number_int_def is_digit_def)
    with p show False by simp
  qed
  with p t show ?thesis by (simp add: loads_def)
qed

lemma seps_ok_compact: "seps_ok (lit '','') (lit '':'')"
  by (simp add: seps_ok_def lit_def)

lemma seps_ok_default: "seps_ok (lit '', '') (lit '': '')"
  by (simp add: seps_ok_def lit_def is_ws_def)

interpretation json_default: codec dumps loads json_ok
  by unfold_locales (auto simp: dumps_def intro: loads_dumps_with [OF seps_ok_default])

interpretation json_compact: codec dumps_compact loads json_ok
  by unfold_locales (auto simp: dumps_compact_def intro: loads_dumps_with [OF seps_ok_compact])

text \<open>Every value without byte strings prints.\<close>

lemma dumps_total:
  "json_ok v \<Longrightarrow> \<exists>t. dumps_with i k v = Inr t"
  "list_all json_ok vs \<Longrightarrow> \<exists>t. dumps_items i k vs = Inr t"
  "list_all (\<lambda>(k, v). list_all scalar k \<and> json_ok v) d \<Longrightarrow> \<exists>t. dumps_pairs i k d = Inr t"
  by (induction i k v and i k vs and i k d rule: dumps_with_dumps_items_dumps_pairs.induct)
    (auto simp: bindR_Inr_iff)

section \<open>Printed text can be encoded\<close>

lemma utf8_encode_scalar: "list_all scalar s \<Longrightarrow> \<exists>b. utf8_encode s = Inr b"
  by (induction s) (auto simp: utf8_char_def scalar_def)

lemma escape_char_scalar: "list_all scalar (escape_char c)"
proof -
  have d: "scalar (hex_digit (n mod 16))" for n
  proof -
    have "n mod 16 < 16" by simp
    then have "hex_digit (n mod 16) < 128" unfolding hex_digit_def by presburger
    then show ?thesis by (simp add: scalar_def is_surrogate_def)
  qed
  have u: "list_all scalar (u_escape n)" for n
    unfolding u_escape_def by (simp add: d) (simp add: scalar_def is_surrogate_def)
  have "list_all scalar [c]" if "c \<le> 126"
    using that by (simp add: scalar_def is_surrogate_def)
  then show ?thesis using u unfolding escape_char_def
    by (auto simp: scalar_def is_surrogate_def)
qed

lemma dumps_str_scalar: "list_all scalar (dumps_str s)"
proof -
  have "list_all scalar (escape_str s)"
    by (induction s) (simp_all add: escape_str_def escape_char_scalar)
  then show ?thesis by (simp add: dumps_str_def scalar_def is_surrogate_def)
qed

lemma scalar_small: "c < 256 \<Longrightarrow> scalar c"
  by (simp add: scalar_def is_surrogate_def)

lemma lit_scalar: "list_all scalar (lit s)"
proof -
  have "(of_char c :: nat) < 256" for c by simp
  then show ?thesis by (simp add: lit_def list_all_iff scalar_small)
qed

lemma dec_int_scalar: "list_all scalar (dec_int n)"
proof -
  have "scalar c" if "c \<in> set (dec_nat m)" for c m
    using dec_nat_digits [OF that] by (intro scalar_small) (simp add: is_digit_def)
  then show ?thesis by (auto simp: dec_int_def list_all_iff scalar_small)
qed

lemma dumps_scalar:
  assumes "list_all scalar i" "list_all scalar k"
  shows "dumps_with i k v = Inr t \<Longrightarrow> list_all scalar t"
    and "dumps_items i k vs = Inr t \<Longrightarrow> list_all scalar t"
    and "dumps_pairs i k d = Inr t \<Longrightarrow> list_all scalar t"
  using assms
proof (induction i k v and i k vs and i k d arbitrary: t and t and t
    rule: dumps_with_dumps_items_dumps_pairs.induct)
qed (auto simp: bindR_Inr_iff lit_scalar dec_int_scalar dumps_str_scalar scalar_small split: if_splits)

text \<open>\<open>json.dumps(v, ...).encode("utf-8")\<close>\<close>

lemma dumps_utf8:
  assumes "json_ok v"
  shows "\<exists>t b. dumps v = Inr t \<and> utf8_encode t = Inr b"
    and "\<exists>t b. dumps_compact v = Inr t \<and> utf8_encode t = Inr b"
proof -
  obtain t u where t: "dumps v = Inr t" "dumps_compact v = Inr u"
    using dumps_total(1) [OF assms] unfolding dumps_def dumps_compact_def by metis
  then have "list_all scalar t" "list_all scalar u"
    using dumps_scalar(1) lit_scalar unfolding dumps_def dumps_compact_def by blast+
  with t show "\<exists>t b. dumps v = Inr t \<and> utf8_encode t = Inr b"
    "\<exists>t b. dumps_compact v = Inr t \<and> utf8_encode t = Inr b"
    using utf8_encode_scalar by blast+
qed
text \<open>\<open>json.dumps(v, separators=(",", ":")).encode("utf-8")\<close> and \<open>json.loads(b.decode("utf-8"))\<close>\<close>

definition json_encode :: "pyval \<Rightarrow> bytes res" where
  "json_encode v = bindR (dumps_compact v) utf8_encode"

definition json_decode :: "bytes \<Rightarrow> pyval res" where
  "json_decode b = bindR (utf8_decode b) loads"

interpretation json_bytes: codec json_encode json_decode json_ok
  by unfold_locales
    (auto simp: json_encode_def json_decode_def bindR_Inr_iff utf8_decode_encode dest: json_compact.dec_enc)

lemma json_encode_total: "json_ok v \<Longrightarrow> \<exists>b. json_encode v = Inr b"
  using dumps_utf8(2) [of v] by (auto simp: json_encode_def)

section \<open>Enough fuel\<close>

declare dropWhile_eq_Nil_conv [simp del]

lemma parse_string_shorter: "parse_string s = Inr (t, r) \<Longrightarrow> length r < length s"
proof (induction s arbitrary: t r rule: parse_string.induct)
  case (1 s)
  then show ?case
    by (subst (asm) (3) parse_string.simps)
      (fastforce simp: bindR_Inr_iff dest!: parse_escape_length
        split: list.splits if_splits option.splits)
qed

lemma parse_string_error: "parse_string s = Inl e \<Longrightarrow> e = JSONDecodeError"
proof (induction s rule: parse_string.induct)
  case (1 s)
  then show ?case
    by (subst (asm) (3) parse_string.simps)
      (auto simp: bindR_Inl_iff split: list.splits if_splits option.splits)
qed

lemma length_dropWhile_less [simp]:
  "length (dropWhile P s) < Suc (length s)" "length (dropWhile P s) < Suc (Suc (length s))"
  using length_dropWhile_le [of P s] by simp_all

lemma number_int_shorter: "number_int s = Some (t, r) \<Longrightarrow> length r < length s"
  by (cases s) (auto simp: number_int_def Let_def split: if_splits list.splits)

lemma number_frac_le: "number_frac s = (f, r) \<Longrightarrow> length r \<le> length s"
  by (auto simp: number_frac_def le_SucI length_dropWhile_le split: if_splits list.splits)

lemma number_exp_le: "number_exp s = (f, r) \<Longrightarrow> length r \<le> length s"
  by (auto simp: number_exp_def le_SucI length_dropWhile_le split: if_splits list.splits)

lemma parse_number_shorter: "parse_number s = Inr (v, r) \<Longrightarrow> length r < length s"
  by (auto simp: parse_number_def Let_def dest!: number_int_shorter number_frac_le number_exp_le
      split: option.splits prod.splits if_splits)

lemma after_shorter: "p \<noteq> [] \<Longrightarrow> after p s = Some r \<Longrightarrow> length r < length s"
  by (cases s; cases p) (auto simp: after_def lit_def split: if_splits)

lemma parse_atom_shorter: "parse_atom s = Inr (v, r) \<Longrightarrow> length r < length s"
  by (auto simp: parse_atom_def parse_constant_def dest: after_shorter [rotated] parse_number_shorter
      split: option.splits sum.splits)

lemma parse_atom_error: "parse_atom s = Inl e \<Longrightarrow> e = JSONDecodeError"
  by (auto simp: parse_atom_def parse_constant_def split: option.splits sum.splits)

lemma skip_ws_shorter: "skip_ws s = c # r \<Longrightarrow> length r < length s"
  using length_dropWhile_le [of is_ws s] by simp

lemma parse_itemsE:
  assumes "parse_items (Suc n) s = Inr (vs, r)"
  obtains v x where "parse_value n s = Inr (v, x)" "skip_ws x = 93 # r" "vs = [v]"
    | v x r1 ws where "parse_value n s = Inr (v, x)" "skip_ws x = 44 # r1"
      "parse_items n (skip_ws r1) = Inr (ws, r)" "vs = v # ws"
proof -
  obtain v x where "parse_value n s = Inr (v, x)"
    using assms by (cases "parse_value n s") auto
  with assms that show thesis
    by (cases "skip_ws x") (auto simp: bindR_Inr_iff split: if_split_asm)
qed

lemma parse_pairsE:
  assumes "parse_pairs (Suc n) s = Inr (d, r)"
  obtains k x r1 v r2 where "parse_string s = Inr (k, x)" "skip_ws x = 58 # r1"
      "parse_value n (skip_ws r1) = Inr (v, r2)" "skip_ws r2 = 125 # r" "d = [(k, v)]"
    | k x r1 v r2 r3 r4 e where "parse_string s = Inr (k, x)" "skip_ws x = 58 # r1"
      "parse_value n (skip_ws r1) = Inr (v, r2)" "skip_ws r2 = 44 # r3" "skip_ws r3 = 34 # r4"
      "parse_pairs n r4 = Inr (e, r)" "d = (k, v) # e"
proof -
  obtain k x where k: "parse_string s = Inr (k, x)"
    using assms by (cases "parse_string s") auto
  with assms obtain r1 where r1: "skip_ws x = 58 # r1"
    by (cases "skip_ws x") (auto split: if_split_asm)
  with assms k obtain v r2 where v: "parse_value n (skip_ws r1) = Inr (v, r2)"
    by (cases "parse_value n (skip_ws r1)") auto
  with assms k r1 obtain c r3 where "skip_ws r2 = c # r3" "c = 125 \<or> c = 44"
    by (cases "skip_ws r2") (auto split: if_split_asm)
  with assms k r1 v that show thesis
    by (cases "skip_ws r3") (auto simp: bindR_Inr_iff split: if_split_asm)
qed

lemma parse_valueE:
  assumes "parse_value (Suc n) s = Inr (v, r)"
  obtains s1 t where "s = 34 # s1" "parse_string s1 = Inr (t, r)" "v = PStr t"
    | s1 r1 d where "s = 123 # s1" "skip_ws s1 = 34 # r1" "parse_pairs n r1 = Inr (d, r)" "v = PDict (dict_of_pairs d)"
    | s1 where "s = 123 # s1" "skip_ws s1 = 125 # r" "v = PDict []"
    | s1 where "s = 91 # s1" "skip_ws s1 = 93 # r" "v = PList []"
    | s1 r1 vs where "s = 91 # s1" "skip_ws s1 = r1" "parse_items n r1 = Inr (vs, r)" "v = PList vs"
    | "parse_atom s = Inr (v, r)"
proof (cases s)
  case (Cons c s1)
  with assms that show thesis
    by (cases "skip_ws s1") (auto simp: bindR_Inr_iff split: if_split_asm)
qed (use assms in simp)

lemma parse_shorter_all:
  "(\<forall>s v r. parse_value n s = Inr (v, r) \<longrightarrow> length r < length s) \<and>
   (\<forall>s vs r. parse_items n s = Inr (vs, r) \<longrightarrow> length r < length s) \<and>
   (\<forall>s d r. parse_pairs n s = Inr (d, r) \<longrightarrow> length r < length s)"
proof (induction n)
  case (Suc n)
  note drop = length_dropWhile_le [of is_ws]
  have V: "\<And>s v r. parse_value n s = Inr (v, r) \<Longrightarrow> length r < length s"
    and I: "\<And>s vs r. parse_items n s = Inr (vs, r) \<Longrightarrow> length r < length s"
    and P: "\<And>s d r. parse_pairs n s = Inr (d, r) \<Longrightarrow> length r < length s"
    using Suc by blast+
  have "length r < length s" if "parse_value (Suc n) s = Inr (v, r)" for s v r
    using that
  proof (cases rule: parse_valueE)
    case (1 s1 t)
    with parse_string_shorter [OF 1(2)] show ?thesis by simp
  next
    case (2 s1 r1 d)
    with P [OF 2(3)] skip_ws_shorter [OF 2(2)] show ?thesis by simp
  next
    case (5 s1 r1 vs)
    with I [OF 5(3)] drop [of s1] show ?thesis by simp
  qed (use parse_atom_shorter skip_ws_shorter in fastforce)+
  moreover have "length r < length s" if "parse_items (Suc n) s = Inr (vs, r)" for s vs r
    using that
  proof (cases rule: parse_itemsE)
    case (1 v x)
    with V [OF 1(1)] skip_ws_shorter [OF 1(2)] show ?thesis by simp
  next
    case (2 v x r1 ws)
    with V [OF 2(1)] I [OF 2(3)] skip_ws_shorter [OF 2(2)] drop [of r1] show ?thesis by simp
  qed
  moreover have "length r < length s" if "parse_pairs (Suc n) s = Inr (d, r)" for s d r
    using that
  proof (cases rule: parse_pairsE)
    case (1 k x r1 v r2)
    with V [OF 1(3)] skip_ws_shorter [OF 1(2)] skip_ws_shorter [OF 1(4)] drop [of r1]
      parse_string_shorter [OF 1(1)]
    show ?thesis by simp
  next
    case (2 k x r1 v r2 r3 r4 e)
    with V [OF 2(3)] P [OF 2(6)] skip_ws_shorter [OF 2(2)]
      skip_ws_shorter [OF 2(4)] skip_ws_shorter [OF 2(5)] drop [of r1]
      parse_string_shorter [OF 2(1)]
    show ?thesis by simp
  qed
  ultimately show ?case by blast
qed simp

lemma parse_value_shorter: "parse_value n s = Inr (v, r) \<Longrightarrow> length r < length s"
  using parse_shorter_all [of n] by blast

lemma parse_fuel_all:
  "(\<forall>s e. 2 * length s < n \<longrightarrow> parse_value n s = Inl e \<longrightarrow> e = JSONDecodeError) \<and>
   (\<forall>s e. 2 * length s + 1 < n \<longrightarrow> parse_items n s = Inl e \<longrightarrow> e = JSONDecodeError) \<and>
   (\<forall>s e. 2 * length s + 1 < n \<longrightarrow> parse_pairs n s = Inl e \<longrightarrow> e = JSONDecodeError)"
proof (induction n)
  case (Suc n)
  note drop = length_dropWhile_le [of is_ws]
  have V: "\<And>s e. parse_value n s = Inl e \<Longrightarrow> 2 * length s < n \<Longrightarrow> e = JSONDecodeError"
    and I: "\<And>s e. parse_items n s = Inl e \<Longrightarrow> 2 * length s + 1 < n \<Longrightarrow> e = JSONDecodeError"
    and P: "\<And>s e. parse_pairs n s = Inl e \<Longrightarrow> 2 * length s + 1 < n \<Longrightarrow> e = JSONDecodeError"
    using Suc by blast+
  have "e = JSONDecodeError" if l: "2 * length s < Suc n" and e: "parse_value (Suc n) s = Inl e" for s e
  proof (cases s)
    case (Cons c s1)
    show ?thesis
    proof (cases "skip_ws s1")
      case Nil
      with e Cons show ?thesis
        by (auto simp: bindR_Inl_iff parse_string_error parse_atom_error split: if_split_asm)
    next
      case (Cons d r1)
      then have "2 * length r1 + 1 < n" "2 * length (d # r1) + 1 < n"
        using l \<open>s = c # s1\<close> skip_ws_shorter [OF Cons] drop [of s1] by simp_all
      with e Cons \<open>s = c # s1\<close> P [of r1 e] I [of "d # r1" e] show ?thesis
        by (auto simp: bindR_Inl_iff parse_string_error parse_atom_error split: if_split_asm)
    qed
  qed (use e in simp)
  moreover have "e = JSONDecodeError"
    if l: "2 * length s + 1 < Suc n" and e: "parse_items (Suc n) s = Inl e" for s e
  proof (cases "parse_value n s")
    case (Inl e')
    with l e V show ?thesis by simp
  next
    case (Inr vx)
    obtain v x where vx: "vx = (v, x)" by force
    show ?thesis
    proof (cases "skip_ws x")
      case (Cons d r1)
      have "2 * length (skip_ws r1) + 1 < n"
        using l parse_value_shorter [of n s v x] Inr vx skip_ws_shorter [OF Cons] drop [of r1]
        by simp
      with e Cons Inr vx I show ?thesis by (auto simp: bindR_Inl_iff split: if_split_asm)
    qed (use e Inr vx in simp)
  qed
  moreover have "e = JSONDecodeError"
    if l: "2 * length s + 1 < Suc n" and e: "parse_pairs (Suc n) s = Inl e" for s e
  proof (cases "parse_string s")
    case (Inl e')
    with e parse_string_error [OF Inl] show ?thesis by simp
  next
    case (Inr kx)
    obtain k x where kx: "kx = (k, x)" by force
    note lx = parse_string_shorter [OF Inr [unfolded kx]]
    show ?thesis
    proof (cases "skip_ws x")
      case (Cons d r1)
      note lr = skip_ws_shorter [OF Cons] drop [of r1]
      show ?thesis
      proof (cases "parse_value n (skip_ws r1)")
        case Inl
        with l lx lr e V [OF Inl] \<open>skip_ws x = d # r1\<close> \<open>parse_string s = Inr kx\<close> kx show ?thesis
          by (auto split: if_split_asm)
      next
        case (Inr vr)
        obtain v r2 where vr: "vr = (v, r2)" by force
        note lv = parse_value_shorter [OF Inr [unfolded vr]]
        show ?thesis
        proof (cases "skip_ws r2 = [] \<or> skip_ws (tl (skip_ws r2)) = []")
          case True
          with e \<open>skip_ws x = d # r1\<close> \<open>parse_string s = Inr kx\<close> kx Inr vr show ?thesis
            by (cases "skip_ws r2") (auto split: if_split_asm)
        next
          case False
          then obtain c r3 q r4 where r: "skip_ws r2 = c # r3" "skip_ws r3 = q # r4"
            by (cases "skip_ws r2"; cases "skip_ws (tl (skip_ws r2))") auto
          have "2 * length r4 + 1 < n"
            using l lx lr lv skip_ws_shorter [OF r(1)] skip_ws_shorter [OF r(2)] by simp
          with e \<open>skip_ws x = d # r1\<close> \<open>parse_string s = Inr kx\<close> kx Inr vr r P show ?thesis
            by (auto simp: bindR_Inl_iff split: if_split_asm)
        qed
      qed
    qed (use e Inr kx in simp)
  qed
  ultimately show ?case by blast
qed simp

text \<open>So the fuel of \<open>loads\<close> never runs out: the only error is a decoding error.\<close>

lemma loads_fuel: "loads s = Inl e \<Longrightarrow> e = JSONDecodeError"
proof -
  assume "loads s = Inl e"
  then have "parse_value (Suc (2 * length s)) (skip_ws s) = Inl e \<or> e = JSONDecodeError"
    unfolding loads_def by (auto simp only: bindR_Inl_iff split: if_split_asm)
  then show ?thesis
    using parse_fuel_all [of "Suc (2 * length s)"] length_dropWhile_le [of is_ws s]
    by (meson le_imp_less_Suc mult_le_mono2)
qed

end
