(* ===== verification/Keys.thy ===== *)
theory Keys
  imports Kdf
begin

text \<open>
  core/keys.py: key pairs, one-time prekeys, the identity bundle with its two
  serialisations, generation, replenishment and hybrid signatures. The dataclasses are
  records of the same names; an X25519 private key is its 32 raw bytes. Identifiers are
  integers: a private bundle whose identifiers are not (the code writes none) is
  refused here when it is read.
\<close>

section \<open>Data\<close>

record KEMKeypair =
  kem_public_key :: bytes
  kem_secret_key :: bytes

record SigningKeypair =
  sig_public_key :: bytes
  sig_secret_key :: bytes
  ed25519_secret_key :: bytes

record X25519Keypair =
  x_private :: bytes

record X25519OneTimePrekey =
  xopk_id :: int
  xopk_public_key :: bytes
  xopk_secret_key :: bytes

record KEMOneTimePrekey =
  kopk_id :: int
  kopk_public_key :: bytes
  kopk_secret_key :: bytes

record SignedPrekey =
  spk_id :: int
  spk_keypair :: X25519Keypair
  spk_signature :: bytes

record IdentityBundle =
  user_id :: pystr
  ik_kem :: KEMKeypair
  ik_sig :: SigningKeypair
  ik_classical :: X25519Keypair
  spk :: SignedPrekey
  x25519_opks :: "X25519OneTimePrekey list"
  kem_opks :: "KEMOneTimePrekey list"

section \<open>Key pairs\<close>

definition public_key_bytes :: "crypto \<Rightarrow> X25519Keypair \<Rightarrow> bytes" where
  "public_key_bytes L kp = x25519_public L (x_private kp)"

definition private_key_bytes :: "X25519Keypair \<Rightarrow> bytes" where
  "private_key_bytes kp = x_private kp"

definition dh :: "crypto \<Rightarrow> X25519Keypair \<Rightarrow> bytes \<Rightarrow> bytes res" where
  "dh L kp peer_public_bytes =
     (if length peer_public_bytes \<noteq> 32 then Inl (ValueError ''X25519 public key must be 32 bytes'')
      else x25519_exchange L (x_private kp) peer_public_bytes)"

definition x25519_generate_keypair :: "crypto \<Rightarrow> (entropy, X25519Keypair) eff" where
  "x25519_generate_keypair L = bindE (drawE (x25519_generate L)) (\<lambda>a. returnE \<lparr>x_private = a\<rparr>)"

definition from_private_bytes :: "crypto \<Rightarrow> bytes \<Rightarrow> X25519Keypair res" where
  "from_private_bytes L b = bindR (x25519_load L b) (\<lambda>a. Inr \<lparr>x_private = a\<rparr>)"

definition hybrid_sign :: "crypto \<Rightarrow> SigningKeypair \<Rightarrow> bytes \<Rightarrow> (entropy, bytes) eff" where
  "hybrid_sign L kp message =
     bindE (liftE (ed25519_load L (ed25519_secret_key kp))) (\<lambda>ed_priv.
     let ed_sig = ed25519_sign L ed_priv message in
     bindE (dsa_sign L (sig_secret_key kp) message) (\<lambda>dsa_sig.
     returnE (ed_sig @ dsa_sig)))"

section \<open>Hybrid signatures\<close>

definition verify_hybrid_signature :: "crypto \<Rightarrow> bytes \<Rightarrow> bytes \<Rightarrow> bytes \<Rightarrow> bool res" where
  "verify_hybrid_signature L message signature ik_sig_pub =
     (if length ik_sig_pub \<noteq> HYBRID_PUBLIC_KEY_LEN then Inl MalformedSignedCiphertextError
      else if length signature \<noteq> HYBRID_SIGNATURE_LEN then Inl MalformedSignedCiphertextError
      else
       (let ed_pub_bytes = take ED25519_PUBLIC_KEY_LEN ik_sig_pub;
            dsa_pub_bytes = drop ED25519_PUBLIC_KEY_LEN ik_sig_pub;
            ed_sig = take ED25519_SIGNATURE_LEN signature;
            dsa_sig = drop ED25519_SIGNATURE_LEN signature;
            ed_ok = (case ed25519_verify L ed_pub_bytes ed_sig message of Inl e \<Rightarrow> False | Inr _ \<Rightarrow> True);
            dsa_ok = (case dsa_verify L message dsa_sig dsa_pub_bytes of Inl e \<Rightarrow> False | Inr b \<Rightarrow> b)
        in Inr (ed_ok \<and> dsa_ok)))"

definition verify_spk_signature :: "crypto \<Rightarrow> bytes \<Rightarrow> bytes \<Rightarrow> bytes \<Rightarrow> bool res" where
  "verify_spk_signature L spk_pub signature ik_sig_pub =
     verify_hybrid_signature L spk_pub signature ik_sig_pub"

section \<open>Generation\<close>

definition assert_opk_lists_valid ::
    "X25519OneTimePrekey list \<Rightarrow> KEMOneTimePrekey list \<Rightarrow> unit res" where
  "assert_opk_lists_valid xs ks =
     bindR (guardR (length xs = length ks) AssertionError) (\<lambda>_.
       guardR (list_all (\<lambda>(x, k). xopk_id x = kopk_id k) (zip xs ks)) AssertionError)"

text \<open>The start-up check of key and ciphertext sizes.\<close>

definition assert_key_sizes :: "crypto \<Rightarrow> (entropy, unit) eff" where
  "assert_key_sizes L =
     bindE (drawE (kem_keypair L)) (\<lambda>(pub, _).
     bindE (kem_encap L pub) (\<lambda>(ct, _).
     bindE (guardE (length pub = KEM_PUBLIC_KEY_LEN) AssertionError) (\<lambda>_.
     bindE (guardE (length ct = KEM_CIPHERTEXT_LEN) AssertionError) (\<lambda>_.
     bindE (drawE (dsa_keypair L)) (\<lambda>(pub, sec).
     bindE (dsa_sign L sec (blit ''probe'')) (\<lambda>s.
     bindE (guardE (length pub = DSA_PUBLIC_KEY_LEN) AssertionError) (\<lambda>_.
     guardE (length s = DSA_SIGNATURE_LEN) AssertionError)))))))"

definition generate_kem_keypair :: "crypto \<Rightarrow> (entropy, KEMKeypair) eff" where
  "generate_kem_keypair L = bindE (drawE (kem_keypair L)) (\<lambda>(public_key, secret_key).
     returnE \<lparr>kem_public_key = public_key, kem_secret_key = secret_key\<rparr>)"

definition generate_signing_keypair :: "crypto \<Rightarrow> (entropy, SigningKeypair) eff" where
  "generate_signing_keypair L =
     bindE (drawE (ed25519_generate L)) (\<lambda>ed_priv.
     bindE (drawE (dsa_keypair L)) (\<lambda>(dsa_pub, dsa_sec).
     returnE \<lparr>sig_public_key = ed25519_public L ed_priv @ dsa_pub, sig_secret_key = dsa_sec,
       ed25519_secret_key = ed_priv\<rparr>))"

definition generate_signed_prekey ::
    "crypto \<Rightarrow> SigningKeypair \<Rightarrow> int \<Rightarrow> (entropy, SignedPrekey) eff" where
  "generate_signed_prekey L signing_keypair i =
     bindE (x25519_generate_keypair L) (\<lambda>kp.
     bindE (hybrid_sign L signing_keypair (public_key_bytes L kp)) (\<lambda>signature.
     returnE \<lparr>spk_id = i, spk_keypair = kp, spk_signature = signature\<rparr>))"

text \<open>The loops \<open>for i in range(count)\<close>, by recursion on the remaining count.\<close>

fun x25519_opk_loop :: "crypto \<Rightarrow> nat \<Rightarrow> int \<Rightarrow> (entropy, X25519OneTimePrekey list) eff" where
  "x25519_opk_loop L 0 i = returnE []"
| "x25519_opk_loop L (Suc n) i =
     bindE (x25519_generate_keypair L) (\<lambda>kp.
     bindE (x25519_opk_loop L n (i + 1)) (\<lambda>rest.
     returnE (\<lparr>xopk_id = i, xopk_public_key = public_key_bytes L kp,
       xopk_secret_key = private_key_bytes kp\<rparr> # rest)))"

fun kem_opk_loop :: "crypto \<Rightarrow> nat \<Rightarrow> int \<Rightarrow> (entropy, KEMOneTimePrekey list) eff" where
  "kem_opk_loop L 0 i = returnE []"
| "kem_opk_loop L (Suc n) i =
     bindE (drawE (kem_keypair L)) (\<lambda>(pub, sec).
     bindE (kem_opk_loop L n (i + 1)) (\<lambda>rest.
     returnE (\<lparr>kopk_id = i, kopk_public_key = pub, kopk_secret_key = sec\<rparr> # rest)))"

definition generate_x25519_one_time_prekeys ::
    "crypto \<Rightarrow> int \<Rightarrow> int \<Rightarrow> (entropy, X25519OneTimePrekey list) eff" where
  "generate_x25519_one_time_prekeys L count start_id = x25519_opk_loop L (nat count) start_id"

definition generate_kem_one_time_prekeys ::
    "crypto \<Rightarrow> int \<Rightarrow> int \<Rightarrow> (entropy, KEMOneTimePrekey list) eff" where
  "generate_kem_one_time_prekeys L count start_id = kem_opk_loop L (nat count) start_id"

definition generate_opk_pairs ::
    "crypto \<Rightarrow> int \<Rightarrow> int \<Rightarrow> (entropy, X25519OneTimePrekey list \<times> KEMOneTimePrekey list) eff" where
  "generate_opk_pairs L count start_id =
     bindE (generate_x25519_one_time_prekeys L count start_id) (\<lambda>xs.
     bindE (generate_kem_one_time_prekeys L count start_id) (\<lambda>ks.
     bindE (liftE (assert_opk_lists_valid xs ks)) (\<lambda>_.
     returnE (xs, ks))))"

text \<open>The dataclass constructor, whose \<open>__post_init__\<close> checks the pairing.\<close>

definition new_identity_bundle :: "IdentityBundle \<Rightarrow> IdentityBundle res" where
  "new_identity_bundle b =
     bindR (assert_opk_lists_valid (x25519_opks b) (kem_opks b)) (\<lambda>_. Inr b)"

definition generate_identity_bundle :: "crypto \<Rightarrow> pystr \<Rightarrow> int \<Rightarrow> (entropy, IdentityBundle) eff" where
  "generate_identity_bundle L uid opk_count =
     bindE (generate_kem_keypair L) (\<lambda>ikk.
     bindE (generate_signing_keypair L) (\<lambda>iks.
     bindE (x25519_generate_keypair L) (\<lambda>ikc.
     bindE (generate_signed_prekey L iks 1) (\<lambda>sp.
     bindE (generate_opk_pairs L opk_count 1) (\<lambda>(xs, ks).
     liftE (new_identity_bundle \<lparr>user_id = uid, ik_kem = ikk, ik_sig = iks, ik_classical = ikc,
       spk = sp, x25519_opks = xs, kem_opks = ks\<rparr>))))))"

definition replenish_one_time_prekeys ::
    "crypto \<Rightarrow> X25519OneTimePrekey list \<Rightarrow> KEMOneTimePrekey list \<Rightarrow> int \<Rightarrow>
      (entropy, X25519OneTimePrekey list \<times> KEMOneTimePrekey list) eff" where
  "replenish_one_time_prekeys L existing_x25519 existing_kem target_count =
     (if existing_x25519 = [] \<and> existing_kem = [] then generate_opk_pairs L target_count 1
      else
        bindE (liftE (assert_opk_lists_valid existing_x25519 existing_kem)) (\<lambda>_.
        let highest_x25519 = (if existing_x25519 = [] then 0 else Max (set (map xopk_id existing_x25519)));
            highest_kem = (if existing_kem = [] then 0 else Max (set (map kopk_id existing_kem)));
            highest_id = max highest_x25519 highest_kem;
            current_count = min (int (length existing_x25519)) (int (length existing_kem));
            shortfall = target_count - current_count in
        if shortfall \<le> 0 then returnE ([], [])
        else generate_opk_pairs L shortfall (highest_id + 1)))"

section \<open>Serialisation\<close>

definition hex_field :: "pydict \<Rightarrow> string \<Rightarrow> bytes res" where
  "hex_field d k = bindR (dict_item d k) fromhex_val"

fun as_int :: "pyval \<Rightarrow> int res" where
  "as_int (PInt n) = Inr n"
| "as_int _ = Inl TypeError"

definition int_field :: "pydict \<Rightarrow> string \<Rightarrow> int res" where
  "int_field d k = bindR (dict_item d k) as_int"

definition public_opk :: "int \<Rightarrow> bytes \<Rightarrow> pyval" where
  "public_opk i pub = PDict [(lit ''opk_id'', PInt i), (lit ''opk_pub'', PHex pub)]"

definition private_opk :: "int \<Rightarrow> bytes \<Rightarrow> bytes \<Rightarrow> pyval" where
  "private_opk i pub sec =
     PDict [(lit ''opk_id'', PInt i), (lit ''opk_pub'', PHex pub), (lit ''opk_sec'', PHex sec)]"

definition to_public_bundle :: "crypto \<Rightarrow> IdentityBundle \<Rightarrow> pydict res" where
  "to_public_bundle L b =
     bindR (assert_opk_lists_valid (x25519_opks b) (kem_opks b)) (\<lambda>_. Inr
      [(lit ''user_id'', PStr (user_id b)),
       (lit ''ik_kem_pub'', PHex (kem_public_key (ik_kem b))),
       (lit ''ik_sig_pub'', PHex (sig_public_key (ik_sig b))),
       (lit ''ik_classical_pub'', PHex (public_key_bytes L (ik_classical b))),
       (lit ''spk_id'', PInt (spk_id (spk b))),
       (lit ''spk_pub'', PHex (public_key_bytes L (spk_keypair (spk b)))),
       (lit ''spk_sig'', PHex (spk_signature (spk b))),
       (lit ''opks_x25519'', PList (map (\<lambda>o1. public_opk (xopk_id o1) (xopk_public_key o1)) (x25519_opks b))),
       (lit ''opks_kem'', PList (map (\<lambda>o1. public_opk (kopk_id o1) (kopk_public_key o1)) (kem_opks b)))])"

definition to_private_bundle :: "crypto \<Rightarrow> IdentityBundle \<Rightarrow> pydict res" where
  "to_private_bundle L b =
     bindR (assert_opk_lists_valid (x25519_opks b) (kem_opks b)) (\<lambda>_. Inr
      [(lit ''user_id'', PStr (user_id b)),
       (lit ''ik_kem_pub'', PHex (kem_public_key (ik_kem b))),
       (lit ''ik_kem_sec'', PHex (kem_secret_key (ik_kem b))),
       (lit ''ik_sig_pub'', PHex (sig_public_key (ik_sig b))),
       (lit ''ik_sig_sec'', PHex (sig_secret_key (ik_sig b))),
       (lit ''ik_sig_ed25519_sec'', PHex (ed25519_secret_key (ik_sig b))),
       (lit ''ik_classical_pub'', PHex (public_key_bytes L (ik_classical b))),
       (lit ''ik_classical_sec'', PHex (private_key_bytes (ik_classical b))),
       (lit ''spk_id'', PInt (spk_id (spk b))),
       (lit ''spk_pub'', PHex (public_key_bytes L (spk_keypair (spk b)))),
       (lit ''spk_sec'', PHex (private_key_bytes (spk_keypair (spk b)))),
       (lit ''spk_sig'', PHex (spk_signature (spk b))),
       (lit ''opks_x25519'', PList (map (\<lambda>o1. private_opk (xopk_id o1) (xopk_public_key o1)
          (xopk_secret_key o1)) (x25519_opks b))),
       (lit ''opks_kem'', PList (map (\<lambda>o1. private_opk (kopk_id o1) (kopk_public_key o1)
          (kopk_secret_key o1)) (kem_opks b)))])"

definition load_x25519_opk :: "pyval \<Rightarrow> X25519OneTimePrekey res" where
  "load_x25519_opk v = bindR (as_dict v) (\<lambda>o1. bindR (int_field o1 ''opk_id'') (\<lambda>i.
     bindR (hex_field o1 ''opk_pub'') (\<lambda>pub. bindR (hex_field o1 ''opk_sec'') (\<lambda>sec.
     Inr \<lparr>xopk_id = i, xopk_public_key = pub, xopk_secret_key = sec\<rparr>))))"

definition load_kem_opk :: "pyval \<Rightarrow> KEMOneTimePrekey res" where
  "load_kem_opk v = bindR (as_dict v) (\<lambda>o1. bindR (int_field o1 ''opk_id'') (\<lambda>i.
     bindR (hex_field o1 ''opk_pub'') (\<lambda>pub. bindR (hex_field o1 ''opk_sec'') (\<lambda>sec.
     Inr \<lparr>kopk_id = i, kopk_public_key = pub, kopk_secret_key = sec\<rparr>))))"

definition from_private_bundle :: "crypto \<Rightarrow> pydict \<Rightarrow> IdentityBundle res" where
  "from_private_bundle L d =
     bindR (hex_field d ''ik_kem_pub'') (\<lambda>kpub. bindR (hex_field d ''ik_kem_sec'') (\<lambda>ksec.
     bindR (hex_field d ''ik_sig_pub'') (\<lambda>spub. bindR (hex_field d ''ik_sig_sec'') (\<lambda>ssec.
     bindR (hex_field d ''ik_sig_ed25519_sec'') (\<lambda>esec.
     bindR (bindR (hex_field d ''ik_classical_sec'') (from_private_bytes L)) (\<lambda>ikc.
     bindR (int_field d ''spk_id'') (\<lambda>sid.
     bindR (bindR (hex_field d ''spk_sec'') (from_private_bytes L)) (\<lambda>skp.
     bindR (hex_field d ''spk_sig'') (\<lambda>ssig.
     bindR (bindR (as_list (dict_get_or d ''opks_x25519'' (PList []))) (mapR load_x25519_opk)) (\<lambda>xs.
     bindR (bindR (as_list (dict_get_or d ''opks_kem'' (PList []))) (mapR load_kem_opk)) (\<lambda>ks.
     bindR (as_str (dict_get_or d ''user_id'' (PStr []))) (\<lambda>uid.
     new_identity_bundle \<lparr>user_id = uid,
       ik_kem = \<lparr>kem_public_key = kpub, kem_secret_key = ksec\<rparr>,
       ik_sig = \<lparr>sig_public_key = spub, sig_secret_key = ssec, ed25519_secret_key = esec\<rparr>,
       ik_classical = ikc, spk = \<lparr>spk_id = sid, spk_keypair = skp, spk_signature = ssig\<rparr>,
       x25519_opks = xs, kem_opks = ks\<rparr>))))))))))))"

section \<open>Lemmas: one-time prekeys\<close>

lemma list_all_zip_ids:
  "length xs = length ys \<Longrightarrow> list_all (\<lambda>(x, y). f x = g y) (zip xs ys) \<longleftrightarrow> map f xs = map g ys"
  by (induction xs ys rule: list_induct2) auto

lemma assert_opk_lists_valid_iff:
  "assert_opk_lists_valid xs ks = Inr u \<longleftrightarrow> map xopk_id xs = map kopk_id ks"
proof (cases "length xs = length ks")
  case True
  then show ?thesis by (simp add: assert_opk_lists_valid_def list_all_zip_ids)
next
  case False
  then have "map xopk_id xs \<noteq> map kopk_id ks" by (metis length_map)
  with False show ?thesis by (simp add: assert_opk_lists_valid_def)
qed

lemma x25519_generate_keypair_eq:
  "x25519_generate_keypair L t = (Inr \<lparr>x_private = fst (x25519_generate L t)\<rparr>, snd (x25519_generate L t))"
  by (simp add: x25519_generate_keypair_def drawE_def bindE_def split: prod.splits)

lemma x25519_opk_loop_ok:
  "\<exists>xs t'. x25519_opk_loop L n i t = (Inr xs, t') \<and> map xopk_id xs = map (\<lambda>j. i + int j) [0..<n] \<and>
     (\<forall>x\<in>set xs. xopk_public_key x = x25519_public L (xopk_secret_key x) \<and>
        (x25519_correct L \<longrightarrow> length (xopk_secret_key x) = 32))"
proof (induction n arbitrary: i t)
  case (Suc n)
  obtain a t1 where a: "x25519_generate L t = (a, t1)" by force
  obtain xs t' where xs: "x25519_opk_loop L n (i + 1) t1 = (Inr xs, t')"
    "map xopk_id xs = map (\<lambda>j. i + 1 + int j) [0..<n]"
    "\<forall>x\<in>set xs. xopk_public_key x = x25519_public L (xopk_secret_key x) \<and>
        (x25519_correct L \<longrightarrow> length (xopk_secret_key x) = 32)"
    using Suc [of "i + 1" t1] by blast
  have "map (\<lambda>j. i + int j) [0..<Suc n] = i # map (\<lambda>j. i + 1 + int j) [0..<n]"
    by (simp only: upt_conv_Cons [OF zero_less_Suc] map_Suc_upt [symmetric] list.map map_map)
      (simp add: comp_def algebra_simps)
  moreover have "length a = 32" if "x25519_correct L" using x25519_generate_length [OF that a] .
  ultimately show ?case using xs a
    by (simp add: x25519_generate_keypair_eq public_key_bytes_def private_key_bytes_def del: upt_Suc)
qed simp

lemma kem_opk_loop_ok:
  "\<exists>ks t'. kem_opk_loop L n i t = (Inr ks, t') \<and> map kopk_id ks = map (\<lambda>j. i + int j) [0..<n] \<and>
     (kem_correct L \<longrightarrow> (\<forall>k\<in>set ks. kem_pair L (kopk_public_key k) (kopk_secret_key k)))"
proof (induction n arbitrary: i t)
  case (Suc n)
  obtain pk sk t1 where a: "kem_keypair L t = ((pk, sk), t1)" by (metis prod.exhaust)
  obtain xs t' where xs: "kem_opk_loop L n (i + 1) t1 = (Inr xs, t')"
    "map kopk_id xs = map (\<lambda>j. i + 1 + int j) [0..<n]"
    "kem_correct L \<longrightarrow> (\<forall>k\<in>set xs. kem_pair L (kopk_public_key k) (kopk_secret_key k))"
    using Suc [of "i + 1" t1] by blast
  have "map (\<lambda>j. i + int j) [0..<Suc n] = i # map (\<lambda>j. i + 1 + int j) [0..<n]"
    by (simp only: upt_conv_Cons [OF zero_less_Suc] map_Suc_upt [symmetric] list.map map_map)
      (simp add: comp_def algebra_simps)
  moreover have "kem_pair L pk sk" if "kem_correct L" using that a by (auto simp: kem_correct_def)
  ultimately show ?case using xs a by (simp add: drawE_def del: upt_Suc)
qed simp

lemma generate_opk_pairs_ok:
  "\<exists>xs ks t'. generate_opk_pairs L n i t = (Inr (xs, ks), t') \<and>
     map xopk_id xs = map (\<lambda>j. i + int j) [0..<nat n] \<and> map kopk_id ks = map xopk_id xs \<and>
     (\<forall>x\<in>set xs. xopk_public_key x = x25519_public L (xopk_secret_key x) \<and>
        (x25519_correct L \<longrightarrow> length (xopk_secret_key x) = 32)) \<and>
     (kem_correct L \<longrightarrow> (\<forall>k\<in>set ks. kem_pair L (kopk_public_key k) (kopk_secret_key k)))"
proof -
  obtain xs t1 where xs: "x25519_opk_loop L (nat n) i t = (Inr xs, t1)"
    "map xopk_id xs = map (\<lambda>j. i + int j) [0..<nat n]"
    "\<forall>x\<in>set xs. xopk_public_key x = x25519_public L (xopk_secret_key x) \<and>
        (x25519_correct L \<longrightarrow> length (xopk_secret_key x) = 32)"
    using x25519_opk_loop_ok by blast
  obtain ks t2 where ks: "kem_opk_loop L (nat n) i t1 = (Inr ks, t2)"
    "map kopk_id ks = map (\<lambda>j. i + int j) [0..<nat n]"
    "kem_correct L \<longrightarrow> (\<forall>k\<in>set ks. kem_pair L (kopk_public_key k) (kopk_secret_key k))"
    using kem_opk_loop_ok by blast
  have "assert_opk_lists_valid xs ks = Inr ()" using xs(2) ks(2) by (simp add: assert_opk_lists_valid_iff)
  with xs ks show ?thesis
    by (simp add: generate_opk_pairs_def generate_x25519_one_time_prekeys_def
        generate_kem_one_time_prekeys_def)
qed

lemma distinct_id_range: "distinct (map (\<lambda>j. i + int j) [0..<n])"
  by (simp add: distinct_map inj_on_def)

section \<open>Lemmas: signatures\<close>

definition signing_ok :: "crypto \<Rightarrow> SigningKeypair \<Rightarrow> bool" where
  "signing_ok L kp \<longleftrightarrow> (\<exists>dsa_pub. sig_public_key kp = ed25519_public L (ed25519_secret_key kp) @ dsa_pub \<and>
     length (ed25519_secret_key kp) = 32 \<and> length dsa_pub = 2592 \<and>
     dsa_pair L dsa_pub (sig_secret_key kp))"

lemma hybrid_sign_verifies:
  assumes "ed25519_correct L" and "signing_ok L kp"
  shows "\<exists>s t'. hybrid_sign L kp m t = (Inr s, t') \<and> length s = HYBRID_SIGNATURE_LEN \<and>
    verify_hybrid_signature L m s (sig_public_key kp) = Inr True"
proof -
  obtain dsa_pub where kp: "sig_public_key kp = ed25519_public L (ed25519_secret_key kp) @ dsa_pub"
    "length (ed25519_secret_key kp) = 32" "length dsa_pub = 2592" "dsa_pair L dsa_pub (sig_secret_key kp)"
    using assms(2) by (auto simp: signing_ok_def)
  let ?e = "ed25519_secret_key kp"
  have e: "length (ed25519_public L ?e) = 32" "ed25519_load L ?e = Inr ?e"
    "length (ed25519_sign L ?e m) = 64" "ed25519_verify L (ed25519_public L ?e) (ed25519_sign L ?e m) m = Inr ()"
    using assms(1) kp(2) unfolding ed25519_correct_def by blast+
  obtain s t' where s: "dsa_sign L (sig_secret_key kp) m t = (Inr s, t')" "length s = 4627"
    "dsa_verify L m s dsa_pub = Inr True"
    using kp(4) unfolding dsa_pair_def by blast
  from e s kp(1,3) show ?thesis
    by (simp add: hybrid_sign_def verify_hybrid_signature_def length_constants)
qed

lemma hybrid_sign_key:
  "hybrid_sign L kp m t = (Inr s, t') \<Longrightarrow> ed25519_correct L \<Longrightarrow> signing_ok L kp \<Longrightarrow>
     length s = HYBRID_SIGNATURE_LEN \<and> verify_hybrid_signature L m s (sig_public_key kp) = Inr True"
  using hybrid_sign_verifies [of L kp m t] by auto

lemma generate_signing_keypair_ok:
  assumes "ed25519_correct L" "dsa_correct L"
  shows "\<exists>kp t'. generate_signing_keypair L t = (Inr kp, t') \<and> signing_ok L kp"
proof -
  obtain e t1 where e: "ed25519_generate L t = (e, t1)" by force
  obtain p q t2 where d: "dsa_keypair L t1 = ((p, q), t2)" by (metis prod.exhaust)
  have "length e = 32" using e assms(1) unfolding ed25519_correct_def by blast
  moreover have "dsa_pair L p q" "length p = 2592" using d assms(2) unfolding dsa_correct_def by blast+
  ultimately show ?thesis
    using e d by (simp add: generate_signing_keypair_def drawE_def bindE_def signing_ok_def)
qed

section \<open>Lemmas: bundles\<close>

definition bundle_ok :: "crypto \<Rightarrow> IdentityBundle \<Rightarrow> bool" where
  "bundle_ok L b \<longleftrightarrow>
     map xopk_id (x25519_opks b) = map kopk_id (kem_opks b) \<and>
     distinct (map xopk_id (x25519_opks b)) \<and>
     (\<forall>x\<in>set (x25519_opks b). xopk_public_key x = x25519_public L (xopk_secret_key x) \<and>
        length (xopk_secret_key x) = 32) \<and>
     (\<forall>k\<in>set (kem_opks b). kem_pair L (kopk_public_key k) (kopk_secret_key k)) \<and>
     kem_pair L (kem_public_key (ik_kem b)) (kem_secret_key (ik_kem b)) \<and>
     signing_ok L (ik_sig b) \<and>
     length (x_private (ik_classical b)) = 32 \<and> length (x_private (spk_keypair (spk b))) = 32 \<and>
     verify_spk_signature L (public_key_bytes L (spk_keypair (spk b))) (spk_signature (spk b))
       (sig_public_key (ik_sig b)) = Inr True"

lemma generate_identity_bundle_bundle_ok:
  assumes "x25519_correct L" "kem_correct L" "ed25519_correct L" "dsa_correct L"
  shows "\<exists>b t'. generate_identity_bundle L uid n t = (Inr b, t') \<and> bundle_ok L b \<and>
    user_id b = uid \<and> map xopk_id (x25519_opks b) = map (\<lambda>j. 1 + int j) [0..<nat n]"
proof -
  obtain pk sk t1 where k: "kem_keypair L t = ((pk, sk), t1)" by (metis prod.exhaust)
  have kp: "kem_pair L pk sk" using k assms(2) unfolding kem_correct_def by blast
  obtain iks t2 where s: "generate_signing_keypair L t1 = (Inr iks, t2)" "signing_ok L iks"
    using generate_signing_keypair_ok [OF assms(3,4)] by blast
  obtain c t3 where c: "x25519_generate L t2 = (c, t3)" by force
  obtain d t4 where d: "x25519_generate L t3 = (d, t4)" by force
  obtain sg t5 where g: "hybrid_sign L iks (x25519_public L d) t4 = (Inr sg, t5)"
    "verify_hybrid_signature L (x25519_public L d) sg (sig_public_key iks) = Inr True"
    using hybrid_sign_verifies [OF assms(3) s(2)] by blast
  obtain xs ks t6 where o: "generate_opk_pairs L n 1 t5 = (Inr (xs, ks), t6)"
    "map xopk_id xs = map (\<lambda>j. 1 + int j) [0..<nat n]" "map kopk_id ks = map xopk_id xs"
    "\<forall>x\<in>set xs. xopk_public_key x = x25519_public L (xopk_secret_key x) \<and> length (xopk_secret_key x) = 32"
    "\<forall>k\<in>set ks. kem_pair L (kopk_public_key k) (kopk_secret_key k)"
    using generate_opk_pairs_ok [of L n 1 t5] assms(1,2) by auto
  have ids: "distinct (map xopk_id xs)" unfolding o(2) by (rule distinct_id_range)
  note len = x25519_generate_length [OF assms(1) c] x25519_generate_length [OF assms(1) d]
  have "assert_opk_lists_valid xs ks = Inr ()" using o(3) by (simp add: assert_opk_lists_valid_iff)
  then show ?thesis
    using k kp s c d g o ids len
    by (simp add: generate_identity_bundle_def generate_kem_keypair_def drawE_def bindE_def [of "\<lambda>t. _"]
        x25519_generate_keypair_eq generate_signed_prekey_def public_key_bytes_def
        new_identity_bundle_def bundle_ok_def verify_spk_signature_def)
qed

section \<open>The private serialisation is a codec\<close>

definition bundle_loadable :: "crypto \<Rightarrow> IdentityBundle \<Rightarrow> bool" where
  "bundle_loadable L b \<longleftrightarrow> x25519_correct L \<and> length (x_private (ik_classical b)) = 32 \<and>
     length (x_private (spk_keypair (spk b))) = 32"

lemma bundle_ok_loadable: "x25519_correct L \<Longrightarrow> bundle_ok L b \<Longrightarrow> bundle_loadable L b"
  by (simp add: bundle_ok_def bundle_loadable_def)

lemma load_x25519_opk_private:
  "load_x25519_opk (private_opk (xopk_id o1) (xopk_public_key o1) (xopk_secret_key o1)) = Inr o1"
  by (simp add: load_x25519_opk_def private_opk_def int_field_def hex_field_def)

lemma load_kem_opk_private:
  "load_kem_opk (private_opk (kopk_id o1) (kopk_public_key o1) (kopk_secret_key o1)) = Inr o1"
  by (simp add: load_kem_opk_def private_opk_def int_field_def hex_field_def)

lemma mapR_load:
  "mapR load_x25519_opk (map (\<lambda>o1. private_opk (xopk_id o1) (xopk_public_key o1) (xopk_secret_key o1)) xs) = Inr xs"
  "mapR load_kem_opk (map (\<lambda>o1. private_opk (kopk_id o1) (kopk_public_key o1) (kopk_secret_key o1)) ks) = Inr ks"
  by (simp_all add: mapR_of_map load_x25519_opk_private load_kem_opk_private
      mapR_map_Inr [where g = "\<lambda>x. x", simplified])

lemma from_private_bytes_ok: "x25519_correct L \<Longrightarrow> length b = 32 \<Longrightarrow> from_private_bytes L b = Inr \<lparr>x_private = b\<rparr>"
  unfolding from_private_bytes_def x25519_correct_def by simp

interpretation private_bundle: codec "to_private_bundle L" "from_private_bundle L" "bundle_loadable L" for L
proof
  fix b d assume ok: "bundle_loadable L b" and d: "to_private_bundle L b = Inr d"
  then have ids: "assert_opk_lists_valid (x25519_opks b) (kem_opks b) = Inr ()"
    by (auto simp: to_private_bundle_def bindR_Inr_iff)
  have "from_private_bytes L (x_private (ik_classical b)) = Inr (ik_classical b)"
    "from_private_bytes L (x_private (spk_keypair (spk b))) = Inr (spk_keypair (spk b))"
    using ok by (simp_all add: bundle_loadable_def from_private_bytes_ok)
  with d ids show "from_private_bundle L d = Inr b"
    by (auto simp: to_private_bundle_def from_private_bundle_def hex_field_def int_field_def mapR_load
        private_key_bytes_def new_identity_bundle_def)
qed

lemma bundle_ok_ids: "bundle_ok L b \<Longrightarrow> assert_opk_lists_valid (x25519_opks b) (kem_opks b) = Inr ()"
  by (simp add: bundle_ok_def assert_opk_lists_valid_iff)

text \<open>The parts of a bundle that may leave the device.\<close>

definition public_view :: "crypto \<Rightarrow> IdentityBundle \<Rightarrow>
    (pystr \<times> int) \<times> bytes list \<times> (int \<times> bytes) list \<times> (int \<times> bytes) list" where
  "public_view L b = ((user_id b, spk_id (spk b)),
     [kem_public_key (ik_kem b), sig_public_key (ik_sig b), public_key_bytes L (ik_classical b),
      public_key_bytes L (spk_keypair (spk b)), spk_signature (spk b)],
     map (\<lambda>x. (xopk_id x, xopk_public_key x)) (x25519_opks b),
     map (\<lambda>k. (kopk_id k, kopk_public_key k)) (kem_opks b))"

lemma assert_opk_lists_valid_Inl:
  "map xopk_id xs \<noteq> map kopk_id ks \<Longrightarrow> assert_opk_lists_valid xs ks = Inl AssertionError"
  using assert_opk_lists_valid_iff [of xs ks "()"]
  by (auto simp: assert_opk_lists_valid_def bindR_def guardR_def split: sum.splits if_splits)

lemma assert_opk_ids_cong:
  "map xopk_id xs = map xopk_id ys \<Longrightarrow> map kopk_id ks = map kopk_id ls \<Longrightarrow>
     assert_opk_lists_valid xs ks = assert_opk_lists_valid ys ls"
  by (metis assert_opk_lists_valid_iff assert_opk_lists_valid_Inl)

lemma to_public_bundle_view:
  assumes "public_view L c = public_view L b"
  shows "to_public_bundle L c = to_public_bundle L b"
proof -
  have x: "map (\<lambda>x. (xopk_id x, xopk_public_key x)) (x25519_opks c) =
      map (\<lambda>x. (xopk_id x, xopk_public_key x)) (x25519_opks b)"
    and k: "map (\<lambda>k. (kopk_id k, kopk_public_key k)) (kem_opks c) =
      map (\<lambda>k. (kopk_id k, kopk_public_key k)) (kem_opks b)"
    using assms by (simp_all add: public_view_def)
  from arg_cong [OF x, of "map fst"] arg_cong [OF k, of "map fst"]
  have v: "assert_opk_lists_valid (x25519_opks c) (kem_opks c) =
      assert_opk_lists_valid (x25519_opks b) (kem_opks b)"
    by (intro assert_opk_ids_cong) (simp_all add: comp_def)
  from arg_cong [OF x, of "map (\<lambda>(i, p). public_opk i p)"] arg_cong [OF k, of "map (\<lambda>(i, p). public_opk i p)"]
  show ?thesis using assms by (simp add: to_public_bundle_def v comp_def public_view_def)
qed

lemma replenish_ok:
  assumes ids: "map xopk_id xs = map kopk_id ks" and d: "distinct (map xopk_id xs)"
  shows "\<exists>xs' ks' t'. replenish_one_time_prekeys L xs ks target t = (Inr (xs', ks'), t') \<and>
    int (length xs') = max 0 (target - int (length xs)) \<and> map xopk_id xs' = map kopk_id ks' \<and>
    distinct (map xopk_id (xs @ xs'))"
proof (cases "xs = []")
  case True
  then have "ks = []" using ids by simp
  obtain xs' ks' t' where g: "generate_opk_pairs L target 1 t = (Inr (xs', ks'), t')"
    "map xopk_id xs' = map (\<lambda>j. 1 + int j) [0..<nat target]" "map kopk_id ks' = map xopk_id xs'"
    using generate_opk_pairs_ok [of L target 1 t] by blast
  from arg_cong [OF g(2), of length] have "length xs' = nat target" by simp
  with g True \<open>ks = []\<close> distinct_id_range [of 1 "nat target"] show ?thesis
    by (simp add: replenish_one_time_prekeys_def)
next
  case False
  let ?m = "Max (set (map xopk_id xs))"
  have v: "assert_opk_lists_valid xs ks = Inr ()" using ids by (simp add: assert_opk_lists_valid_iff)
  have len: "length ks = length xs" using arg_cong [OF ids, of length] by simp
  then have ne: "ks \<noteq> []" using False by auto
  have hi: "max ?m (Max (set (map kopk_id ks))) = ?m" by (simp only: ids max.idem)
  have eq: "replenish_one_time_prekeys L xs ks target =
      (if target - int (length xs) \<le> 0 then returnE ([], [])
       else generate_opk_pairs L (target - int (length xs)) (?m + 1))"
    using False ne v hi by (intro ext) (simp add: replenish_one_time_prekeys_def Let_def len)
  show ?thesis
  proof (cases "target - int (length xs) \<le> 0")
    case True
    with eq d show ?thesis by auto
  next
    case more: False
    let ?n = "target - int (length xs)"
    obtain xs' ks' t' where g: "generate_opk_pairs L ?n (?m + 1) t = (Inr (xs', ks'), t')"
      "map xopk_id xs' = map (\<lambda>j. ?m + 1 + int j) [0..<nat ?n]" "map kopk_id ks' = map xopk_id xs'"
      using generate_opk_pairs_ok [of L ?n "?m + 1" t] by blast
    have l: "length xs' = nat ?n" using arg_cong [OF g(2), of length] by simp
    have "i \<le> ?m" if "i \<in> set (map xopk_id xs)" for i using that by (rule Max_ge [rotated]) simp
    moreover have "?m < i" if "i \<in> set (map xopk_id xs')" for i using that unfolding g(2) by auto
    ultimately have "set (map xopk_id xs) \<inter> set (map xopk_id xs') = {}" by fastforce
    then have "distinct (map xopk_id (xs @ xs'))"
      unfolding map_append distinct_append using d by (simp only: g(2) distinct_id_range simp_thms)
    with eq more g l show ?thesis by (simp del: map_append)
  qed
qed

section \<open>Properties\<close>

text \<open>
  C33: a freshly generated identity bundle is well formed. For the documented behaviour
  of the four key types, \<open>generate_identity_bundle\<close> never fails; in the bundle the two
  OPK lists carry the identifiers 1 to \<open>opk_count\<close> in the same order, every public key
  belongs to its secret key (so DH and decapsulation agree), and the signed prekey's
  hybrid signature verifies under the bundle's own identity key.
\<close>

theorem generate_identity_bundle_ok:
  assumes "x25519_correct L" "kem_correct L" "ed25519_correct L" "dsa_correct L"
  shows "\<exists>b t'. generate_identity_bundle L uid n t = (Inr b, t') \<and> bundle_ok L b \<and> user_id b = uid \<and>
    map xopk_id (x25519_opks b) = map (\<lambda>j. 1 + int j) [0..<nat n] \<and>
    verify_spk_signature L (public_key_bytes L (spk_keypair (spk b))) (spk_signature (spk b))
       (sig_public_key (ik_sig b)) = Inr True"
  using generate_identity_bundle_bundle_ok [OF assms, of uid n t] unfolding bundle_ok_def by blast

theorem generate_identity_bundle_ok_witness:
  "\<exists>b t'. generate_identity_bundle example_lib (lit ''alice'') 2 (\<lambda>_. 0) = (Inr b, t') \<and>
     map xopk_id (x25519_opks b) = [1, 2]"
  using generate_identity_bundle_ok [OF example_x25519_correct example_kem_correct
      example_ed25519_correct example_dsa_correct, of "lit ''alice''" 2 "\<lambda>_. 0"]
  by (auto simp: numeral_2_eq_2)

text \<open>
  The encrypted keystore loses nothing of a bundle. Serialising a well-formed bundle
  with \<open>to_private_bundle\<close> succeeds and \<open>from_private_bundle\<close> rebuilds exactly that
  bundle; the dictionary that goes to the server instead is determined by the public
  keys, identifiers and the signature: two bundles that agree on those upload the same.
\<close>

lemma private_bundle_roundtrip:
  assumes "x25519_correct L" "bundle_ok L b"
  shows "(\<exists>d. to_private_bundle L b = Inr d \<and> from_private_bundle L d = Inr b) \<and>
    (\<forall>c. public_view L c = public_view L b \<longrightarrow> to_public_bundle L c = to_public_bundle L b)"
proof (intro conjI allI impI)
  obtain d where d: "to_private_bundle L b = Inr d"
    using bundle_ok_ids [OF assms(2)] by (simp add: to_private_bundle_def)
  with private_bundle.dec_enc [OF bundle_ok_loadable [OF assms]]
  show "\<exists>d. to_private_bundle L b = Inr d \<and> from_private_bundle L d = Inr b" by blast
qed (rule to_public_bundle_view)

text \<open>
  C34: topping up keeps the one-time prekeys usable. On two valid OPK lists of \<open>n\<close>
  entries, \<open>replenish_one_time_prekeys\<close> returns \<open>target - n\<close> new pairs (none when there
  are enough); the extended lists are again paired, and their identifiers stay distinct.
  On lists that are not paired it raises \<open>AssertionError\<close> and draws no randomness.
\<close>

theorem replenish_keeps_opks_paired:
  assumes "distinct (map xopk_id xs)"
  shows "(map xopk_id xs = map kopk_id ks \<longrightarrow>
      (\<exists>xs' ks' t'. replenish_one_time_prekeys L xs ks target t = (Inr (xs', ks'), t') \<and>
        int (length xs') = max 0 (target - int (length xs)) \<and>
        assert_opk_lists_valid (xs @ xs') (ks @ ks') = Inr () \<and> distinct (map xopk_id (xs @ xs')))) \<and>
    (map xopk_id xs \<noteq> map kopk_id ks \<longrightarrow>
      replenish_one_time_prekeys L xs ks target t = (Inl AssertionError, t))"
proof (intro conjI impI)
  assume ids: "map xopk_id xs = map kopk_id ks"
  show "\<exists>xs' ks' t'. replenish_one_time_prekeys L xs ks target t = (Inr (xs', ks'), t') \<and>
        int (length xs') = max 0 (target - int (length xs)) \<and>
        assert_opk_lists_valid (xs @ xs') (ks @ ks') = Inr () \<and> distinct (map xopk_id (xs @ xs'))"
    using replenish_ok [OF ids assms] by (simp add: assert_opk_lists_valid_iff ids)
next
  assume "map xopk_id xs \<noteq> map kopk_id ks"
  then show "replenish_one_time_prekeys L xs ks target t = (Inl AssertionError, t)"
    using assert_opk_lists_valid_Inl [of xs ks] by (auto simp: replenish_one_time_prekeys_def)
qed

theorem replenish_keeps_opks_paired_witness:
  "\<exists>xs' ks' t'. replenish_one_time_prekeys example_lib
      [\<lparr>xopk_id = 4, xopk_public_key = [], xopk_secret_key = []\<rparr>]
      [\<lparr>kopk_id = 4, kopk_public_key = [], kopk_secret_key = []\<rparr>] 3 (\<lambda>_. 0) = (Inr (xs', ks'), t') \<and>
    int (length xs') = 2"
  using replenish_keeps_opks_paired [of "[\<lparr>xopk_id = 4, xopk_public_key = [], xopk_secret_key = []\<rparr>]"
      "[\<lparr>kopk_id = 4, kopk_public_key = [], kopk_secret_key = []\<rparr>]" example_lib 3 "\<lambda>_. 0"]
  by auto

text \<open>
  C35: hybrid signatures need both halves. \<open>verify_hybrid_signature\<close> raises only
  \<open>MalformedSignedCiphertextError\<close>, exactly when the key or the signature has the wrong
  length (a bare ML-DSA-87 key included); otherwise it is true exactly when the Ed25519
  half and the ML-DSA half both verify, whatever either library call raises. A signature
  that \<open>SigningKeypair.sign\<close> makes verifies.
\<close>

theorem hybrid_signature_needs_both:
  assumes "ed25519_correct L"
  shows "((\<exists>e. verify_hybrid_signature L m sg pk = Inl e) \<longleftrightarrow> length pk \<noteq> 2624 \<or> length sg \<noteq> 4691) \<and>
    (\<forall>e. verify_hybrid_signature L m sg pk = Inl e \<longrightarrow> e = MalformedSignedCiphertextError) \<and>
    (verify_hybrid_signature L m sg pk = Inr True \<longleftrightarrow> length pk = 2624 \<and> length sg = 4691 \<and>
      ed25519_verify L (take 32 pk) (take 64 sg) m = Inr () \<and>
      dsa_verify L m (drop 64 sg) (drop 32 pk) = Inr True) \<and>
    (signing_ok L kp \<longrightarrow> (\<exists>s t'. hybrid_sign L kp m t = (Inr s, t') \<and>
      verify_spk_signature L m s (sig_public_key kp) = Inr True))"
proof (intro conjI)
  show "signing_ok L kp \<longrightarrow> (\<exists>s t'. hybrid_sign L kp m t = (Inr s, t') \<and>
      verify_spk_signature L m s (sig_public_key kp) = Inr True)"
    using hybrid_sign_verifies [OF assms] by (fastforce simp: verify_spk_signature_def)
  show "verify_hybrid_signature L m sg pk = Inr True \<longleftrightarrow> length pk = 2624 \<and> length sg = 4691 \<and>
      ed25519_verify L (take 32 pk) (take 64 sg) m = Inr () \<and>
      dsa_verify L m (drop 64 sg) (drop 32 pk) = Inr True"
    by (auto simp: verify_hybrid_signature_def length_constants split: sum.splits)
qed (auto simp: verify_hybrid_signature_def length_constants)

theorem hybrid_signature_needs_both_witness:
  "verify_hybrid_signature example_lib [] (zeros 4691) (zeros 2592) \<noteq> Inr True"
  using hybrid_signature_needs_both [OF example_ed25519_correct, of "[]" "zeros 4691" "zeros 2592"]
  by auto

end
