(* ===== verification/Signatures.thy ===== *)
theory Signatures
  imports Keys
begin

text \<open>
  core/signatures.py: hybrid signatures over ciphertexts, with the msgpack wire format.
  The fields of a \<open>SignedCiphertext\<close> are Python values, because \<open>from_bytes\<close> takes them
  from the wire without checking their types.
\<close>

section \<open>Wire values\<close>

record SignedCiphertext =
  sc_ciphertext :: pyval
  sc_signature :: pyval
  sc_sender_id :: pyval
  sc_recipient_id :: pyval
  sc_message_index :: pyval

text \<open>\<open>len(v)\<close>\<close>

fun py_len :: "pyval \<Rightarrow> nat res" where
  "py_len (PStr s) = Inr (length s)"
| "py_len (PBytes b) = Inr (length b)"
| "py_len (PList vs) = Inr (length vs)"
| "py_len (PDict d) = Inr (length d)"
| "py_len _ = Inl TypeError"

text \<open>Iterating over a value, as tuple unpacking does.\<close>

fun py_iter :: "pyval \<Rightarrow> pyval list res" where
  "py_iter (PStr s) = Inr (map (\<lambda>c. PStr [c]) s)"
| "py_iter (PBytes b) = Inr (map (\<lambda>c. PInt (uint c)) b)"
| "py_iter (PList vs) = Inr vs"
| "py_iter (PDict d) = Inr (map (\<lambda>(k, v). PStr k) d)"
| "py_iter _ = Inl TypeError"

text \<open>\<open>isinstance(v, int) and 0 <= v < 2**64\<close>; a boolean is an integer.\<close>

fun is_uint64 :: "pyval \<Rightarrow> bool" where
  "is_uint64 (PInt n) = (0 \<le> n \<and> n < 2 ^ 64)"
| "is_uint64 (PBool b) = True"
| "is_uint64 _ = False"

section \<open>Signature input and signed ciphertexts\<close>

definition build_sig_input ::
    "crypto \<Rightarrow> pyval \<Rightarrow> bytes \<Rightarrow> pyval \<Rightarrow> pyval \<Rightarrow> pyval \<Rightarrow> bytes res" where
  "build_sig_input L ciphertext aad sender_id recipient_id message_index =
     (if \<not> is_uint64 message_index then Inl (ValueError ''message_index must be a uint64'')
      else packb L (PList [ciphertext, PBytes aad, sender_id, recipient_id, message_index]))"

definition new_signed_ciphertext :: "SignedCiphertext \<Rightarrow> SignedCiphertext res" where
  "new_signed_ciphertext sc =
     bindR (py_len (sc_signature sc)) (\<lambda>n.
     bindR (guardR (n = HYBRID_SIGNATURE_LEN) MalformedSignedCiphertextError) (\<lambda>_. Inr sc))"

definition signed_to_bytes :: "crypto \<Rightarrow> SignedCiphertext \<Rightarrow> bytes res" where
  "signed_to_bytes L sc = packb L (PList [sc_sender_id sc, sc_recipient_id sc, sc_message_index sc,
     sc_signature sc, sc_ciphertext sc])"

definition signed_from_bytes :: "crypto \<Rightarrow> bytes \<Rightarrow> SignedCiphertext res" where
  "signed_from_bytes L data =
     (case bindR (unpackb L data) py_iter of
        Inr [sender_id, recipient_id, message_index, signature, ciphertext] \<Rightarrow>
          bindR (guardR (is_uint64 message_index) MalformedSignedCiphertextError) (\<lambda>_.
          bindR (py_len signature) (\<lambda>n.
          bindR (guardR (n = HYBRID_SIGNATURE_LEN) MalformedSignedCiphertextError) (\<lambda>_.
          bindR (guardR (truthy ciphertext) MalformedSignedCiphertextError) (\<lambda>_.
          new_signed_ciphertext \<lparr>sc_ciphertext = ciphertext, sc_signature = signature,
            sc_sender_id = sender_id, sc_recipient_id = recipient_id,
            sc_message_index = message_index\<rparr>))))
      | _ \<Rightarrow> Inl MalformedSignedCiphertextError)"

definition sign_ciphertext ::
    "crypto \<Rightarrow> SigningKeypair \<Rightarrow> bytes \<Rightarrow> bytes \<Rightarrow> bytes \<Rightarrow> bytes \<Rightarrow> int \<Rightarrow> (entropy, SignedCiphertext) eff" where
  "sign_ciphertext L signing_keypair ciphertext aad sender_id recipient_id message_index =
     bindE (liftE (build_sig_input L (PBytes ciphertext) aad (PBytes sender_id) (PBytes recipient_id)
              (PInt message_index))) (\<lambda>sig_input.
     bindE (hybrid_sign L signing_keypair sig_input) (\<lambda>signature.
     liftE (new_signed_ciphertext \<lparr>sc_ciphertext = PBytes ciphertext, sc_signature = PBytes signature,
       sc_sender_id = PBytes sender_id, sc_recipient_id = PBytes recipient_id,
       sc_message_index = PInt message_index\<rparr>)))"

section \<open>Verification\<close>

text \<open>
  \<open>verify_hybrid_signature\<close> on the signature field: on anything but bytes the library
  calls raise \<open>TypeError\<close>, which it turns into false, or the length check raises.
\<close>

definition verify_field :: "crypto \<Rightarrow> bytes \<Rightarrow> pyval \<Rightarrow> bytes \<Rightarrow> bool res" where
  "verify_field L sig_input v ik_sig_pub =
     (case v of PBytes s \<Rightarrow> verify_hybrid_signature L sig_input s ik_sig_pub
      | _ \<Rightarrow> bindR (guardR (length ik_sig_pub = HYBRID_PUBLIC_KEY_LEN) MalformedSignedCiphertextError) (\<lambda>_.
             bindR (py_len v) (\<lambda>n.
             bindR (guardR (n = HYBRID_SIGNATURE_LEN) MalformedSignedCiphertextError) (\<lambda>_. Inr False))))"

definition verify_ciphertext ::
    "crypto \<Rightarrow> SignedCiphertext \<Rightarrow> bytes \<Rightarrow> bytes \<Rightarrow> bytes option \<Rightarrow> unit res" where
  "verify_ciphertext L sc aad ik_sig_pub expected_pub =
     bindR (build_sig_input L (sc_ciphertext sc) aad (sc_sender_id sc) (sc_recipient_id sc)
             (sc_message_index sc)) (\<lambda>sig_input.
     bindR (case verify_field L sig_input (sc_signature sc) ik_sig_pub of
              Inl e \<Rightarrow> Inl SignatureVerificationError | Inr v \<Rightarrow> Inr v) (\<lambda>valid.
     bindR (guardR valid SignatureVerificationError) (\<lambda>_.
     case expected_pub of None \<Rightarrow> Inr ()
     | Some pinned \<Rightarrow> guardR (compare_digest pinned ik_sig_pub) SignatureVerificationError)))"

definition verify_and_extract ::
    "crypto \<Rightarrow> bytes \<Rightarrow> bytes \<Rightarrow> bytes \<Rightarrow> bytes option \<Rightarrow> SignedCiphertext res" where
  "verify_and_extract L data aad ik_sig_pub expected_pub =
     bindR (case signed_from_bytes L data of
              Inl e \<Rightarrow> Inl (if e = MalformedSignedCiphertextError then SignatureVerificationError else e)
            | Inr sc \<Rightarrow> Inr sc) (\<lambda>sc.
     bindR (verify_ciphertext L sc aad ik_sig_pub expected_pub) (\<lambda>_.
     Inr sc))"

section \<open>Lemmas\<close>

definition sc_ok :: "SignedCiphertext \<Rightarrow> bool" where
  "sc_ok sc \<longleftrightarrow> (\<exists>c s a b n. sc = \<lparr>sc_ciphertext = PBytes c, sc_signature = PBytes s, sc_sender_id = PBytes a,
       sc_recipient_id = PBytes b, sc_message_index = PInt n\<rparr> \<and>
     c \<noteq> [] \<and> length s = HYBRID_SIGNATURE_LEN \<and> 0 \<le> n \<and> n < 2 ^ 64)"

interpretation signed_wire: codec "signed_to_bytes L" "signed_from_bytes L"
  "\<lambda>sc. msgpack_correct L \<and> sc_ok sc" for L
proof
  fix sc w assume *: "msgpack_correct L \<and> sc_ok sc" and w: "signed_to_bytes L sc = Inr w"
  then obtain c s a b n where sc: "sc = \<lparr>sc_ciphertext = PBytes c, sc_signature = PBytes s,
      sc_sender_id = PBytes a, sc_recipient_id = PBytes b, sc_message_index = PInt n\<rparr>"
    and ok: "c \<noteq> []" "length s = HYBRID_SIGNATURE_LEN" "0 \<le> n" "n < 2 ^ 64"
    by (auto simp: sc_ok_def)
  have "list_all msgpack_item [PBytes a, PBytes b, PInt n, PBytes s, PBytes c]" using ok by simp
  from msgpack_roundtrip [OF conjunct1 [OF *] this] w
  have "unpackb L w = Inr (PList [PBytes a, PBytes b, PInt n, PBytes s, PBytes c])"
    by (auto simp: sc signed_to_bytes_def)
  with ok show "signed_from_bytes L w = Inr sc"
    by (simp add: signed_from_bytes_def new_signed_ciphertext_def sc)
qed

lemma signed_to_bytes_total:
  "msgpack_correct L \<Longrightarrow> sc_ok sc \<Longrightarrow> \<exists>w. signed_to_bytes L sc = Inr w"
  using msgpack_roundtrip [of L "[sc_sender_id sc, sc_recipient_id sc, sc_message_index sc,
     sc_signature sc, sc_ciphertext sc]"]
  by (auto simp: sc_ok_def signed_to_bytes_def)

lemma build_sig_input_total:
  assumes "msgpack_correct L" "0 \<le> n" "n < 2 ^ 64"
  shows "\<exists>w. build_sig_input L (PBytes c) aad (PBytes a) (PBytes b) (PInt n) = Inr w"
  using msgpack_roundtrip [OF assms(1), of "[PBytes c, PBytes aad, PBytes a, PBytes b, PInt n]"] assms(2,3)
  by (auto simp: build_sig_input_def)

lemma build_sig_input_inj:
  assumes "msgpack_correct L"
    and "build_sig_input L (PBytes c) d (PBytes a) (PBytes b) (PInt n) = Inr w"
    and "build_sig_input L (PBytes c') d' (PBytes a') (PBytes b') (PInt n') = Inr w"
  shows "c = c' \<and> d = d' \<and> a = a' \<and> b = b' \<and> n = n'"
  using assms(2,3) msgpack_inj [OF assms(1), of "[PBytes c, PBytes d, PBytes a, PBytes b, PInt n]"
      "[PBytes c', PBytes d', PBytes a', PBytes b', PInt n']" w]
  by (auto simp: build_sig_input_def split: if_splits)

lemma verify_field_bytes [simp]: "verify_field L m (PBytes s) pk = verify_hybrid_signature L m s pk"
  by (simp add: verify_field_def)

lemma verify_field_True: "verify_field L m v pk = Inr True \<Longrightarrow>
    \<exists>s. v = PBytes s \<and> verify_hybrid_signature L m s pk = Inr True"
  by (auto simp: verify_field_def bindR_Inr_iff split: pyval.splits)

lemma verify_ciphertext_Inr_iff:
  "verify_ciphertext L sc aad pk pin = Inr () \<longleftrightarrow>
     (\<exists>m. build_sig_input L (sc_ciphertext sc) aad (sc_sender_id sc) (sc_recipient_id sc)
         (sc_message_index sc) = Inr m \<and>
       verify_field L m (sc_signature sc) pk = Inr True) \<and> (pin = None \<or> pin = Some pk)"
proof (cases "build_sig_input L (sc_ciphertext sc) aad (sc_sender_id sc) (sc_recipient_id sc)
    (sc_message_index sc)")
  case (Inr m)
  then have "verify_ciphertext L sc aad pk pin =
      bindR (case verify_field L m (sc_signature sc) pk of
          Inl e \<Rightarrow> Inl SignatureVerificationError | Inr v \<Rightarrow> Inr v) (\<lambda>valid.
      bindR (guardR valid SignatureVerificationError) (\<lambda>_.
      case pin of None \<Rightarrow> Inr ()
      | Some pinned \<Rightarrow> guardR (compare_digest pinned pk) SignatureVerificationError))"
    by (simp add: verify_ciphertext_def)
  also have "\<dots> = Inr () \<longleftrightarrow> verify_field L m (sc_signature sc) pk = Inr True \<and> (pin = None \<or> pin = Some pk)"
    by (cases "verify_field L m (sc_signature sc) pk"; cases pin) (auto simp: bindR_Inr_iff)
  finally show ?thesis using Inr by simp
qed (simp add: verify_ciphertext_def)

lemma verify_and_extract_Inr_iff:
  "verify_and_extract L data aad pk pin = Inr sc \<longleftrightarrow>
     signed_from_bytes L data = Inr sc \<and> verify_ciphertext L sc aad pk pin = Inr ()"
  by (cases "signed_from_bytes L data") (auto simp: verify_and_extract_def bindR_Inr_iff)

lemma sign_ciphertext_ok:
  assumes "msgpack_correct L" "ed25519_correct L" "signing_ok L kp" "c \<noteq> []" "0 \<le> n" "n < 2 ^ 64"
  shows "\<exists>sc t'. sign_ciphertext L kp c aad a b n t = (Inr sc, t') \<and> sc_ok sc \<and>
    sc_ciphertext sc = PBytes c \<and> verify_ciphertext L sc aad (sig_public_key kp) None = Inr ()"
proof -
  obtain m where m: "build_sig_input L (PBytes c) aad (PBytes a) (PBytes b) (PInt n) = Inr m"
    using build_sig_input_total [OF assms(1,5,6)] by blast
  obtain s t' where s: "hybrid_sign L kp m t = (Inr s, t')" "length s = HYBRID_SIGNATURE_LEN"
    "verify_hybrid_signature L m s (sig_public_key kp) = Inr True"
    using hybrid_sign_verifies [OF assms(2,3)] by blast
  with m assms(4-6) show ?thesis
    by (simp add: sign_ciphertext_def new_signed_ciphertext_def sc_ok_def verify_ciphertext_Inr_iff)
qed

lemma sign_then_extract:
  assumes "msgpack_correct L" "ed25519_correct L" "signing_ok L kp" "c \<noteq> []" "0 \<le> n" "n < 2 ^ 64"
  shows "\<exists>sc t' w. sign_ciphertext L kp c aad a b n t = (Inr sc, t') \<and> signed_to_bytes L sc = Inr w \<and>
    verify_and_extract L w aad (sig_public_key kp) (Some (sig_public_key kp)) = Inr sc \<and>
    sc_ciphertext sc = PBytes c"
proof -
  obtain sc t' where sc: "sign_ciphertext L kp c aad a b n t = (Inr sc, t')" "sc_ok sc"
    "sc_ciphertext sc = PBytes c" "verify_ciphertext L sc aad (sig_public_key kp) None = Inr ()"
    using sign_ciphertext_ok [OF assms] by blast
  obtain w where w: "signed_to_bytes L sc = Inr w" "signed_from_bytes L w = Inr sc"
    using signed_to_bytes_total [OF assms(1) sc(2)] signed_wire.dec_enc [of L sc] assms(1) sc(2) by blast
  moreover have "verify_ciphertext L sc aad (sig_public_key kp) (Some (sig_public_key kp)) = Inr ()"
    using sc(4) by (simp add: verify_ciphertext_Inr_iff)
  ultimately show ?thesis
    using sc(1,3) by (intro exI [of _ sc] exI [of _ t'] exI [of _ w]) (simp add: verify_and_extract_Inr_iff)
qed

section \<open>Properties\<close>

text \<open>
  C26: what a sender signs, the receiver extracts, and nothing else passes for it. For a
  non-empty ciphertext and a uint64 index, signing succeeds, the wire bytes parse and
  verify under the sender's key (pinned or not) and give back the signed ciphertext.
  With a different pinned key the same bytes raise \<open>SignatureVerificationError\<close>; and
  whenever the bytes parse to another triple of ciphertext, identities and index, or the
  associated data differ, the signed input differs.
\<close>

theorem signed_ciphertext_roundtrip:
  assumes "msgpack_correct L" "ed25519_correct L" "signing_ok L kp" "c \<noteq> []" "0 \<le> n" "n < 2 ^ 64"
  shows "\<exists>sc t' w. sign_ciphertext L kp c aad a b n t = (Inr sc, t') \<and> signed_to_bytes L sc = Inr w \<and>
    verify_and_extract L w aad (sig_public_key kp) None = Inr sc \<and>
    verify_and_extract L w aad (sig_public_key kp) (Some (sig_public_key kp)) = Inr sc \<and>
    sc_ciphertext sc = PBytes c \<and>
    (\<forall>pin. pin \<noteq> sig_public_key kp \<longrightarrow>
      verify_and_extract L w aad (sig_public_key kp) (Some pin) = Inl SignatureVerificationError) \<and>
    (\<forall>m c' d' a' b' n'. build_sig_input L (PBytes c) aad (PBytes a) (PBytes b) (PInt n) = Inr m \<and>
      build_sig_input L (PBytes c') d' (PBytes a') (PBytes b') (PInt n') = Inr m \<longrightarrow>
      (c', d', a', b', n') = (c, aad, a, b, n))"
proof -
  obtain sc t' where sc: "sign_ciphertext L kp c aad a b n t = (Inr sc, t')" "sc_ok sc"
    "sc_ciphertext sc = PBytes c" "verify_ciphertext L sc aad (sig_public_key kp) None = Inr ()"
    using sign_ciphertext_ok [OF assms] by blast
  obtain w where w: "signed_to_bytes L sc = Inr w" "signed_from_bytes L w = Inr sc"
    using signed_to_bytes_total [OF assms(1) sc(2)] signed_wire.dec_enc [of L sc] assms(1) sc(2) by blast
  have "verify_and_extract L w aad (sig_public_key kp) (Some pin) = Inl SignatureVerificationError"
    if "pin \<noteq> sig_public_key kp" for pin
    using that w(2) sc(4) unfolding verify_ciphertext_Inr_iff
    by (auto simp: verify_and_extract_def verify_ciphertext_def)
  moreover have "verify_ciphertext L sc aad (sig_public_key kp) (Some (sig_public_key kp)) = Inr ()"
    using sc(4) by (simp add: verify_ciphertext_Inr_iff)
  ultimately show ?thesis
    using sc w build_sig_input_inj [OF assms(1)]
    by (intro exI [of _ sc] exI [of _ t'] exI [of _ w])
      (auto simp: verify_and_extract_Inr_iff)
qed

text \<open>A signing key pair of the example library.\<close>

definition example_signing :: SigningKeypair where
  "example_signing = \<lparr>sig_public_key = zeros 32 @ zeros 2592, sig_secret_key = zeros 4896,
     ed25519_secret_key = zeros 32\<rparr>"

lemma fit_zeros [simp]: "m \<le> n \<Longrightarrow> fit m (zeros n) = zeros m"
  by (simp add: fit_def zeros_def min_def)

lemma example_signing_ok [simp]: "signing_ok example_lib example_signing"
  by (auto simp: signing_ok_def example_signing_def example_lib_sel
      intro!: exI [of _ "zeros 2592"] example_dsa_pair)

theorem signed_ciphertext_roundtrip_witness:
  "\<exists>sc t' w. sign_ciphertext example_lib example_signing [7] [1] [2] [3] 0 (\<lambda>_. 0) = (Inr sc, t') \<and>
    signed_to_bytes example_lib sc = Inr w \<and>
    verify_and_extract example_lib w [1] (sig_public_key example_signing) None = Inr sc"
  using signed_ciphertext_roundtrip [OF example_msgpack_correct example_ed25519_correct
      example_signing_ok, of "[7]" 0 "[1]" "[2]" "[3]" "\<lambda>_. 0"]
  by auto

text \<open>
  C27: acceptance means both signature halves verified over exactly the parsed fields and
  the caller's associated data, under the pinned key if one is given. If
  \<open>verify_and_extract\<close> returns, the payload was a five-element value with a uint64 index,
  a signature of 4691 bytes and a non-empty ciphertext, and Ed25519 and ML-DSA both
  accept. The documented uniform error has a gap: a payload whose signature field is an
  integer raises \<open>TypeError\<close>, whatever key or pin is used.
\<close>

theorem verify_and_extract_sound:
  shows "(\<forall>sc. verify_and_extract L data aad pk pin = Inr sc \<longrightarrow>
      (\<exists>m s. build_sig_input L (sc_ciphertext sc) aad (sc_sender_id sc) (sc_recipient_id sc)
           (sc_message_index sc) = Inr m \<and>
        sc_signature sc = PBytes s \<and> length s = 4691 \<and> length pk = 2624 \<and>
        ed25519_verify L (take 32 pk) (take 64 s) m = Inr () \<and>
        dsa_verify L m (drop 64 s) (drop 32 pk) = Inr True \<and>
        truthy (sc_ciphertext sc) \<and> is_uint64 (sc_message_index sc)) \<and> (pin = None \<or> pin = Some pk)) \<and>
    (\<forall>a b n k c. unpackb L data = Inr (PList [a, b, PInt n, PInt k, c]) \<and> 0 \<le> n \<and> n < 2 ^ 64 \<longrightarrow>
      verify_and_extract L data aad pk pin = Inl TypeError)"
proof (intro conjI allI impI)
  fix sc assume v: "verify_and_extract L data aad pk pin = Inr sc"
  then have p: "signed_from_bytes L data = Inr sc" "verify_ciphertext L sc aad pk pin = Inr ()"
    by (simp_all add: verify_and_extract_Inr_iff)
  then obtain m s where m: "build_sig_input L (sc_ciphertext sc) aad (sc_sender_id sc) (sc_recipient_id sc)
         (sc_message_index sc) = Inr m"
    "sc_signature sc = PBytes s" "verify_hybrid_signature L m s pk = Inr True"
    using verify_field_True by (fastforce simp: verify_ciphertext_Inr_iff)
  have "truthy (sc_ciphertext sc) \<and> is_uint64 (sc_message_index sc)"
    using p(1) by (auto simp: signed_from_bytes_def new_signed_ciphertext_def bindR_Inr_iff
        split: sum.splits list.splits)
  moreover have "length s = 4691 \<and> length pk = 2624 \<and> ed25519_verify L (take 32 pk) (take 64 s) m = Inr () \<and>
      dsa_verify L m (drop 64 s) (drop 32 pk) = Inr True"
    using m(3) by (auto simp: verify_hybrid_signature_def length_constants split: sum.splits if_splits)
  ultimately show "\<exists>m s. build_sig_input L (sc_ciphertext sc) aad (sc_sender_id sc) (sc_recipient_id sc)
           (sc_message_index sc) = Inr m \<and>
        sc_signature sc = PBytes s \<and> length s = 4691 \<and> length pk = 2624 \<and>
        ed25519_verify L (take 32 pk) (take 64 s) m = Inr () \<and>
        dsa_verify L m (drop 64 s) (drop 32 pk) = Inr True \<and>
        truthy (sc_ciphertext sc) \<and> is_uint64 (sc_message_index sc)"
    using m(1,2) by blast
  show "pin = None \<or> pin = Some pk" using p(2) by (simp add: verify_ciphertext_Inr_iff)
qed (auto simp: verify_and_extract_def signed_from_bytes_def)

theorem verify_and_extract_sound_witness:
  "verify_and_extract example_lib (concat (map example_item [PBytes [], PBytes [], PInt 0, PInt 5, PBytes [1]]))
     [] [] None = Inl TypeError"
  using verify_and_extract_sound [of example_lib
      "concat (map example_item [PBytes [], PBytes [], PInt 0, PInt 5, PBytes [1]])" "[]" "[]" None]
    example_unitems_items [of "[PBytes [], PBytes [], PInt 0, PInt 5, PBytes [1]]"]
  by (simp add: example_lib_sel example_unpackb_def)

end
