(* ===== verification/Pqxdh.thy ===== *)
theory Pqxdh
  imports Signatures
begin

text \<open>
  core/pqxdh.py: the PQXDH handshake. A remote bundle is the untyped dictionary the
  server delivers; the identifier in an \<open>InitiationBundle\<close> is whatever the sender put on
  the wire. \<open>_zeroise\<close> overwrites a local buffer that is not used again, so it has no
  counterpart.
\<close>

section \<open>Initiation bundles\<close>

record InitiationBundle =
  ib_ik_classical_pub :: bytes
  ib_ek_pub :: bytes
  ib_ct_pq :: bytes
  ib_opk_id :: pyval
  ib_used_identity_kem :: bool

definition ib_to_dict :: "InitiationBundle \<Rightarrow> pydict" where
  "ib_to_dict ib =
     [(lit ''ik_classical_pub'', PHex (ib_ik_classical_pub ib)),
      (lit ''ek_pub'', PHex (ib_ek_pub ib)),
      (lit ''ct_pq'', PHex (ib_ct_pq ib)),
      (lit ''opk_id'', ib_opk_id ib),
      (lit ''used_identity_kem'', PBool (ib_used_identity_kem ib))]"

definition ib_from_dict :: "pydict \<Rightarrow> InitiationBundle res" where
  "ib_from_dict d =
     bindR (hex_field d ''ik_classical_pub'') (\<lambda>ik.
     bindR (hex_field d ''ek_pub'') (\<lambda>ek.
     bindR (hex_field d ''ct_pq'') (\<lambda>ct.
     let opk_id = dict_get_or d ''opk_id'' PNone in
     bindR (dict_item d ''used_identity_kem'') (\<lambda>u.
     Inr \<lparr>ib_ik_classical_pub = ik, ib_ek_pub = ek, ib_ct_pq = ct, ib_opk_id = opk_id,
       ib_used_identity_kem = truthy u\<rparr>))))"

interpretation initiation: codec "\<lambda>ib. Inr (ib_to_dict ib)" ib_from_dict "\<lambda>_. True"
  by unfold_locales (auto simp: ib_to_dict_def ib_from_dict_def hex_field_def)

section \<open>Parsing the remote prekeys\<close>

text \<open>\<open>v[k]\<close> for a string \<open>k\<close>: only a dictionary can be indexed so.\<close>

definition py_item :: "pyval \<Rightarrow> string \<Rightarrow> pyval res" where
  "py_item v k = bindR (as_dict v) (\<lambda>d. dict_item d k)"

fun check_opk_ids :: "pyval list \<Rightarrow> pyval list \<Rightarrow> unit res" where
  "check_opk_ids (x # xs) (k # ks) =
     bindR (py_item x ''opk_id'') (\<lambda>i. bindR (py_item k ''opk_id'') (\<lambda>j.
     bindR (guardR (py_eq i j) MalformedBundleError) (\<lambda>_. check_opk_ids xs ks)))"
| "check_opk_ids _ _ = Inr ()"

definition parse_remote_opks :: "pydict \<Rightarrow> (pyval list \<times> pyval list) res" where
  "parse_remote_opks remote_bundle =
     (if \<not> dict_has remote_bundle ''opks_x25519'' \<or> \<not> dict_has remote_bundle ''opks_kem''
      then Inl MalformedBundleError
      else
       bindR (dict_item remote_bundle ''opks_x25519'') (\<lambda>x.
       bindR (dict_item remote_bundle ''opks_kem'') (\<lambda>k.
       bindR (py_len x) (\<lambda>m. bindR (py_len k) (\<lambda>n.
       bindR (guardR (m = n) MalformedBundleError) (\<lambda>_.
       bindR (py_iter x) (\<lambda>xs. bindR (py_iter k) (\<lambda>ks.
       bindR (check_opk_ids xs ks) (\<lambda>_.
       Inr (xs, ks))))))))))"

section \<open>The handshake\<close>

definition pqxdh_sk :: "crypto \<Rightarrow> bytes \<Rightarrow> bytes \<Rightarrow> bytes \<Rightarrow> bytes \<Rightarrow> bytes \<Rightarrow> bytes res" where
  "pqxdh_sk L dh1 dh2 dh3 dh4 ss_pq =
     hkdf_derive L (PQXDH_F @ dh1 @ dh2 @ dh3 @ dh4 @ ss_pq) PQXDH_HKDF_SALT INFO_PQXDH_SK
       (int PQXDH_SK_LEN)"

definition initiate ::
    "crypto \<Rightarrow> IdentityBundle \<Rightarrow> pydict \<Rightarrow> bool \<Rightarrow> (entropy, bytes \<times> InitiationBundle) eff" where
  "initiate L local_bundle remote_bundle allow_no_opk =
     bindE (liftE (hex_field remote_bundle ''ik_classical_pub'')) (\<lambda>ik_b_classical.
     bindE (liftE (hex_field remote_bundle ''ik_kem_pub'')) (\<lambda>ik_b_kem_pub.
     bindE (liftE (hex_field remote_bundle ''ik_sig_pub'')) (\<lambda>ik_b_sig_pub.
     bindE (liftE (hex_field remote_bundle ''spk_pub'')) (\<lambda>spk_b_pub.
     bindE (liftE (hex_field remote_bundle ''spk_sig'')) (\<lambda>spk_b_sig.
     bindE (liftE (dict_item remote_bundle ''spk_id'')) (\<lambda>spk_b_id.
     bindE (liftE (parse_remote_opks remote_bundle)) (\<lambda>(opks_x25519, opks_kem).
     bindE (liftE (case verify_spk_signature L spk_b_pub spk_b_sig ik_b_sig_pub of
               Inl e \<Rightarrow> Inl (if e = MalformedSignedCiphertextError then SPKVerificationError else e)
             | Inr v \<Rightarrow> Inr v)) (\<lambda>spk_valid.
     bindE (guardE spk_valid SPKVerificationError) (\<lambda>_.
     bindE (x25519_generate_keypair L) (\<lambda>ek_a.
     bindE (liftE (dh L (ik_classical local_bundle) spk_b_pub)) (\<lambda>dh1.
     bindE (liftE (dh L ek_a ik_b_classical)) (\<lambda>dh2.
     bindE (liftE (dh L ek_a spk_b_pub)) (\<lambda>dh3.
     bindE (case opks_x25519 of
              [] \<Rightarrow> returnE (PNone, [])
            | opk_x # _ \<Rightarrow>
                bindE (liftE (bindR (py_item opk_x ''opk_pub'') fromhex_val)) (\<lambda>opk_x_pub.
                bindE (liftE (py_item opk_x ''opk_id'')) (\<lambda>i.
                bindE (liftE (dh L ek_a opk_x_pub)) (\<lambda>dh4. returnE (i, dh4))))) (\<lambda>(opk_id_used, dh4).
     bindE (case opks_kem of
              opk_k # _ \<Rightarrow>
                bindE (liftE (bindR (py_item opk_k ''opk_pub'') fromhex_val)) (\<lambda>opk_b_kem_pub.
                bindE (kem_encap L opk_b_kem_pub) (\<lambda>(ct, ss). returnE (ct, ss, False)))
            | [] \<Rightarrow>
                if allow_no_opk then bindE (kem_encap L ik_b_kem_pub) (\<lambda>(ct, ss). returnE (ct, ss, True))
                else raiseE NoPrekeyError) (\<lambda>(ct_pq, ss_pq, used_identity_kem).
     bindE (liftE (pqxdh_sk L dh1 dh2 dh3 dh4 ss_pq)) (\<lambda>SK.
     returnE (SK, \<lparr>ib_ik_classical_pub = public_key_bytes L (ik_classical local_bundle),
       ib_ek_pub = public_key_bytes L ek_a, ib_ct_pq = ct_pq, ib_opk_id = opk_id_used,
       ib_used_identity_kem = used_identity_kem\<rparr>)))))))))))))))))"

text \<open>
  The responder's stores of OPK secrets, \<open>{opk_id: secret}\<close>. A key of the lookup is an
  integer, a boolean (which equals 0 or 1) or a float that is a whole number; another
  scalar is not found, and a list or a dictionary is not hashable.
\<close>

type_synonym opk_store = "int \<Rightarrow> bytes option"

fun opk_lookup :: "opk_store \<Rightarrow> pyval \<Rightarrow> bytes option res" where
  "opk_lookup m (PInt i) = Inr (m i)"
| "opk_lookup m (PBool b) = Inr (m (if b then 1 else 0))"
| "opk_lookup m (PFloat t) = Inr (Option.bind (float_whole t) m)"
| "opk_lookup m (PList vs) = Inl TypeError"
| "opk_lookup m (PDict d) = Inl TypeError"
| "opk_lookup m _ = Inr None"

definition x25519_dh :: "crypto \<Rightarrow> bytes \<Rightarrow> bytes \<Rightarrow> bytes res" where
  "x25519_dh L secret_key peer = bindR (x25519_load L secret_key) (\<lambda>priv. x25519_exchange L priv peer)"

definition respond ::
    "crypto \<Rightarrow> IdentityBundle \<Rightarrow> InitiationBundle \<Rightarrow> opk_store \<Rightarrow> opk_store \<Rightarrow> bytes res" where
  "respond L local_bundle initiation local_x25519_opks local_kem_opks =
     (let ik_a_classical = ib_ik_classical_pub initiation; ek_a_pub = ib_ek_pub initiation;
          ct_pq = ib_ct_pq initiation; opk_id = ib_opk_id initiation in
     bindR (dh L (spk_keypair (spk local_bundle)) ik_a_classical) (\<lambda>dh1.
     bindR (dh L (ik_classical local_bundle) ek_a_pub) (\<lambda>dh2.
     bindR (dh L (spk_keypair (spk local_bundle)) ek_a_pub) (\<lambda>dh3.
     bindR (if opk_id = PNone then Inr []
            else bindR (opk_lookup local_x25519_opks opk_id) (\<lambda>s. case s of
               None \<Rightarrow> Inl (PQXDHError ''X25519 OPK not found'')
             | Some sec \<Rightarrow> x25519_dh L sec ek_a_pub)) (\<lambda>dh4.
     bindR (if ib_used_identity_kem initiation then kem_decap L (kem_secret_key (ik_kem local_bundle)) ct_pq
            else if opk_id = PNone then Inl (PQXDHError ''ML-KEM OPK not found'')
            else bindR (opk_lookup local_kem_opks opk_id) (\<lambda>s. case s of
               None \<Rightarrow> Inl (PQXDHError ''ML-KEM OPK not found'')
             | Some sec \<Rightarrow> kem_decap L sec ct_pq)) (\<lambda>ss_pq.
     pqxdh_sk L dh1 dh2 dh3 dh4 ss_pq))))))"

text \<open>The stores a caller builds from its bundle: \<open>{o.opk_id: o.secret_key for o in ...}\<close>.\<close>

definition x25519_opk_store :: "IdentityBundle \<Rightarrow> opk_store" where
  "x25519_opk_store b = map_of (rev (map (\<lambda>x. (xopk_id x, xopk_secret_key x)) (x25519_opks b)))"

definition kem_opk_store :: "IdentityBundle \<Rightarrow> opk_store" where
  "kem_opk_store b = map_of (rev (map (\<lambda>k. (kopk_id k, kopk_secret_key k)) (kem_opks b)))"

section \<open>Lemmas\<close>

lemma dh_agree:
  assumes "x25519_correct L" "length (x_private a) = 32" "length (x_private b) = 32"
  shows "\<exists>s. dh L a (public_key_bytes L b) = Inr s \<and> dh L b (public_key_bytes L a) = Inr s \<and>
    x25519_dh L (x_private b) (public_key_bytes L a) = Inr s"
  using x25519_agree [OF assms] x25519_public_length [OF assms(1)] x25519_load_ok [OF assms(1)] assms(2,3)
  by (auto simp: dh_def public_key_bytes_def x25519_dh_def)

lemma pqxdh_sk_total:
  assumes "hkdf_correct L"
  shows "\<exists>sk. pqxdh_sk L d1 d2 d3 d4 ss = Inr sk \<and> length sk = 32"
proof -
  have "PQXDH_F @ d1 @ d2 @ d3 @ d4 @ ss \<noteq> []" "PQXDH_HKDF_SALT \<noteq> []"
    by (simp_all add: PQXDH_F_def PQXDH_HKDF_SALT_def)
  from hkdf_derive_total [OF assms this info_nonempty(1), of "int PQXDH_SK_LEN"]
  obtain sk where "pqxdh_sk L d1 d2 d3 d4 ss = Inr sk"
    unfolding pqxdh_sk_def by (auto simp: PQXDH_SK_LEN_def)
  with hkdf_derive_length [OF assms] show ?thesis
    unfolding pqxdh_sk_def by (fastforce simp: PQXDH_SK_LEN_def)
qed

abbreviation public_x25519_opks :: "IdentityBundle \<Rightarrow> pyval list" where
  "public_x25519_opks b \<equiv> map (\<lambda>o1. public_opk (xopk_id o1) (xopk_public_key o1)) (x25519_opks b)"

abbreviation public_kem_opks :: "IdentityBundle \<Rightarrow> pyval list" where
  "public_kem_opks b \<equiv> map (\<lambda>o1. public_opk (kopk_id o1) (kopk_public_key o1)) (kem_opks b)"

lemma py_item_public_opk [simp]:
  "py_item (public_opk i pub) ''opk_id'' = Inr (PInt i)"
  "py_item (public_opk i pub) ''opk_pub'' = Inr (PHex pub)"
  by (simp_all add: py_item_def public_opk_def)

lemma check_public_opk_ids:
  "map xopk_id xs = map kopk_id ks \<Longrightarrow>
   check_opk_ids (map (\<lambda>o1. public_opk (xopk_id o1) (xopk_public_key o1)) xs)
     (map (\<lambda>o1. public_opk (kopk_id o1) (kopk_public_key o1)) ks) = Inr ()"
proof (induction xs arbitrary: ks)
  case (Cons x xs)
  then obtain k ks' where k: "ks = k # ks'" "xopk_id x = kopk_id k" "map xopk_id xs = map kopk_id ks'"
    by (cases ks) simp_all
  show ?case by (simp add: k(1,2) Cons.IH [OF k(3)])
qed simp

lemma parse_public_opks:
  assumes "to_public_bundle L b = Inr p"
  shows "parse_remote_opks p = Inr (public_x25519_opks b, public_kem_opks b)"
proof -
  have ids: "map xopk_id (x25519_opks b) = map kopk_id (kem_opks b)"
    using assms by (auto simp: to_public_bundle_def bindR_Inr_iff assert_opk_lists_valid_iff)
  from arg_cong [OF this, of length] have "length (x25519_opks b) = length (kem_opks b)" by simp
  with assms check_public_opk_ids [OF ids] show ?thesis
    by (auto simp: to_public_bundle_def bindR_Inr_iff parse_remote_opks_def)
qed

lemma opk_store_head:
  assumes "bundle_ok L b" "x25519_opks b = x # xs" "kem_opks b = k # ks"
  shows "x25519_opk_store b (xopk_id x) = Some (xopk_secret_key x)"
    "kem_opk_store b (xopk_id x) = Some (kopk_secret_key k)"
proof -
  have "distinct (map xopk_id (x25519_opks b))" "map xopk_id (x25519_opks b) = map kopk_id (kem_opks b)"
    using assms(1) unfolding bundle_ok_def by blast+
  note d = this [unfolded assms(2,3)]
  from d(1) have "distinct (map kopk_id (k # ks))" unfolding d(2) .
  moreover from d(2) have "kopk_id k = xopk_id x" by simp
  ultimately have "map_of (rev (map (\<lambda>x. (xopk_id x, xopk_secret_key x)) xs)) (xopk_id x) = None"
    "map_of (rev (map (\<lambda>x. (kopk_id x, kopk_secret_key x)) ks)) (xopk_id x) = None"
    using d(1) by (auto simp: map_of_eq_None_iff image_image)
  with d(2) assms(2,3) show "x25519_opk_store b (xopk_id x) = Some (xopk_secret_key x)"
    "kem_opk_store b (xopk_id x) = Some (kopk_secret_key k)"
    by (simp_all add: x25519_opk_store_def kem_opk_store_def map_add_def)
qed

text \<open>Everything \<open>initiate\<close> reads of a well-formed bundle's public half.\<close>

lemma public_bundle_fields:
  assumes "to_public_bundle L b = Inr p"
  shows "hex_field p ''ik_classical_pub'' = Inr (public_key_bytes L (ik_classical b))"
    "hex_field p ''ik_kem_pub'' = Inr (kem_public_key (ik_kem b))"
    "hex_field p ''ik_sig_pub'' = Inr (sig_public_key (ik_sig b))"
    "hex_field p ''spk_pub'' = Inr (public_key_bytes L (spk_keypair (spk b)))"
    "hex_field p ''spk_sig'' = Inr (spk_signature (spk b))"
    "dict_item p ''spk_id'' = Inr (PInt (spk_id (spk b)))"
  using assms by (auto simp: to_public_bundle_def bindR_Inr_iff hex_field_def)

text \<open>The parties of a handshake: well-formed bundles over well-behaved libraries.\<close>

definition parties_ok :: "crypto \<Rightarrow> IdentityBundle \<Rightarrow> IdentityBundle \<Rightarrow> bool" where
  "parties_ok L a b \<longleftrightarrow> x25519_correct L \<and> hkdf_correct L \<and> bundle_ok L a \<and> bundle_ok L b"

lemma handshake:
  assumes ok: "parties_ok L a b" and p: "to_public_bundle L b = Inr p"
    and opks: "x25519_opks b \<noteq> [] \<or> allow"
  shows "\<exists>SK ib t'. initiate L a p allow t = (Inr (SK, ib), t') \<and> length SK = 32 \<and>
    respond L b ib (x25519_opk_store b) (kem_opk_store b) = Inr SK \<and>
    ib_opk_id ib = (case x25519_opks b of [] \<Rightarrow> PNone | x # _ \<Rightarrow> PInt (xopk_id x)) \<and>
    ib_used_identity_kem ib = (x25519_opks b = [])"
proof -
  note ok = ok [unfolded parties_ok_def]
  have x: "x25519_correct L" and h: "hkdf_correct L" and ba: "bundle_ok L a" and bb: "bundle_ok L b"
    using ok by blast+
  note len = ba [unfolded bundle_ok_def] bb [unfolded bundle_ok_def]
  obtain ek t1 where e: "x25519_generate L t = (ek, t1)" by force
  let ?ek = "\<lparr>x_private = ek\<rparr>"
  have le: "length (x_private ?ek) = 32" using x25519_generate_length [OF x e] by simp
  obtain s1 where s1: "dh L (ik_classical a) (public_key_bytes L (spk_keypair (spk b))) = Inr s1"
      "dh L (spk_keypair (spk b)) (public_key_bytes L (ik_classical a)) = Inr s1"
    using dh_agree [OF x] len by blast
  obtain s2 where s2: "dh L ?ek (public_key_bytes L (ik_classical b)) = Inr s2"
      "dh L (ik_classical b) (public_key_bytes L ?ek) = Inr s2"
    using dh_agree [OF x le] len by blast
  obtain s3 where s3: "dh L ?ek (public_key_bytes L (spk_keypair (spk b))) = Inr s3"
      "dh L (spk_keypair (spk b)) (public_key_bytes L ?ek) = Inr s3"
    using dh_agree [OF x le] len by blast
  have spk: "verify_spk_signature L (public_key_bytes L (spk_keypair (spk b))) (spk_signature (spk b))
       (sig_public_key (ik_sig b)) = Inr True"
    using len by blast
  have g: "x25519_generate_keypair L t = (Inr ?ek, t1)" using e by (simp add: x25519_generate_keypair_eq)
  note common = public_bundle_fields [OF p] parse_public_opks [OF p] spk g s1 s2 s3
  show ?thesis
  proof (cases "x25519_opks b")
    case Nil
    then have "kem_opks b = []" using len by simp
    obtain ct ss t2 where k: "kem_encap L (kem_public_key (ik_kem b)) t1 = (Inr (ct, ss), t2)"
        "kem_decap L (kem_secret_key (ik_kem b)) ct = Inr ss"
      using len unfolding kem_pair_def by blast
    obtain SK where "pqxdh_sk L s1 s2 s3 [] ss = Inr SK" "length SK = 32" using pqxdh_sk_total [OF h] by blast
    with common k Nil \<open>kem_opks b = []\<close> opks show ?thesis
      by (simp add: initiate_def respond_def)
  next
    case (Cons o1 os)
    then obtain q qs where q: "kem_opks b = q # qs"
      using len by (cases "kem_opks b") auto
    have o1: "xopk_public_key o1 = x25519_public L (xopk_secret_key o1)" "length (xopk_secret_key o1) = 32"
      and qk: "kem_pair L (kopk_public_key q) (kopk_secret_key q)"
      using len Cons q by auto
    obtain s4 where s4: "dh L ?ek (xopk_public_key o1) = Inr s4"
        "x25519_dh L (xopk_secret_key o1) (public_key_bytes L ?ek) = Inr s4"
      using dh_agree [OF x le, of "\<lparr>x_private = xopk_secret_key o1\<rparr>"] o1
      by (auto simp: public_key_bytes_def)
    obtain ct ss t2 where k: "kem_encap L (kopk_public_key q) t1 = (Inr (ct, ss), t2)"
        "kem_decap L (kopk_secret_key q) ct = Inr ss"
      using qk unfolding kem_pair_def by blast
    obtain SK where "pqxdh_sk L s1 s2 s3 s4 ss = Inr SK" "length SK = 32" using pqxdh_sk_total [OF h] by blast
    with common k Cons q s4 opk_store_head [OF bb Cons q] show ?thesis
      by (simp add: initiate_def respond_def)
  qed
qed

section \<open>Properties\<close>

text \<open>
  C7: both parties of a PQXDH handshake derive the same shared secret. For well-formed
  bundles, initiating against the other side's public bundle succeeds when it offers a
  prekey pair or \<open>allow_no_opk\<close> is set; the initiation bundle survives its dictionary
  form; and the responder, looking up the referenced pair in the stores built from its
  bundle, derives the same 32-byte secret, with and without one-time prekeys.
\<close>

theorem pqxdh_agreement:
  assumes "parties_ok L a b" and "to_public_bundle L b = Inr p" and "x25519_opks b \<noteq> [] \<or> allow"
  shows "\<exists>SK ib ib' t'. initiate L a p allow t = (Inr (SK, ib), t') \<and>
    ib_from_dict (ib_to_dict ib) = Inr ib' \<and>
    respond L b ib' (x25519_opk_store b) (kem_opk_store b) = Inr SK \<and> length SK = 32"
  using handshake [OF assms, of t] initiation.dec_enc by blast

lemma example_parties: "\<exists>b. parties_ok example_lib b b \<and> map xopk_id (x25519_opks b) = [1]"
proof -
  obtain b t' where "generate_identity_bundle example_lib [] 1 (\<lambda>_. 0) = (Inr b, t')" "bundle_ok example_lib b"
    "map xopk_id (x25519_opks b) = map (\<lambda>j. 1 + int j) [0..<nat 1]"
    using generate_identity_bundle_bundle_ok [of example_lib "[]" 1 "\<lambda>_. 0"] by auto
  then show ?thesis by (auto simp: parties_ok_def)
qed

theorem pqxdh_agreement_witness:
  "\<exists>b p SK ib ib' t'. initiate example_lib b p False (\<lambda>_. 5) = (Inr (SK, ib), t') \<and>
     respond example_lib b ib' (x25519_opk_store b) (kem_opk_store b) = Inr SK"
proof -
  obtain b where b: "parties_ok example_lib b b" "map xopk_id (x25519_opks b) = [1]"
    using example_parties by (elim exE conjE) (rule that)
  then have ne: "x25519_opks b \<noteq> [] \<or> False" by auto
  obtain p where "to_public_bundle example_lib b = Inr p"
    using b(1) bundle_ok_ids [of example_lib b] by (auto simp: parties_ok_def to_public_bundle_def)
  from pqxdh_agreement [OF b(1) this ne] show ?thesis by blast
qed

text \<open>Two list entries that carry the same prekey identifier.\<close>

definition same_opk_id :: "pyval \<Rightarrow> pyval \<Rightarrow> bool" where
  "same_opk_id x k \<longleftrightarrow> (\<exists>i j. py_item x ''opk_id'' = Inr i \<and> py_item k ''opk_id'' = Inr j \<and> py_eq i j)"

definition has_opk_id :: "pyval \<Rightarrow> bool" where
  "has_opk_id x \<longleftrightarrow> (\<exists>i. py_item x ''opk_id'' = Inr i)"

lemma check_opk_ids_Inr: "check_opk_ids xs ks = Inr () \<Longrightarrow> length xs = length ks \<Longrightarrow> list_all2 same_opk_id xs ks"
  by (induction xs ks rule: check_opk_ids.induct) (auto simp: bindR_Inr_iff same_opk_id_def)

lemma check_opk_ids_mismatch:
  "length xs = length ks \<Longrightarrow> \<not> list_all2 same_opk_id xs ks \<Longrightarrow> list_all has_opk_id (xs @ ks) \<Longrightarrow>
     check_opk_ids xs ks = Inl MalformedBundleError"
proof (induction xs ks rule: check_opk_ids.induct)
  case (1 x xs k ks)
  obtain i j where "py_item x ''opk_id'' = Inr i" "py_item k ''opk_id'' = Inr j" using "1.prems"(3) by (auto simp: has_opk_id_def)
  with 1 show ?case by (cases "py_eq i j") (auto simp: same_opk_id_def)
qed auto

text \<open>The two lists of a bundle, accepted exactly when they are paired.\<close>

lemma parse_remote_opks_cases:
  shows "dict_get r ''opks_x25519'' = None \<or> dict_get r ''opks_kem'' = None \<Longrightarrow> parse_remote_opks r = Inl MalformedBundleError"
    and "dict_get r ''opks_x25519'' = Some (PList xs) \<Longrightarrow> dict_get r ''opks_kem'' = Some (PList ks) \<Longrightarrow>
      parse_remote_opks r = (if length xs = length ks then bindR (check_opk_ids xs ks) (\<lambda>_. Inr (xs, ks)) else Inl MalformedBundleError)"
  by (auto simp: parse_remote_opks_def dict_has_def dict_item_def guardR_def)

lemma initiate_parses_opks:
  assumes "hex_field r ''ik_classical_pub'' = Inr ikc" "hex_field r ''ik_kem_pub'' = Inr ikk"
    "hex_field r ''ik_sig_pub'' = Inr iks" "hex_field r ''spk_pub'' = Inr pub"
    "hex_field r ''spk_sig'' = Inr sg" "dict_item r ''spk_id'' = Inr i"
  shows "parse_remote_opks r = Inl e \<Longrightarrow> initiate L a r allow t = (Inl e, t)"
    and "initiate L a r allow t = (Inr (SK, ib), t') \<Longrightarrow> \<exists>v. parse_remote_opks r = Inr v"
  using assms by (auto simp: initiate_def bindE_eq_Inr)

text \<open>
  C30: a substituted signed prekey or a tampered list of one-time prekeys stops the
  handshake before any secret exists. When the lists are well formed but the signature over
  the signed prekey does not verify under the bundle's identity key (or has the wrong
  shape), \<open>initiate\<close> raises \<open>SPKVerificationError\<close>. It raises \<open>MalformedBundleError\<close> when one
  of the two lists is missing, when they differ in length, and when they are of the same
  length and all entries carry an identifier, but some two at one index are different. All
  this is before an ephemeral key is drawn. If it returns, the signed prekey did verify and the
  two lists, whatever else they hold, are of the same length with equal identifiers.
\<close>

theorem initiate_checks_remote_bundle:
  assumes "hex_field r ''ik_classical_pub'' = Inr ikc" "hex_field r ''ik_kem_pub'' = Inr ikk"
    "hex_field r ''ik_sig_pub'' = Inr iks" "hex_field r ''spk_pub'' = Inr pub"
    "hex_field r ''spk_sig'' = Inr sg" "dict_item r ''spk_id'' = Inr i"
  shows "(\<forall>v. parse_remote_opks r = Inr v \<longrightarrow> verify_spk_signature L pub sg iks \<noteq> Inr True \<longrightarrow>
      initiate L a r allow t = (Inl SPKVerificationError, t)) \<and>
    (dict_get r ''opks_x25519'' = None \<or> dict_get r ''opks_kem'' = None \<longrightarrow>
      initiate L a r allow t = (Inl MalformedBundleError, t)) \<and>
    (\<forall>xs ks. dict_get r ''opks_x25519'' = Some (PList xs) \<longrightarrow> dict_get r ''opks_kem'' = Some (PList ks) \<longrightarrow>
      length xs \<noteq> length ks \<or> list_all has_opk_id (xs @ ks) \<and> \<not> list_all2 same_opk_id xs ks \<longrightarrow>
      initiate L a r allow t = (Inl MalformedBundleError, t)) \<and>
    (\<forall>SK ib t'. initiate L a r allow t = (Inr (SK, ib), t') \<longrightarrow>
      verify_spk_signature L pub sg iks = Inr True \<and>
      ib_ik_classical_pub ib = public_key_bytes L (ik_classical a) \<and>
      (\<forall>xs ks. dict_get r ''opks_x25519'' = Some (PList xs) \<longrightarrow> dict_get r ''opks_kem'' = Some (PList ks) \<longrightarrow>
        list_all2 same_opk_id xs ks))"
proof (intro conjI allI impI)
  note parse = initiate_parses_opks [OF assms, where L = L and a = a and allow = allow and t = t]
  have err: "e = MalformedSignedCiphertextError" if "verify_spk_signature L pub sg iks = Inl e" for e
    using that by (auto simp: verify_spk_signature_def verify_hybrid_signature_def Let_def split: if_split_asm)
  show "initiate L a r allow t = (Inl SPKVerificationError, t)"
    if "parse_remote_opks r = Inr v" "verify_spk_signature L pub sg iks \<noteq> Inr True" for v
    using assms err that by (cases v; cases "verify_spk_signature L pub sg iks"; auto simp: initiate_def)
  show "initiate L a r allow t = (Inl MalformedBundleError, t)"
    if "dict_get r ''opks_x25519'' = None \<or> dict_get r ''opks_kem'' = None"
    using parse(1) parse_remote_opks_cases(1) [OF that] .
  show "initiate L a r allow t = (Inl MalformedBundleError, t)"
    if "dict_get r ''opks_x25519'' = Some (PList xs)" "dict_get r ''opks_kem'' = Some (PList ks)"
      "length xs \<noteq> length ks \<or> list_all has_opk_id (xs @ ks) \<and> \<not> list_all2 same_opk_id xs ks" for xs ks
    using parse(1) parse_remote_opks_cases(2) [OF that(1,2)] check_opk_ids_mismatch [of xs ks] that(3) by auto
  fix SK ib t' assume r: "initiate L a r allow t = (Inr (SK, ib), t')"
  show "verify_spk_signature L pub sg iks = Inr True" "ib_ik_classical_pub ib = public_key_bytes L (ik_classical a)"
    using r assms err by (cases "verify_spk_signature L pub sg iks"; auto simp: initiate_def bindE_eq_Inr)+
  show "list_all2 same_opk_id xs ks"
    if "dict_get r ''opks_x25519'' = Some (PList xs)" "dict_get r ''opks_kem'' = Some (PList ks)" for xs ks
    using parse(2) [OF r] parse_remote_opks_cases(2) [OF that] check_opk_ids_Inr [of xs ks]
    by (auto simp: bindR_Inr_iff split: if_splits)
qed

text \<open>A bundle with a signature of the wrong shape, and the same with prekeys 1 and 2 at one index.\<close>

definition example_remote :: "pyval list \<Rightarrow> pyval list \<Rightarrow> pydict" where
  "example_remote xs ks = [(lit ''ik_classical_pub'', PHex []), (lit ''ik_kem_pub'', PHex []), (lit ''ik_sig_pub'', PHex []),
     (lit ''spk_pub'', PHex []), (lit ''spk_sig'', PHex []), (lit ''spk_id'', PInt 1),
     (lit ''opks_x25519'', PList xs), (lit ''opks_kem'', PList ks)]"

theorem initiate_checks_remote_bundle_witness:
  "\<forall>b. initiate example_lib b (example_remote [] []) True (\<lambda>_. 0) = (Inl SPKVerificationError, \<lambda>_. 0) \<and>
    initiate example_lib b (example_remote [PDict [(lit ''opk_id'', PInt 1)]] [PDict [(lit ''opk_id'', PInt 2)]]) True (\<lambda>_. 0) =
      (Inl MalformedBundleError, \<lambda>_. 0)"
proof
  fix b
  have h: "hex_field (example_remote xs ks) ''ik_classical_pub'' = Inr []" "hex_field (example_remote xs ks) ''ik_kem_pub'' = Inr []"
    "hex_field (example_remote xs ks) ''ik_sig_pub'' = Inr []" "hex_field (example_remote xs ks) ''spk_pub'' = Inr []"
    "hex_field (example_remote xs ks) ''spk_sig'' = Inr []" "dict_item (example_remote xs ks) ''spk_id'' = Inr (PInt 1)" for xs ks
    by (simp_all add: example_remote_def hex_field_def fromhex_val_def)
  have l: "dict_get (example_remote xs ks) ''opks_x25519'' = Some (PList xs)" "dict_get (example_remote xs ks) ''opks_kem'' = Some (PList ks)" for xs ks
    by (simp_all add: example_remote_def)
  let ?x = "PDict [(lit ''opk_id'', PInt 1)]" and ?k = "PDict [(lit ''opk_id'', PInt 2)]"
  note t = initiate_checks_remote_bundle [OF h, where L = example_lib and a = b and allow = True and t = "\<lambda>_. 0"]
  have "verify_spk_signature example_lib [] [] [] \<noteq> Inr True"
    by (simp add: verify_spk_signature_def verify_hybrid_signature_def length_constants)
  then have "initiate example_lib b (example_remote [] []) True (\<lambda>_. 0) = (Inl SPKVerificationError, \<lambda>_. 0)"
    using t [THEN conjunct1] parse_remote_opks_cases(2) [OF l, of "[]" "[]"] by simp
  moreover have "list_all has_opk_id ([?x] @ [?k])" "\<not> list_all2 same_opk_id [?x] [?k]"
    by (simp_all add: has_opk_id_def same_opk_id_def py_item_def)
  then have "initiate example_lib b (example_remote [?x] [?k]) True (\<lambda>_. 0) = (Inl MalformedBundleError, \<lambda>_. 0)"
    using t [THEN conjunct2, THEN conjunct2, THEN conjunct1] l by blast
  ultimately show "initiate example_lib b (example_remote [] []) True (\<lambda>_. 0) = (Inl SPKVerificationError, \<lambda>_. 0) \<and>
    initiate example_lib b (example_remote [?x] [?k]) True (\<lambda>_. 0) = (Inl MalformedBundleError, \<lambda>_. 0)" by blast
qed

text \<open>
  The responder never leaves out the post-quantum leg and never invents a prekey. If
  \<open>respond\<close> returns a secret, that secret includes a decapsulation of the received
  ciphertext, under the identity key if the initiator said so and otherwise under the
  referenced one-time key, and a referenced X25519 prekey was in the store. Referencing
  an identifier that is not in the store raises \<open>PQXDHError\<close>, as does a missing one
  without the identity-key fallback.
\<close>

lemma respond_uses_known_prekeys:
  assumes "dh L (spk_keypair (spk b)) (ib_ik_classical_pub ib) = Inr d1"
    "dh L (ik_classical b) (ib_ek_pub ib) = Inr d2" "dh L (spk_keypair (spk b)) (ib_ek_pub ib) = Inr d3"
  shows "(\<forall>SK. respond L b ib xs ks = Inr SK \<longrightarrow>
      (\<exists>d4 ss sk. kem_decap L sk (ib_ct_pq ib) = Inr ss \<and> pqxdh_sk L d1 d2 d3 d4 ss = Inr SK \<and>
        (if ib_used_identity_kem ib then sk = kem_secret_key (ik_kem b)
         else opk_lookup ks (ib_opk_id ib) = Inr (Some sk)) \<and>
        (if ib_opk_id ib = PNone then d4 = []
         else \<exists>sec. opk_lookup xs (ib_opk_id ib) = Inr (Some sec) \<and> x25519_dh L sec (ib_ek_pub ib) = Inr d4))) \<and>
    (\<forall>i. ib_opk_id ib = PInt i \<longrightarrow> xs i = None \<longrightarrow>
      respond L b ib xs ks = Inl (PQXDHError ''X25519 OPK not found'')) \<and>
    (ib_opk_id ib = PNone \<longrightarrow> \<not> ib_used_identity_kem ib \<longrightarrow>
      respond L b ib xs ks = Inl (PQXDHError ''ML-KEM OPK not found''))"
proof (intro conjI allI impI)
  fix SK assume "respond L b ib xs ks = Inr SK"
  then obtain d4 ss where
    d4: "(if ib_opk_id ib = PNone then Inr []
          else bindR (opk_lookup xs (ib_opk_id ib)) (\<lambda>s. case s of
             None \<Rightarrow> Inl (PQXDHError ''X25519 OPK not found'')
           | Some sec \<Rightarrow> x25519_dh L sec (ib_ek_pub ib))) = Inr d4"
    and ss: "(if ib_used_identity_kem ib then kem_decap L (kem_secret_key (ik_kem b)) (ib_ct_pq ib)
          else if ib_opk_id ib = PNone then Inl (PQXDHError ''ML-KEM OPK not found'')
          else bindR (opk_lookup ks (ib_opk_id ib)) (\<lambda>s. case s of
             None \<Rightarrow> Inl (PQXDHError ''ML-KEM OPK not found'')
           | Some sec \<Rightarrow> kem_decap L sec (ib_ct_pq ib))) = Inr ss"
    and sk: "pqxdh_sk L d1 d2 d3 d4 ss = Inr SK"
    by (auto simp: respond_def Let_def assms bindR_Inr_iff simp del: if_split)
  have "if ib_opk_id ib = PNone then d4 = []
      else \<exists>sec. opk_lookup xs (ib_opk_id ib) = Inr (Some sec) \<and> x25519_dh L sec (ib_ek_pub ib) = Inr d4"
    using d4 by (auto simp: bindR_Inr_iff split: option.splits if_splits)
  moreover obtain sk where "kem_decap L sk (ib_ct_pq ib) = Inr ss" "if ib_used_identity_kem ib
      then sk = kem_secret_key (ik_kem b) else opk_lookup ks (ib_opk_id ib) = Inr (Some sk)"
    using ss by (auto simp: bindR_Inr_iff split: option.splits if_splits)
  ultimately show "\<exists>d4 ss sk. kem_decap L sk (ib_ct_pq ib) = Inr ss \<and> pqxdh_sk L d1 d2 d3 d4 ss = Inr SK \<and>
        (if ib_used_identity_kem ib then sk = kem_secret_key (ik_kem b)
         else opk_lookup ks (ib_opk_id ib) = Inr (Some sk)) \<and>
        (if ib_opk_id ib = PNone then d4 = []
         else \<exists>sec. opk_lookup xs (ib_opk_id ib) = Inr (Some sec) \<and> x25519_dh L sec (ib_ek_pub ib) = Inr d4)"
    using sk by blast
qed (simp_all add: respond_def assms)

end
