(* ===== verification/State_Store.thy ===== *)
theory State_Store
  imports Py_Json Pqxdh
begin

text \<open>
  core/state_store.py: the encrypted on-disk store. The disk is one base directory: its
  salt file and the files of \<open>sessions/\<close>, by name. A \<open>StateStore\<close> object is its
  encryption key (the base directory is the world's). Every atomic write takes the next
  entry of \<open>write_plan\<close>, which says what the operating system does to it: complete,
  a short write, or a failure before or after the rename; an empty plan completes.
  Temporary siblings are never read and are not kept. Names the file system refuses
  (a NUL, more than 255 bytes) fail at the rename.
\<close>

section \<open>The disk\<close>

datatype write_outcome = Completes | Short nat | Fails_before | Fails_after

record world =
  tape :: entropy
  base_exists :: bool
  salt_file :: "bytes option"
  sess_files :: "(pystr \<times> bytes) list"
  write_plan :: "write_outcome list"

definition on_tape :: "(entropy, 'a) eff \<Rightarrow> (world, 'a) eff" where
  "on_tape m = zoomE tape (\<lambda>t w. w\<lparr>tape := t\<rparr>) m"

definition next_outcome :: "(world, write_outcome) eff" where
  "next_outcome w = (case write_plan w of
      [] \<Rightarrow> (Inr Completes, w) | x # xs \<Rightarrow> (Inr x, w\<lparr>write_plan := xs\<rparr>))"

text \<open>
  \<open>_atomic_write\<close>: the temporary file is filled with \<open>os.write\<close> (which may store only a
  prefix and says so in a result that is not looked at), synced, renamed over the target,
  and the directory is synced. \<open>put\<close> is the rename.
\<close>

definition atomic_write :: "(bytes \<Rightarrow> world \<Rightarrow> world) \<Rightarrow> bytes \<Rightarrow> (world, unit) eff" where
  "atomic_write put data =
     bindE (modifyE (\<lambda>w. w\<lparr>base_exists := True\<rparr>)) (\<lambda>_.
     bindE next_outcome (\<lambda>out. case out of
       Completes \<Rightarrow> modifyE (put data)
     | Short n \<Rightarrow> modifyE (put (take n data))
     | Fails_before \<Rightarrow> raiseE OSError
     | Fails_after \<Rightarrow> bindE (modifyE (put data)) (\<lambda>_. raiseE OSError)))"

definition name_ok :: "pystr \<Rightarrow> bool" where
  "name_ok n \<longleftrightarrow> 0 \<notin> set n \<and> (case utf8_encode n of Inl e \<Rightarrow> False | Inr b \<Rightarrow> length b \<le> 255)"

definition write_file :: "pystr \<Rightarrow> bytes \<Rightarrow> (world, unit) eff" where
  "write_file n data =
     (if name_ok n then atomic_write (\<lambda>b w. w\<lparr>sess_files := AList.update n b (sess_files w)\<rparr>) data
      else raiseE (if 0 \<in> set n then ValueError ''embedded null byte'' else OSError))"

definition read_file :: "pystr \<Rightarrow> (world, bytes) eff" where
  "read_file n w = ((case map_of (sess_files w) n of None \<Rightarrow> Inl FileNotFoundError | Some b \<Rightarrow> Inr b), w)"

definition file_exists :: "pystr \<Rightarrow> world \<Rightarrow> bool" where
  "file_exists n w \<longleftrightarrow> map_of (sess_files w) n \<noteq> None"

text \<open>\<open>path.unlink()\<close> with \<open>FileNotFoundError\<close> ignored.\<close>

definition unlink_file :: "pystr \<Rightarrow> (world, unit) eff" where
  "unlink_file n = modifyE (\<lambda>w. w\<lparr>sess_files := AList.delete n (sess_files w)\<rparr>)"

section \<open>Session metadata\<close>

record SessionMetadata =
  md_session_id :: pyval
  md_remote_user :: pyval
  md_created_at :: pyval
  md_last_active :: pyval
  md_message_count :: int
  md_is_initiator :: bool
  md_opk_id_used :: pyval

definition md_to_dict :: "SessionMetadata \<Rightarrow> pydict" where
  "md_to_dict m =
     [(lit ''session_id'', md_session_id m), (lit ''remote_user'', md_remote_user m),
      (lit ''created_at'', md_created_at m), (lit ''last_active'', md_last_active m),
      (lit ''message_count'', PInt (md_message_count m)), (lit ''is_initiator'', PBool (md_is_initiator m)),
      (lit ''opk_id_used'', md_opk_id_used m)]"

text \<open>
  \<open>float(v)\<close> on a decoded JSON value; an integer becomes the float with that literal (only
  for magnitudes below $2^{53}$, where it is exact; no timestamp is larger).
\<close>

fun py_float :: "pyval \<Rightarrow> pyval res" where
  "py_float (PFloat t) = Inr (PFloat t)"
| "py_float (PInt n) = (if \<bar>n\<bar> < 2 ^ 53 then Inr (PFloat (map char_of (dec_int n @ [46, 48])))
     else Inl OverflowError)"
| "py_float (PBool b) = Inr (PFloat (if b then ''1.0'' else ''0.0''))"
| "py_float (PStr s) = Inl (ValueError ''could not convert string to float'')"
| "py_float _ = Inl TypeError"

definition md_from_dict :: "pydict \<Rightarrow> SessionMetadata res" where
  "md_from_dict d =
     bindR (dict_item d ''session_id'') (\<lambda>sid. bindR (dict_item d ''remote_user'') (\<lambda>user.
     bindR (bindR (dict_item d ''created_at'') py_float) (\<lambda>c.
     bindR (bindR (dict_item d ''last_active'') py_float) (\<lambda>a.
     bindR (py_int (dict_get_or d ''message_count'' (PInt 0))) (\<lambda>n.
     Inr \<lparr>md_session_id = sid, md_remote_user = user, md_created_at = c, md_last_active = a,
       md_message_count = n, md_is_initiator = truthy (dict_get_or d ''is_initiator'' (PBool True)),
       md_opk_id_used = dict_get_or d ''opk_id_used'' PNone\<rparr>)))))"

section \<open>The store\<close>

record StateStore =
  enc_key :: bytes

definition state_name :: "pystr \<Rightarrow> pystr" where
  "state_name session_id = session_id @ lit ''.state''"

definition meta_name :: "pystr \<Rightarrow> pystr" where
  "meta_name session_id = session_id @ lit ''.meta''"

text \<open>The characters the code forbids: slash, backslash, colon, star, question mark, double
  quote, angle brackets and bar.\<close>

definition forbidden :: "nat list" where
  "forbidden = [47, 92, 58, 42, 63, 34, 60, 62, 124]"

definition validate_session_id :: "pystr \<Rightarrow> unit res" where
  "validate_session_id session_id =
     (if session_id = [] then Inl (ValueError ''session_id must not be empty'')
      else if (\<exists>c\<in>set session_id. c \<in> set forbidden)
      then Inl (ValueError ''session_id contains forbidden characters'')
      else if take 1 session_id = lit ''.'' then Inl (ValueError ''session_id must not start with a dot'')
      else Inr ())"

definition make_ad :: "pystr \<Rightarrow> string \<Rightarrow> bytes res" where
  "make_ad session_id file_type =
     utf8_encode (lit ''statestore-v1:'' @ lit file_type @ lit '':'' @ session_id)"

definition encrypt_write ::
    "crypto \<Rightarrow> StateStore \<Rightarrow> pystr \<Rightarrow> bytes \<Rightarrow> bytes \<Rightarrow> (world, unit) eff" where
  "encrypt_write L st path plaintext ad =
     bindE (on_tape (drawE (urandom NONCE_LEN))) (\<lambda>nonce.
     bindE (liftE (chacha_encrypt L (enc_key st) nonce plaintext ad)) (\<lambda>ciphertext.
     write_file path (nonce @ ciphertext)))"

definition read_decrypt :: "crypto \<Rightarrow> StateStore \<Rightarrow> pystr \<Rightarrow> bytes \<Rightarrow> (world, bytes) eff" where
  "read_decrypt L st path ad =
     bindE (read_file path) (\<lambda>blob.
     bindE (guardE (\<not> length blob < NONCE_LEN + TAG_LEN) (ValueError ''Encrypted file too short'')) (\<lambda>_.
     liftE (chacha_decrypt L (enc_key st) (take NONCE_LEN blob) (drop NONCE_LEN blob) ad)))"

definition save_state :: "crypto \<Rightarrow> StateStore \<Rightarrow> pystr \<Rightarrow> pyval \<Rightarrow> (world, unit) eff" where
  "save_state L st session_id state =
     bindE (liftE (validate_session_id session_id)) (\<lambda>_.
     bindE (liftE (json_encode state)) (\<lambda>payload.
     bindE (liftE (make_ad session_id ''state'')) (\<lambda>ad.
     encrypt_write L st (state_name session_id) payload ad)))"

definition load_state :: "crypto \<Rightarrow> StateStore \<Rightarrow> pystr \<Rightarrow> (world, pyval) eff" where
  "load_state L st session_id =
     bindE (liftE (validate_session_id session_id)) (\<lambda>_.
     bindE (getE (file_exists (state_name session_id))) (\<lambda>there.
     bindE (guardE there FileNotFoundError) (\<lambda>_.
     bindE (liftE (make_ad session_id ''state'')) (\<lambda>ad.
     bindE (read_decrypt L st (state_name session_id) ad) (\<lambda>payload.
     liftE (json_decode payload))))))"

definition state_exists :: "pystr \<Rightarrow> world \<Rightarrow> bool" where
  "state_exists session_id = file_exists (state_name session_id)"

definition save_metadata :: "crypto \<Rightarrow> StateStore \<Rightarrow> pystr \<Rightarrow> SessionMetadata \<Rightarrow> (world, unit) eff" where
  "save_metadata L st session_id meta =
     bindE (liftE (validate_session_id session_id)) (\<lambda>_.
     bindE (liftE (json_encode (PDict (md_to_dict meta)))) (\<lambda>payload.
     bindE (liftE (make_ad session_id ''meta'')) (\<lambda>ad.
     encrypt_write L st (meta_name session_id) payload ad)))"

definition load_metadata :: "crypto \<Rightarrow> StateStore \<Rightarrow> pystr \<Rightarrow> (world, SessionMetadata) eff" where
  "load_metadata L st session_id =
     bindE (liftE (validate_session_id session_id)) (\<lambda>_.
     bindE (getE (file_exists (meta_name session_id))) (\<lambda>there.
     bindE (guardE there FileNotFoundError) (\<lambda>_.
     bindE (liftE (make_ad session_id ''meta'')) (\<lambda>ad.
     bindE (read_decrypt L st (meta_name session_id) ad) (\<lambda>payload.
     bindE (liftE (bindR (json_decode payload) as_dict)) (\<lambda>d.
     liftE (md_from_dict d)))))))"

definition metadata_exists :: "pystr \<Rightarrow> world \<Rightarrow> bool" where
  "metadata_exists session_id = file_exists (meta_name session_id)"

text \<open>The stems of the names that match \<open>*.state\<close> (a name that is only the suffix has itself as its stem).\<close>

definition list_sessions :: "world \<Rightarrow> pystr list" where
  "list_sessions w =
     map (\<lambda>n. if length n = 6 then n else take (length n - 6) n)
       (filter (\<lambda>n. 6 \<le> length n \<and> drop (length n - 6) n = lit ''.state'') (map fst (sess_files w)))"

definition delete_session :: "pystr \<Rightarrow> (world, unit) eff" where
  "delete_session session_id =
     bindE (liftE (validate_session_id session_id)) (\<lambda>_.
     bindE (unlink_file (state_name session_id)) (\<lambda>_.
     unlink_file (meta_name session_id)))"

definition save_counter :: "crypto \<Rightarrow> StateStore \<Rightarrow> pystr \<Rightarrow> int \<Rightarrow> (world, unit) eff" where
  "save_counter L st session_id counter_value =
     bindE (liftE (validate_session_id session_id)) (\<lambda>_.
     bindE (getE (state_exists session_id)) (\<lambda>there.
     bindE (if there then bindE (load_state L st session_id) (\<lambda>v. liftE (as_dict v)) else returnE []) (\<lambda>state.
     save_state L st session_id (PDict (dict_set state ''header_counter'' (PInt counter_value))))))"

definition load_counter :: "crypto \<Rightarrow> StateStore \<Rightarrow> pystr \<Rightarrow> (world, int) eff" where
  "load_counter L st session_id =
     bindE (liftE (validate_session_id session_id)) (\<lambda>_.
     bindE (getE (state_exists session_id)) (\<lambda>there.
     if \<not> there then returnE 0
     else bindE (load_state L st session_id) (\<lambda>v.
          bindE (liftE (as_mapping v)) (\<lambda>state.
          liftE (py_int (dict_get_or state ''header_counter'' (PInt 0)))))))"

section \<open>Opening a store\<close>

text \<open>The constructor makes the directories.\<close>

definition new_store :: "bytes \<Rightarrow> (world, StateStore) eff" where
  "new_store key = bindE (modifyE (\<lambda>w. w\<lparr>base_exists := True\<rparr>)) (\<lambda>_. returnE \<lparr>enc_key = key\<rparr>)"

definition write_salt :: "bytes \<Rightarrow> (world, unit) eff" where
  "write_salt = atomic_write (\<lambda>b w. w\<lparr>salt_file := Some b\<rparr>)"

definition create_store :: "crypto \<Rightarrow> pystr \<Rightarrow> (world, StateStore) eff" where
  "create_store L passphrase =
     bindE (modifyE (\<lambda>w. w\<lparr>base_exists := True\<rparr>)) (\<lambda>_.
     bindE (getE salt_file) (\<lambda>present.
     bindE (guardE (present = None) FileExistsError) (\<lambda>_.
     bindE (on_tape (argon2id_derive_key L passphrase None)) (\<lambda>(raw_key, salt).
     bindE (liftE (hkdf_derive L raw_key salt INFO_LOCAL_KEY_ENC 32)) (\<lambda>key.
     bindE (write_salt salt) (\<lambda>_.
     new_store key))))))"

text \<open>The existence and length checks on the salt file that both loaders make.\<close>

definition read_salt :: "(world, bytes) eff" where
  "read_salt =
     bindE (getE salt_file) (\<lambda>present.
     bindE (liftE (case present of None \<Rightarrow> Inl FileNotFoundError | Some salt \<Rightarrow> Inr salt)) (\<lambda>salt.
     bindE (guardE (length salt = ARGON2_SALT_LEN) (ValueError ''Corrupt salt file'')) (\<lambda>_.
     returnE salt)))"

definition load_store :: "crypto \<Rightarrow> pystr \<Rightarrow> (world, StateStore) eff" where
  "load_store L passphrase =
     bindE read_salt (\<lambda>salt.
     bindE (on_tape (argon2id_derive_key L passphrase (Some salt))) (\<lambda>(raw_key, _).
     bindE (liftE (hkdf_derive L raw_key salt INFO_LOCAL_KEY_ENC 32)) (\<lambda>key.
     new_store key)))"

definition create_with_key :: "bytes \<Rightarrow> bytes \<Rightarrow> (world, StateStore) eff" where
  "create_with_key key master_salt =
     bindE (guardE (length master_salt = ARGON2_SALT_LEN) (ValueError ''master_salt must be 32 bytes'')) (\<lambda>_.
     bindE (modifyE (\<lambda>w. w\<lparr>base_exists := True\<rparr>)) (\<lambda>_.
     bindE (getE salt_file) (\<lambda>present.
     bindE (guardE (present = None) FileExistsError) (\<lambda>_.
     bindE (write_salt master_salt) (\<lambda>_.
     new_store key)))))"

definition load_with_key :: "bytes \<Rightarrow> (world, StateStore) eff" where
  "load_with_key key = bindE read_salt (\<lambda>_. new_store key)"

section \<open>Storage as an interface\<close>

text \<open>
  What the session layer and the service rely on. \<open>healthy\<close> worlds complete their
  writes; \<open>id_ok\<close> and \<open>val_ok\<close> are the identifiers and values that can be stored.
\<close>

fun run_ops :: "(pystr \<Rightarrow> pyval \<Rightarrow> ('w, unit) eff) \<Rightarrow> (pystr \<Rightarrow> ('w, unit) eff) \<Rightarrow>
    (pystr \<times> pyval option) list \<Rightarrow> 'w \<Rightarrow> 'w" where
  "run_ops sv rm [] w = w"
| "run_ops sv rm ((i, Some v) # ops) w = run_ops sv rm ops (snd (sv i v w))"
| "run_ops sv rm ((i, None) # ops) w = run_ops sv rm ops (snd (rm i w))"

locale state_storage =
  fixes save :: "pystr \<Rightarrow> pyval \<Rightarrow> ('w, unit) eff"
    and load :: "pystr \<Rightarrow> ('w, pyval) eff"
    and present :: "pystr \<Rightarrow> 'w \<Rightarrow> bool"
    and remove :: "pystr \<Rightarrow> ('w, unit) eff"
    and healthy :: "'w \<Rightarrow> bool"
    and id_ok :: "pystr \<Rightarrow> bool"
    and val_ok :: "pyval \<Rightarrow> bool"
  assumes save_total: "healthy w \<Longrightarrow> id_ok i \<Longrightarrow> val_ok v \<Longrightarrow> \<exists>w'. save i v w = (Inr (), w')"
    and save_healthy: "healthy w \<Longrightarrow> healthy (snd (save i v w))"
    and load_saved: "healthy w \<Longrightarrow> id_ok i \<Longrightarrow> val_ok v \<Longrightarrow> save i v w = (Inr (), w') \<Longrightarrow>
      load i w' = (Inr v, w')"
    and save_present: "save i v w = (Inr (), w') \<Longrightarrow> present i w'"
    and save_other: "save i v w = (r, w') \<Longrightarrow> i \<noteq> j \<Longrightarrow>
      fst (load j w') = fst (load j w) \<and> present j w' = present j w"
    and load_pure: "snd (load i w) = w"
    and load_absent: "id_ok i \<Longrightarrow> \<not> present i w \<Longrightarrow> fst (load i w) = Inl FileNotFoundError"
    and remove_gone: "id_ok i \<Longrightarrow> \<exists>w'. remove i w = (Inr (), w') \<and> \<not> present i w'"
    and remove_other: "remove i w = (r, w') \<Longrightarrow> i \<noteq> j \<Longrightarrow>
      fst (load j w') = fst (load j w) \<and> present j w' = present j w"
    and remove_healthy: "healthy w \<Longrightarrow> healthy (snd (remove i w))"
begin

lemma load_eq: "load i w = (fst (load i w), w)"
  using load_pure [of i w] by (metis prod.collapse)

text \<open>What was saved under one identifier survives saves and removals under others.\<close>

lemma load_after_other_save:
  assumes "healthy w" "id_ok i" "val_ok v" "save i v w = (Inr (), w')" "save j u w' = (r, w'')" "i \<noteq> j"
  shows "load i w'' = (Inr v, w'')"
  using load_saved [OF assms(1-4)] save_other [OF assms(5)] assms(6) load_eq [of i w''] by simp

lemma load_after_other_remove:
  assumes "healthy w" "id_ok i" "val_ok v" "save i v w = (Inr (), w')" "remove j w' = (r, w'')" "i \<noteq> j"
  shows "load i w'' = (Inr v, w'')"
  using load_saved [OF assms(1-4)] remove_other [OF assms(5)] assms(6) load_eq [of i w''] by simp

lemma load_overwritten:
  assumes "healthy w" "id_ok i" "val_ok u" "save i v w = (r, w')" "save i u w' = (Inr (), w'')"
  shows "load i w'' = (Inr u, w'')"
  using save_healthy [OF assms(1), of i v] assms by (intro load_saved) auto

text \<open>The same for any sequence of saves and removals, whatever they return.\<close>

lemma load_after_ops:
  "i \<notin> fst ` set ops \<Longrightarrow> fst (load i (run_ops save remove ops w)) = fst (load i w) \<and>
     present i (run_ops save remove ops w) = present i w"
proof (induction ops arbitrary: w)
  case (Cons op ops)
  obtain j ov where op: "op = (j, ov)" by (cases op)
  with Cons.prems have ij: "j \<noteq> i" "i \<notin> fst ` set ops" by auto
  show ?case
  proof (cases ov)
    case None
    have "remove j w = (fst (remove j w), snd (remove j w))" by simp
    from remove_other [OF this ij(1)] Cons.IH [OF ij(2)] show ?thesis by (simp add: op None)
  next
    case (Some v)
    have "save j v w = (fst (save j v w), snd (save j v w))" by simp
    from save_other [OF this ij(1)] Cons.IH [OF ij(2)] show ?thesis by (simp add: op Some)
  qed
qed simp

lemma load_removed: "id_ok i \<Longrightarrow> remove i w = (r, w') \<Longrightarrow> load i w' = (Inl FileNotFoundError, w')"
  using remove_gone [of i w] load_absent [of i w'] load_eq [of i w'] by auto

end

section \<open>The store provides it\<close>

lemma on_tape_sel:
  "on_tape m w = (fst (m (tape w)), w\<lparr>tape := snd (m (tape w))\<rparr>)"
  by (simp add: on_tape_def zoomE_def split: prod.splits)

text \<open>Loading is a function of the one file it reads.\<close>

definition load_result :: "crypto \<Rightarrow> StateStore \<Rightarrow> pystr \<Rightarrow> bytes option \<Rightarrow> pyval res" where
  "load_result L st i f =
     bindR (validate_session_id i) (\<lambda>_. case f of None \<Rightarrow> Inl FileNotFoundError | Some blob \<Rightarrow>
     bindR (make_ad i ''state'') (\<lambda>ad.
     bindR (guardR (\<not> length blob < NONCE_LEN + TAG_LEN) (ValueError ''Encrypted file too short'')) (\<lambda>_.
     bindR (chacha_decrypt L (enc_key st) (take NONCE_LEN blob) (drop NONCE_LEN blob) ad) json_decode)))"

lemma load_state_eq: "load_state L st i w = (load_result L st i (map_of (sess_files w) (state_name i)), w)"
  by (auto simp: load_state_def load_result_def read_decrypt_def read_file_def file_exists_def bindE_def
      bindR_def guardR_def split: sum.splits option.splits)

lemma state_name_inj [simp]: "state_name i = state_name j \<longleftrightarrow> i = j"
  by (simp add: state_name_def)

lemma state_name_neq_meta_name [simp]: "state_name i \<noteq> meta_name j" "meta_name j \<noteq> state_name i"
proof -
  show "state_name i \<noteq> meta_name j"
  proof
    assume "state_name i = meta_name j"
    then have "drop (length (state_name i) - 6) (state_name i) = drop (length (meta_name j) - 6) (meta_name j)"
      by simp
    then have "lit ''.state'' = drop (length j - 1) j @ lit ''.meta''"
      by (simp add: state_name_def meta_name_def lit_def)
    from arg_cong [OF this, of rev] show False by (simp add: lit_def)
  qed
  then show "meta_name j \<noteq> state_name i" by metis
qed

text \<open>Whatever the outcome of a write, only its own file changes.\<close>

lemma write_file_frame:
  "write_file n d w = (r, w') \<Longrightarrow> m \<noteq> n \<Longrightarrow> map_of (sess_files w') m = map_of (sess_files w) m"
  by (auto simp: write_file_def atomic_write_def next_outcome_def bindE_def update_conv'
      split: if_splits prod.splits sum.splits list.splits write_outcome.splits)

lemma write_file_salt:
  "write_file n d w = (r, w') \<Longrightarrow> salt_file w' = salt_file w \<and> tape w' = tape w"
  by (auto simp: write_file_def atomic_write_def next_outcome_def bindE_def
      split: if_splits prod.splits sum.splits list.splits write_outcome.splits)

text \<open>The four contents its own file can have afterwards.\<close>

lemma write_file_own:
  assumes "write_file n d w = (r, w')"
  shows "(r = Inr () \<and> (map_of (sess_files w') n = Some d \<or>
      (\<exists>k. map_of (sess_files w') n = Some (take k d) \<and> write_plan w \<noteq> [] \<and> hd (write_plan w) = Short k))) \<or>
    (\<exists>e. r = Inl e \<and> (map_of (sess_files w') n = map_of (sess_files w) n \<or> map_of (sess_files w') n = Some d))"
  using assms
  by (auto simp: write_file_def atomic_write_def next_outcome_def bindE_def update_conv'
      split: if_splits prod.splits sum.splits list.splits write_outcome.splits)

definition quiet :: "world \<Rightarrow> bool" where
  "quiet w \<longleftrightarrow> set (write_plan w) \<subseteq> {Completes}"

lemma write_file_quiet:
  assumes "quiet w" "name_ok n"
  shows "\<exists>w'. write_file n d w = (Inr (), w') \<and> map_of (sess_files w') n = Some d"
proof (cases "write_plan w")
  case Nil
  with assms show ?thesis
    by (simp add: write_file_def atomic_write_def next_outcome_def bindE_def update_conv')
next
  case (Cons x xs)
  with assms(1) have "x = Completes" by (simp add: quiet_def)
  with assms Cons show ?thesis
    by (simp add: write_file_def atomic_write_def next_outcome_def bindE_def update_conv')
qed

lemma atomic_write_quiet: "(\<And>b v. write_plan (put b v) = write_plan v) \<Longrightarrow> quiet w \<Longrightarrow> quiet (snd (atomic_write put d w))"
  by (auto simp: atomic_write_def next_outcome_def bindE_def quiet_def
      split: prod.splits sum.splits list.splits write_outcome.splits)

lemma write_file_keeps_quiet: "quiet w \<Longrightarrow> quiet (snd (write_file n d w))"
  by (simp add: write_file_def atomic_write_quiet)

lemma save_state_cases:
  "save_state L st i v w =
     (case bindR (validate_session_id i) (\<lambda>_. bindR (json_encode v) (\<lambda>p. bindR (make_ad i ''state'') (\<lambda>ad. Inr (p, ad)))) of
        Inl e \<Rightarrow> (Inl e, w)
      | Inr (p, ad) \<Rightarrow> (let (nonce, t) = urandom NONCE_LEN (tape w); w1 = w\<lparr>tape := t\<rparr> in
          case chacha_encrypt L (enc_key st) nonce p ad of Inl e \<Rightarrow> (Inl e, w1)
          | Inr c \<Rightarrow> write_file (state_name i) (nonce @ c) w1))"
  by (auto simp: save_state_def encrypt_write_def on_tape_sel drawE_def bindE_def bindR_def
      split: sum.splits prod.splits)

lemma save_state_frame:
  assumes "save_state L st i v w = (r, w')" and "m \<noteq> state_name i"
  shows "map_of (sess_files w') m = map_of (sess_files w) m"
  using assms write_file_frame [of "state_name i" _ _ r w' m]
  by (auto simp: save_state_cases Let_def split: sum.splits prod.splits)

lemma save_state_quiet: "quiet w \<Longrightarrow> quiet (snd (save_state L st i v w))"
proof -
  assume "quiet w"
  then have "quiet (w\<lparr>tape := t\<rparr>)" for t by (simp add: quiet_def)
  with \<open>quiet w\<close> show ?thesis
    by (auto simp: save_state_cases Let_def write_file_keeps_quiet split: sum.splits prod.splits)
qed

definition storable :: "pystr \<Rightarrow> bool" where
  "storable i \<longleftrightarrow> validate_session_id i = Inr () \<and> name_ok (state_name i)"

lemma make_ad_total: "storable i \<Longrightarrow> \<exists>ad. make_ad i ft = Inr ad"
  using utf8_encode_scalar [OF lit_scalar, of ft] utf8_encode_scalar [OF lit_scalar, of "'':''"]
    utf8_encode_scalar [OF lit_scalar, of "''statestore-v1:''"]
  by (auto simp: storable_def name_ok_def state_name_def make_ad_def utf8_encode_append
      bindR_def split: sum.splits)

lemma sealed_blob:
  assumes "aead_correct L" "length k = 32" "length n = 12" "chacha_encrypt L k n p ad = Inr c"
  shows "length (n @ c) \<ge> NONCE_LEN + TAG_LEN"
    and "chacha_decrypt L k (take NONCE_LEN (n @ c)) (drop NONCE_LEN (n @ c)) ad = Inr p"
  using aead_correctD [OF assms] assms(3) by (simp_all add: length_constants)

lemma save_state_write:
  assumes "aead_correct L" "length (enc_key st) = 32" "storable i" "json_ok v"
    and "save_state L st i v w = (r, w')"
  shows "\<exists>b t. write_file (state_name i) b (w\<lparr>tape := t\<rparr>) = (r, w') \<and> load_result L st i (Some b) = Inr v"
proof -
  obtain ad where ad: "make_ad i ''state'' = Inr ad" using make_ad_total [OF assms(3)] by blast
  obtain p where p: "json_encode v = Inr p" using json_encode_total [OF assms(4)] by blast
  have dp: "json_decode p = Inr v" by (rule json_bytes.dec_enc [OF assms(4) p])
  have v: "validate_session_id i = Inr ()" using assms(3) by (simp add: storable_def)
  obtain n t where n: "urandom NONCE_LEN (tape w) = (n, t)" by force
  then have ln: "length n = 12" by (auto dest: urandom_length simp: NONCE_LEN_def)
  obtain c where c: "chacha_encrypt L (enc_key st) n p ad = Inr c"
    using aead_correct_total [OF assms(1,2) ln] by blast
  have "write_file (state_name i) (n @ c) (w\<lparr>tape := t\<rparr>) = (r, w')"
    using assms(5) by (simp add: save_state_cases v p ad n c)
  moreover from sealed_blob [OF assms(1,2) ln c]
  have "load_result L st i (Some (n @ c)) = Inr v"
    by (simp add: load_result_def v ad dp not_less del: take_append drop_append)
  ultimately show ?thesis by blast
qed

lemma save_state_ok:
  assumes "aead_correct L" "length (enc_key st) = 32" "quiet w" "storable i" "json_ok v"
  shows "\<exists>w'. save_state L st i v w = (Inr (), w') \<and>
    load_result L st i (map_of (sess_files w') (state_name i)) = Inr v"
proof -
  obtain r w' where s: "save_state L st i v w = (r, w')" by force
  from save_state_write [OF assms(1,2,4,5) s] obtain b t where
    b: "write_file (state_name i) b (w\<lparr>tape := t\<rparr>) = (r, w')" "load_result L st i (Some b) = Inr v" by blast
  have "quiet (w\<lparr>tape := t\<rparr>)" "name_ok (state_name i)" using assms(3,4) by (simp_all add: quiet_def storable_def)
  from write_file_quiet [OF this, of b] b s show ?thesis by auto
qed

text \<open>A world whose system calls fail or complete but never store a prefix.\<close>

definition no_short :: "world \<Rightarrow> bool" where
  "no_short w \<longleftrightarrow> (\<forall>k. Short k \<notin> set (write_plan w))"

lemma quiet_no_short: "quiet w \<Longrightarrow> no_short w"
  by (auto simp: quiet_def no_short_def)

lemma write_file_no_short: "no_short w \<Longrightarrow> no_short (snd (write_file n d w))"
  by (auto simp: write_file_def atomic_write_def next_outcome_def bindE_def no_short_def
      split: prod.splits sum.splits list.splits write_outcome.splits)

lemma save_state_no_short: "no_short w \<Longrightarrow> no_short (snd (save_state L st i v w))"
proof -
  assume "no_short w"
  then have "no_short (w\<lparr>tape := t\<rparr>)" for t by (simp add: no_short_def)
  with \<open>no_short w\<close> show ?thesis
    by (auto simp: save_state_cases Let_def write_file_no_short split: sum.splits prod.splits)
qed

lemma save_state_contained:
  assumes "aead_correct L" "length (enc_key st) = 32" "storable i" "json_ok v" "no_short w"
    and "save_state L st i v w = (r, w')"
  shows "load_state L st i w' = (Inr v, w') \<or>
    r \<noteq> Inr () \<and> fst (load_state L st i w') = fst (load_state L st i w)"
proof -
  obtain b t where b: "write_file (state_name i) b (w\<lparr>tape := t\<rparr>) = (r, w')"
    "load_result L st i (Some b) = Inr v" using save_state_write [OF assms(1-4,6)] by blast
  have "\<not> (write_plan w \<noteq> [] \<and> hd (write_plan w) = Short k)" for k
    using assms(5) by (cases "write_plan w") (auto simp: no_short_def)
  with write_file_own [OF b(1)] b(2) show ?thesis by (auto simp: load_state_eq)
qed

lemma save_state_present: "save_state L st i v w = (Inr (), w') \<Longrightarrow> state_exists i w'"
  using write_file_own [of "state_name i" _ _ "Inr ()" w']
  by (auto simp: save_state_cases Let_def state_exists_def file_exists_def split: sum.splits prod.splits)

lemma md_roundtrip:
  assumes "py_float (md_created_at m) = Inr (md_created_at m)" "py_float (md_last_active m) = Inr (md_last_active m)"
  shows "md_from_dict (md_to_dict m) = Inr m"
  using assms by (simp add: md_from_dict_def md_to_dict_def)

lemma delete_session_eq:
  "validate_session_id i = Inr () \<Longrightarrow> delete_session i w =
     (Inr (), w\<lparr>sess_files := AList.delete (meta_name i) (AList.delete (state_name i) (sess_files w))\<rparr>)"
  by (simp add: delete_session_def unlink_file_def)

lemma delete_session_frame:
  assumes "delete_session i w = (r, w')" and "m \<noteq> state_name i" "m \<noteq> meta_name i"
  shows "map_of (sess_files w') m = map_of (sess_files w) m"
  using assms by (auto simp: delete_session_def unlink_file_def bindE_def delete_conv' split: sum.splits)

interpretation store: state_storage "save_state L st" "load_state L st" state_exists delete_session
  "\<lambda>w. aead_correct L \<and> length (enc_key st) = 32 \<and> quiet w" storable json_ok for L st
proof
  fix w :: world and i j :: pystr and v :: pyval
  show "\<exists>w'. save_state L st i v w = (Inr (), w')"
    if "aead_correct L \<and> length (enc_key st) = 32 \<and> quiet w" "storable i" "json_ok v"
    using save_state_ok that by blast
  show "aead_correct L \<and> length (enc_key st) = 32 \<and> quiet (snd (save_state L st i v w))"
    if "aead_correct L \<and> length (enc_key st) = 32 \<and> quiet w"
    using that by (simp add: save_state_quiet)
  show "load_state L st i w' = (Inr v, w')"
    if "aead_correct L \<and> length (enc_key st) = 32 \<and> quiet w" "storable i" "json_ok v"
      "save_state L st i v w = (Inr (), w')" for w'
    using save_state_ok [of L st w i v] that by (auto simp: load_state_eq)
  show "state_exists i w'" if "save_state L st i v w = (Inr (), w')" for w'
    using that by (rule save_state_present)
  show "fst (load_state L st j w') = fst (load_state L st j w) \<and> state_exists j w' = state_exists j w"
    if "save_state L st i v w = (r, w')" "i \<noteq> j" for w' r
    using save_state_frame [OF that(1), of "state_name j"] that(2)
    by (simp add: load_state_eq state_exists_def file_exists_def)
  show "snd (load_state L st i w) = w" by (simp add: load_state_eq)
  show "fst (load_state L st i w) = Inl FileNotFoundError" if "storable i" "\<not> state_exists i w"
    using that by (simp add: load_state_eq load_result_def storable_def state_exists_def file_exists_def)
  show "\<exists>w'. delete_session i w = (Inr (), w') \<and> \<not> state_exists i w'" if "storable i"
    using that by (simp add: delete_session_eq storable_def state_exists_def file_exists_def delete_conv')
  show "fst (load_state L st j w') = fst (load_state L st j w) \<and> state_exists j w' = state_exists j w"
    if "delete_session i w = (r, w')" "i \<noteq> j" for w' r
    using delete_session_frame [OF that(1), of "state_name j"] that(2)
    by (simp add: load_state_eq state_exists_def file_exists_def)
  show "aead_correct L \<and> length (enc_key st) = 32 \<and> quiet (snd (delete_session i w))"
    if "aead_correct L \<and> length (enc_key st) = 32 \<and> quiet w"
    using that by (auto simp: delete_session_def unlink_file_def bindE_def quiet_def split: sum.splits)
qed

section \<open>Properties\<close>

text \<open>
  Ratchet state survives. On a disk that completes its writes, saving a JSON value
  under a valid session identifier succeeds, and after any further sequence of saves and
  deletions of other sessions, successful or not, loading it gives back exactly that
  value; overwriting gives the newer value and deleting makes it unavailable.
\<close>

lemma saved_state_survives:
  assumes "aead_correct L" "length (enc_key st) = 32" "quiet w" "storable i" "json_ok v" "json_ok u"
    and "i \<notin> fst ` set ops"
  shows "\<exists>w1 w2 w3. save_state L st i v w = (Inr (), w1) \<and>
    fst (load_state L st i (run_ops (save_state L st) delete_session ops w1)) = Inr v \<and>
    save_state L st i u w1 = (Inr (), w2) \<and> load_state L st i w2 = (Inr u, w2) \<and>
    delete_session i w2 = (Inr (), w3) \<and> load_state L st i w3 = (Inl FileNotFoundError, w3) \<and>
    \<not> state_exists i w3"
proof -
  have h: "aead_correct L \<and> length (enc_key st) = 32 \<and> quiet w" using assms by blast
  obtain w1 where w1: "save_state L st i v w = (Inr (), w1)"
    using store.save_total [OF h assms(4,5)] by blast
  have h1: "aead_correct L \<and> length (enc_key st) = 32 \<and> quiet w1"
    using store.save_healthy [OF h, of i v] w1 by simp
  obtain w2 where w2: "save_state L st i u w1 = (Inr (), w2)"
    using store.save_total [OF h1 assms(4,6)] by blast
  obtain w3 where w3: "delete_session i w2 = (Inr (), w3)" "\<not> state_exists i w3"
    using store.remove_gone [OF assms(4)] by blast
  show ?thesis
    using store.load_saved [OF h assms(4,5) w1] store.load_after_ops [OF assms(7), of L st w1]
      store.load_overwritten [OF h assms(4,6) w1 w2] store.load_removed [OF assms(4) w3(1)] w1 w2 w3
    by simp
qed

text \<open>A world with an empty disk, and a store on it.\<close>

definition example_world :: world where
  "example_world = \<lparr>tape = (\<lambda>_. 0), base_exists = False, salt_file = None, sess_files = [], write_plan = []\<rparr>"

definition example_store :: StateStore where "example_store = \<lparr>enc_key = zeros 32\<rparr>"

lemma example_storable: "storable (lit ''a'')"
  by (simp add: storable_def validate_session_id_def forbidden_def lit_def name_ok_def state_name_def
      utf8_char_def)

text \<open>
  C29: a write that goes wrong damages at most its own session, and the atomic replacement
  has one gap. Whatever the disk does, \<open>save_state\<close> leaves every other session's state as
  it was. Unless the system call stores a short prefix, the session's file afterwards is
  the old one or loads to the new state, and to the new state when \<open>save_state\<close> returned.
  A short write, however, is installed and reported as success (\<open>os.write\<close>'s result is
  not checked): with fewer than 28 bytes stored the next load raises \<open>ValueError\<close>.
\<close>

theorem save_state_failure_containment:
  assumes "aead_correct L" "length (enc_key st) = 32" "storable i" "json_ok v"
    and "save_state L st i v w = (r, w')"
  shows "(\<forall>j. j \<noteq> i \<longrightarrow> fst (load_state L st j w') = fst (load_state L st j w)) \<and>
    ((\<forall>k. write_plan w \<noteq> [] \<longrightarrow> hd (write_plan w) \<noteq> Short k) \<longrightarrow>
      (if r = Inr () then fst (load_state L st i w') = Inr v
       else fst (load_state L st i w') = Inr v \<or> fst (load_state L st i w') = fst (load_state L st i w))) \<and>
    (\<forall>k ks. write_plan w = Short k # ks \<longrightarrow> k < 28 \<longrightarrow>
      r = Inr () \<and> fst (load_state L st i w') = Inl (ValueError ''Encrypted file too short''))"
proof (intro conjI allI impI)
  fix j assume "j \<noteq> i"
  then show "fst (load_state L st j w') = fst (load_state L st j w)"
    using store.save_other [OF assms(5), of j] by simp
next
  note c = save_state_write [OF assms]
  show "if r = Inr () then fst (load_state L st i w') = Inr v
       else fst (load_state L st i w') = Inr v \<or> fst (load_state L st i w') = fst (load_state L st i w)"
    if "\<forall>k. write_plan w \<noteq> [] \<longrightarrow> hd (write_plan w) \<noteq> Short k"
  proof -
    from c obtain b t where b: "write_file (state_name i) b (w\<lparr>tape := t\<rparr>) = (r, w')"
      "load_result L st i (Some b) = Inr v" by blast
    from write_file_own [OF b(1)] that b(2) show ?thesis by (auto simp: load_state_eq)
  qed
  fix k ks assume k: "write_plan w = Short k # ks" "k < 28"
  from c obtain b t where b: "write_file (state_name i) b (w\<lparr>tape := t\<rparr>) = (r, w')" by blast
  have n: "name_ok (state_name i)" "validate_session_id i = Inr ()" using assms(3) by (simp_all add: storable_def)
  obtain ad where "make_ad i ''state'' = Inr ad" using make_ad_total [OF assms(3)] by blast
  moreover have "r = Inr () \<and> map_of (sess_files w') (state_name i) = Some (take k b)"
    using b k n(1) by (auto simp: write_file_def atomic_write_def next_outcome_def update_conv')
  ultimately show "r = Inr ()" "fst (load_state L st i w') = Inl (ValueError ''Encrypted file too short'')"
    using k(2) n(2) by (simp_all add: load_state_eq load_result_def length_constants min_less_iff_disj)
qed

theorem save_state_failure_containment_witness:
  "fst (load_state example_lib example_store (lit ''a'') (snd (save_state example_lib example_store (lit ''a'')
     (PInt 1) (example_world\<lparr>write_plan := [Short 3]\<rparr>)))) = Inl (ValueError ''Encrypted file too short'')"
  using save_state_failure_containment [OF example_aead_correct, of example_store "lit ''a''" "PInt 1"
      "example_world\<lparr>write_plan := [Short 3]\<rparr>" _ "snd (save_state example_lib example_store (lit ''a'')
     (PInt 1) (example_world\<lparr>write_plan := [Short 3]\<rparr>))", OF _ example_storable _ prod.collapse [symmetric]]
  by (simp add: example_store_def)

text \<open>Names in the sessions directory, as the store makes them.\<close>

definition own_name :: "pystr \<Rightarrow> bool" where
  "own_name n \<longleftrightarrow> (\<exists>i. validate_session_id i = Inr () \<and> (n = state_name i \<or> n = meta_name i))"

definition names_ok :: "world \<Rightarrow> bool" where
  "names_ok w \<longleftrightarrow> (\<forall>n. map_of (sess_files w) n \<noteq> None \<longrightarrow> own_name n)"

lemma keeps_names_on_tape [keeps_intros]: "keepsE names_ok (on_tape m)"
  by (simp add: keepsE_def on_tape_sel names_ok_def)

lemma keeps_names_salt [keeps_intros]: "keepsE names_ok (write_salt d)"
  by (auto simp: keepsE_def write_salt_def atomic_write_def next_outcome_def bindE_def names_ok_def
      split: prod.splits sum.splits list.splits write_outcome.splits)

lemma keeps_names_base [keeps_intros]: "keepsE names_ok (modifyE (\<lambda>w. w\<lparr>base_exists := True\<rparr>))"
  by (simp add: keepsE_def names_ok_def)

lemma keeps_names_write [keeps_intros]: "own_name n \<Longrightarrow> keepsE names_ok (write_file n d)"
  unfolding keepsE_def names_ok_def
  by (metis prod.collapse write_file_frame)

lemma keeps_names_unlink [keeps_intros]: "keepsE names_ok (unlink_file n)"
  by (simp add: keepsE_def unlink_file_def names_ok_def delete_conv')

lemma keeps_names_read [keeps_intros]: "keepsE names_ok (read_file n)"
  by (simp add: keepsE_def read_file_def)

lemma keeps_valid:
  assumes "validate_session_id i = Inr () \<Longrightarrow> keepsE P m"
  shows "keepsE P (bindE (liftE (validate_session_id i)) (\<lambda>_. m))"
  using assms by (auto simp: keepsE_def bindE_def split: sum.splits)

lemma keeps_names_save [keeps_intros]: "keepsE names_ok (save_state L st i v)"
  "keepsE names_ok (save_metadata L st i md)"
  unfolding save_state_def save_metadata_def encrypt_write_def
  by (rule keeps_valid, intro keeps_intros, auto simp: own_name_def)+

lemma keeps_names_load [keeps_intros]: "keepsE names_ok (load_state L st i)"
  "keepsE names_ok (load_metadata L st i)"
  unfolding load_state_def load_metadata_def read_decrypt_def by (intro keeps_intros)+

lemma keeps_names_counter [keeps_intros]: "keepsE names_ok (save_counter L st i n)"
  "keepsE names_ok (load_counter L st i)"
  unfolding save_counter_def load_counter_def by (intro keeps_intros)+

lemma keeps_names_delete [keeps_intros]: "keepsE names_ok (delete_session i)"
  unfolding delete_session_def by (intro keeps_intros)

lemma keeps_names_open [keeps_intros]: "keepsE names_ok (create_store L p)" "keepsE names_ok (load_store L p)"
  "keepsE names_ok (create_with_key k s)" "keepsE names_ok (load_with_key k)"
  unfolding create_store_def load_store_def create_with_key_def load_with_key_def new_store_def read_salt_def
  by (intro keeps_intros; clarsimp; intro keeps_intros)+

text \<open>
  C40: no identifier reaches outside the sessions directory. Every operation of the store,
  successful or not, keeps the invariant that the directory holds only files named after
  identifiers that passed the check, plus \<open>.state\<close> or \<open>.meta\<close>; such a name contains no
  path separator and is not hidden, and an operation on a refused identifier raises
  \<open>ValueError\<close> and changes nothing.
\<close>

theorem store_names_contained:
  shows "keepsE names_ok (save_state L st i v) \<and> keepsE names_ok (load_state L st i) \<and>
    keepsE names_ok (save_metadata L st i md) \<and> keepsE names_ok (load_metadata L st i) \<and>
    keepsE names_ok (save_counter L st i n) \<and> keepsE names_ok (load_counter L st i) \<and>
    keepsE names_ok (delete_session i) \<and> keepsE names_ok (create_store L p) \<and>
    keepsE names_ok (load_store L p) \<and> keepsE names_ok (create_with_key k s) \<and>
    keepsE names_ok (load_with_key k) \<and>
    (own_name f \<longrightarrow> f \<noteq> [] \<and> 47 \<notin> set f \<and> 92 \<notin> set f \<and> hd f \<noteq> 46) \<and>
    (validate_session_id i \<noteq> Inr () \<longrightarrow> (\<exists>m. validate_session_id i = Inl (ValueError m) \<and>
      save_state L st i v w = (Inl (ValueError m), w) \<and> load_state L st i w = (Inl (ValueError m), w) \<and>
      delete_session i w = (Inl (ValueError m), w)))"
proof (intro conjI impI keeps_intros)
  assume "own_name f"
  then obtain i where i: "validate_session_id i = Inr ()" "f = i @ lit ''.state'' \<or> f = i @ lit ''.meta''"
    by (auto simp: own_name_def state_name_def meta_name_def)
  from i(1) have "i \<noteq> []" "47 \<notin> set i" "92 \<notin> set i" "hd i \<noteq> 46"
    by (cases i; auto simp: validate_session_id_def forbidden_def lit_def split: if_splits)+
  with i(2) show "f \<noteq> []" "47 \<notin> set f" "92 \<notin> set f" "hd f \<noteq> 46" by (auto simp: lit_def)
next
  assume "validate_session_id i \<noteq> Inr ()"
  then obtain m where "validate_session_id i = Inl (ValueError m)"
    by (auto simp: validate_session_id_def split: if_splits)
  then show "\<exists>m. validate_session_id i = Inl (ValueError m) \<and>
      save_state L st i v w = (Inl (ValueError m), w) \<and> load_state L st i w = (Inl (ValueError m), w) \<and>
      delete_session i w = (Inl (ValueError m), w)"
    by (simp add: save_state_def load_state_def delete_session_def)
qed

theorem store_names_contained_witness:
  "save_state example_lib example_store (lit ''../x'') PNone example_world =
     (Inl (ValueError ''session_id contains forbidden characters''), example_world)"
proof -
  have "validate_session_id (lit ''../x'') = Inl (ValueError ''session_id contains forbidden characters'')"
    by (simp add: validate_session_id_def forbidden_def lit_def)
  with store_names_contained [of example_lib example_store "lit ''../x''" PNone] show ?thesis by fastforce
qed

text \<open>
  A store opens with the passphrase it was created with, and its salt is written once.
  If \<open>create\<close> returns and its salt write was not cut short, \<open>load\<close> with the same passphrase
  returns the same key in every later world with that salt file. Where a salt file exists,
  \<open>create\<close> and \<open>create_with_key\<close> raise \<open>FileExistsError\<close> and leave salt and sessions
  alone; where none exists, \<open>load\<close> raises \<open>FileNotFoundError\<close> and changes nothing.
\<close>

lemma store_reopens_with_passphrase:
  assumes "create_store L p w = (Inr st, w')" and "\<forall>k. write_plan w \<noteq> [] \<longrightarrow> hd (write_plan w) \<noteq> Short k"
    and "salt_file v = salt_file w'"
  shows "(\<exists>v'. load_store L p v = (Inr st, v') \<and> salt_file v' = salt_file v \<and> sess_files v' = sess_files v) \<and>
    (\<forall>s. length s = ARGON2_SALT_LEN \<longrightarrow>
      create_store L q v = (Inl FileExistsError, v\<lparr>base_exists := True\<rparr>) \<and>
      create_with_key k s v = (Inl FileExistsError, v\<lparr>base_exists := True\<rparr>)) \<and>
    (\<forall>u. salt_file u = None \<longrightarrow> load_store L p u = (Inl FileNotFoundError, u))"
proof -
  let ?w = "w\<lparr>base_exists := True\<rparr>"
  from assms(1) obtain raw salt w1 key w2 where
    raw: "on_tape (argon2id_derive_key L p None) ?w = (Inr (raw, salt), w1)"
    and key: "hkdf_derive L raw salt INFO_LOCAL_KEY_ENC 32 = Inr key"
    and ws: "write_salt salt w1 = (Inr (), w2)" and st: "new_store key w2 = (Inr st, w')"
    by (auto simp: create_store_def bindE_eq_Inr split: prod.splits)
  have raw': "argon2id_derive_key L p None (tape w) = (Inr (raw, salt), tape w1)" "write_plan w1 = write_plan w"
    using raw by (auto simp: on_tape_sel prod_eq_iff)
  have "salt_file w2 = Some salt"
    using ws assms(2) raw'(2)
    by (auto simp: write_salt_def atomic_write_def next_outcome_def bindE_def
        split: prod.splits sum.splits list.splits write_outcome.splits)
  with st have st': "st = \<lparr>enc_key = key\<rparr>" "salt_file w' = Some salt" by (auto simp: new_store_def)
  have "argon2id_derive_key L p (Some salt) u = (Inr (raw, salt), u)" "length salt = ARGON2_SALT_LEN" for u
    using argon2id_derive_key_salt [OF raw'(1)] by blast+
  with key st' assms(3) show ?thesis
    by (auto simp: load_store_def read_salt_def on_tape_sel new_store_def create_store_def create_with_key_def)
qed

end
