(* ===== verification/Dh_Ratchet.thy ===== *)
theory Dh_Ratchet
  imports Aead State_Store
begin

text \<open>
  What the program plugs into the third-party Double Ratchet library
  (core/dh_ratchet/dh_ratchet.py, ratchet_kdf.py and the adapters in session.py): the
  X25519 step, the two chain KDFs, the AEAD and the encoding of the associated data.
  \<open>dr_config\<close> collects them as the library receives them; the library itself is a
  record of parameters over an opaque ratchet state \<open>'r\<close>.
\<close>

section \<open>Messages of the library\<close>

record dr_header =
  ratchet_pub :: bytes
  previous_sending_chain_length :: int
  sending_chain_length :: int

record encrypted_message =
  em_header :: dr_header
  em_ciphertext :: bytes

section \<open>The X25519 step\<close>

definition dr_generate_priv :: "crypto \<Rightarrow> (entropy, bytes) eff" where
  "dr_generate_priv L = drawE (x25519_generate L)"

definition dr_derive_pub :: "crypto \<Rightarrow> bytes \<Rightarrow> bytes res" where
  "dr_derive_pub L priv = bindR (x25519_load L priv) (\<lambda>a. Inr (x25519_public L a))"

definition dr_generate_key_pair :: "crypto \<Rightarrow> (entropy, bytes \<times> bytes) eff" where
  "dr_generate_key_pair L = bindE (dr_generate_priv L) (\<lambda>priv.
     bindE (liftE (dr_derive_pub L priv)) (\<lambda>pub. returnE (pub, priv)))"

definition perform_diffie_hellman :: "crypto \<Rightarrow> bytes \<Rightarrow> bytes \<Rightarrow> bytes res" where
  "perform_diffie_hellman L own_priv other_pub =
     bindR (x25519_load L own_priv) (\<lambda>priv. x25519_exchange L priv other_pub)"

section \<open>The chain KDFs\<close>

definition root_chain_derive :: "crypto \<Rightarrow> bytes \<Rightarrow> bytes \<Rightarrow> int \<Rightarrow> bytes res" where
  "root_chain_derive L key data n = hkdf_derive L data key INFO_ROOT_KDF n"

definition root_chain_calculate :: "crypto \<Rightarrow> int \<Rightarrow> bytes \<Rightarrow> bytes \<Rightarrow> bytes res" where
  "root_chain_calculate L n key data = hkdf_derive L data key INFO_ROOT_KDF n"

definition message_chain_derive :: "crypto \<Rightarrow> bytes \<Rightarrow> bytes \<Rightarrow> int \<Rightarrow> bytes res" where
  "message_chain_derive L key data n = hkdf_derive L key data INFO_CHAIN_KDF n"

definition message_chain_calculate :: "crypto \<Rightarrow> int \<Rightarrow> bytes \<Rightarrow> bytes \<Rightarrow> bytes res" where
  "message_chain_calculate L n key data = hkdf_derive L key data INFO_CHAIN_KDF n"

definition MESSAGE_CHAIN_CONSTANT :: bytes where
  "MESSAGE_CHAIN_CONSTANT = blit ''dr-v1-message-chain-constant''"

section \<open>The AEAD and its associated data\<close>

definition ratchet_aead_encrypt :: "crypto \<Rightarrow> bytes \<Rightarrow> bytes \<Rightarrow> bytes \<Rightarrow> (entropy, bytes) eff" where
  "ratchet_aead_encrypt L plaintext key associated_data =
     bindE (drawE (urandom 12)) (\<lambda>nonce.
     bindE (liftE (chacha_encrypt L key nonce plaintext associated_data)) (\<lambda>c.
     returnE (nonce @ c)))"

definition ratchet_aead_decrypt :: "crypto \<Rightarrow> bytes \<Rightarrow> bytes \<Rightarrow> bytes \<Rightarrow> bytes res" where
  "ratchet_aead_decrypt L ciphertext key associated_data =
     chacha_decrypt L key (take 12 ciphertext) (drop 12 ciphertext) associated_data"

definition build_associated_data :: "bytes \<Rightarrow> dr_header \<Rightarrow> bytes res" where
  "build_associated_data associated_data header =
     bindR (pack_I_be (int (length associated_data))) (\<lambda>l.
     bindR (pack_I_be (previous_sending_chain_length header)) (\<lambda>pn.
     bindR (pack_I_be (sending_chain_length header)) (\<lambda>n.
     Inr (l @ associated_data @ ratchet_pub header @ pn @ n))))"

section \<open>The library\<close>

record dr_config =
  cfg_generate_priv :: "(entropy, bytes) eff"
  cfg_derive_pub :: "bytes \<Rightarrow> bytes res"
  cfg_diffie_hellman :: "bytes \<Rightarrow> bytes \<Rightarrow> bytes res"
  cfg_root_kdf :: "bytes \<Rightarrow> bytes \<Rightarrow> int \<Rightarrow> bytes res"
  cfg_message_kdf :: "bytes \<Rightarrow> bytes \<Rightarrow> int \<Rightarrow> bytes res"
  cfg_chain_constant :: bytes
  cfg_dos_threshold :: nat
  cfg_max_skipped :: nat
  cfg_encrypt :: "bytes \<Rightarrow> bytes \<Rightarrow> bytes \<Rightarrow> (entropy, bytes) eff"
  cfg_decrypt :: "bytes \<Rightarrow> bytes \<Rightarrow> bytes \<Rightarrow> bytes res"
  cfg_build_ad :: "bytes \<Rightarrow> dr_header \<Rightarrow> bytes res"

text \<open>The arguments that all three factory calls of session.py pass.\<close>

definition session_config :: "crypto \<Rightarrow> dr_config" where
  "session_config L = \<lparr>
     cfg_generate_priv = dr_generate_priv L,
     cfg_derive_pub = dr_derive_pub L,
     cfg_diffie_hellman = perform_diffie_hellman L,
     cfg_root_kdf = root_chain_derive L,
     cfg_message_kdf = message_chain_derive L,
     cfg_chain_constant = MESSAGE_CHAIN_CONSTANT,
     cfg_dos_threshold = MAX_SKIP,
     cfg_max_skipped = MAX_SKIP,
     cfg_encrypt = ratchet_aead_encrypt L,
     cfg_decrypt = ratchet_aead_decrypt L,
     cfg_build_ad = build_associated_data\<rparr>"

text \<open>
  \<open>doubleratchet.DoubleRatchet\<close>: \<open>encrypt_initial_message\<close>, \<open>decrypt_initial_message\<close>,
  \<open>encrypt_message\<close>, \<open>decrypt_message\<close>, \<open>json\<close> and \<open>from_json\<close>. The two message methods
  update the ratchet in place, also when they raise.
\<close>

record 'r ratchet_lib =
  dr_encrypt_initial :: "dr_config \<Rightarrow> bytes \<Rightarrow> bytes \<Rightarrow> bytes \<Rightarrow> bytes \<Rightarrow> (entropy, 'r \<times> encrypted_message) eff"
  dr_decrypt_initial :: "dr_config \<Rightarrow> bytes \<Rightarrow> bytes \<Rightarrow> encrypted_message \<Rightarrow> bytes \<Rightarrow> (entropy, 'r \<times> bytes) eff"
  dr_encrypt :: "dr_config \<Rightarrow> bytes \<Rightarrow> bytes \<Rightarrow> ('r \<times> entropy, encrypted_message) eff"
  dr_decrypt :: "dr_config \<Rightarrow> encrypted_message \<Rightarrow> bytes \<Rightarrow> ('r \<times> entropy, bytes) eff"
  dr_json :: "'r \<Rightarrow> pyval"
  dr_from_json :: "dr_config \<Rightarrow> pyval \<Rightarrow> 'r res"

section \<open>Documented behaviour of the library\<close>

text \<open>
  \<open>linked k a b\<close> says that \<open>a\<close> and \<open>b\<close> are the two ends of a session in which at least \<open>k\<close>
  more messages can be exchanged: the other end reads what one end sends next, and the
  ends stay linked. The library documents this for the two ends created from one shared
  secret. Its messages carry a public key made by the configured step (32 bytes), a
  non-empty ciphertext, and counters that never exceed the number of messages, so
  \<open>2 ^ 32 - 2\<close> messages after the first keep them in the 32-bit range. (The size limits of
  \<open>2 ^ 31\<close> bytes per message in the packages are not modelled.)
\<close>

definition message_ok :: "encrypted_message \<Rightarrow> bool" where
  "message_ok m \<longleftrightarrow> length (ratchet_pub (em_header m)) = 32 \<and>
     0 \<le> previous_sending_chain_length (em_header m) \<and> previous_sending_chain_length (em_header m) < 2 ^ 32 \<and>
     0 \<le> sending_chain_length (em_header m) \<and> sending_chain_length (em_header m) < 2 ^ 32 \<and>
     em_ciphertext m \<noteq> []"

definition budget :: nat where "budget = 2 ^ 32 - 2"

definition reads_next :: "'r ratchet_lib \<Rightarrow> dr_config \<Rightarrow> ('r \<Rightarrow> 'r \<Rightarrow> bool) \<Rightarrow> 'r \<Rightarrow> 'r \<Rightarrow> bool" where
  "reads_next R c nxt a b \<longleftrightarrow>
     (\<forall>msg ad t. \<exists>em a' t'. dr_encrypt R c msg ad (a, t) = (Inr em, a', t') \<and> message_ok em \<and>
        (\<forall>u. \<exists>b' u'. dr_decrypt R c em ad (b, u) = (Inr msg, b', u') \<and> nxt a' b' \<and> nxt b' a'))"

definition ratchet_correct :: "crypto \<Rightarrow> 'r ratchet_lib \<Rightarrow> (nat \<Rightarrow> 'r \<Rightarrow> 'r \<Rightarrow> bool) \<Rightarrow> bool" where
  "ratchet_correct L R linked \<longleftrightarrow>
     (\<forall>k a b. linked (Suc k) a b \<longrightarrow> reads_next R (session_config L) (linked k) a b) \<and>
     (\<forall>SK priv msg ad t. length SK = 32 \<longrightarrow> length priv = 32 \<longrightarrow>
        (\<exists>a em t'. dr_encrypt_initial R (session_config L) SK (x25519_public L priv) msg ad t = (Inr (a, em), t') \<and>
           message_ok em \<and>
           (\<forall>u. \<exists>b u'. dr_decrypt_initial R (session_config L) SK priv em ad u = (Inr (b, msg), u') \<and>
              linked budget a b \<and> linked budget b a)))"

text \<open>The library's JSON form of a ratchet restores it, and is a JSON value.\<close>

definition ratchet_json_correct :: "crypto \<Rightarrow> 'r ratchet_lib \<Rightarrow> bool" where
  "ratchet_json_correct L R \<longleftrightarrow>
     (\<forall>r. json_ok (dr_json R r) \<and> dr_from_json R (session_config L) (dr_json R r) = Inr r)"

section \<open>Lemmas\<close>

lemma dh_ratchet_agrees:
  assumes "x25519_correct L" "length a = 32" "length b = 32"
  shows "\<exists>pa pb s. dr_derive_pub L a = Inr pa \<and> dr_derive_pub L b = Inr pb \<and>
    perform_diffie_hellman L a pb = Inr s \<and> perform_diffie_hellman L b pa = Inr s"
  using x25519_agree [OF assms] x25519_load_ok [OF assms(1)] assms(2,3)
  by (auto simp: dr_derive_pub_def perform_diffie_hellman_def)

interpretation ratchet_box: sealed_box
  "\<lambda>k t a p. fst (ratchet_aead_encrypt L p k a t)" "\<lambda>k t a c. ratchet_aead_decrypt L c k a"
  "\<lambda>k t. aead_correct L \<and> length k = 32" for L
proof
  fix k a p :: bytes and t :: entropy
  assume ok: "aead_correct L \<and> length k = 32"
  obtain n t' where n: "urandom 12 t = (n, t')" by force
  then have ln: "length n = 12" by (rule urandom_length)
  obtain c where c: "chacha_encrypt L k n p a = Inr c"
    using aead_correct_total [OF conjunct1 [OF ok] conjunct2 [OF ok] ln] by blast
  then have e: "fst (ratchet_aead_encrypt L p k a t) = Inr (n @ c)"
    using n by (simp add: ratchet_aead_encrypt_def drawE_def bindE_def)
  then show "\<exists>c. fst (ratchet_aead_encrypt L p k a t) = Inr c" by blast
  fix d assume "fst (ratchet_aead_encrypt L p k a t) = Inr d"
  with e ln aead_correctD [OF conjunct1 [OF ok] conjunct2 [OF ok] ln c]
  show "ratchet_aead_decrypt L d k a = Inr p" by (auto simp: ratchet_aead_decrypt_def)
qed

lemma build_associated_data_inj:
  assumes "build_associated_data ad h = Inr b" "build_associated_data ad' h' = Inr b"
    and "length (ratchet_pub h) = 32" "length (ratchet_pub h') = 32"
  shows "ad = ad' \<and> h = h'"
proof -
  obtain l pn n where b: "pack_I_be (int (length ad)) = Inr l"
      "pack_I_be (previous_sending_chain_length h) = Inr pn" "pack_I_be (sending_chain_length h) = Inr n"
      "b = l @ ad @ ratchet_pub h @ pn @ n"
    using assms(1) by (auto simp: build_associated_data_def bindR_Inr_iff)
  obtain l' pn' n' where b': "pack_I_be (int (length ad')) = Inr l'"
      "pack_I_be (previous_sending_chain_length h') = Inr pn'" "pack_I_be (sending_chain_length h') = Inr n'"
      "b = l' @ ad' @ ratchet_pub h' @ pn' @ n'"
    using assms(2) by (auto simp: build_associated_data_def bindR_Inr_iff)
  note len = pack_be_length [OF b(1)] pack_be_length [OF b'(1)] pack_be_length [OF b(2)]
    pack_be_length [OF b'(2)] pack_be_length [OF b(3)] pack_be_length [OF b'(3)]
  have "l = l'" using b(4) b'(4) len by simp
  with pack_be_inj [OF b(1), of "int (length ad')"] b'(1) have "length ad = length ad'" by simp
  with b(4) b'(4) len \<open>l = l'\<close> assms(3,4)
  have e: "ad = ad'" "ratchet_pub h = ratchet_pub h'" "pn = pn'" "n = n'" by auto
  then have "previous_sending_chain_length h = previous_sending_chain_length h'"
    "sending_chain_length h = sending_chain_length h'"
    using pack_be_inj [OF b(2)] pack_be_inj [OF b(3)] b'(2,3) by auto
  with e show ?thesis by simp
qed

section \<open>An example instance of the library\<close>

text \<open>
  For witnesses: a ratchet is the shared secret with the number of messages exchanged,
  and a message carries its plaintext in the clear under the associated data.
\<close>

type_synonym toy_ratchet = "bytes \<times> nat"

definition toy_message :: "bytes \<Rightarrow> bytes \<Rightarrow> encrypted_message" where
  "toy_message msg ad = \<lparr>em_header = \<lparr>ratchet_pub = zeros 32, previous_sending_chain_length = 0,
     sending_chain_length = 0\<rparr>, em_ciphertext = frame ad @ 7 # msg\<rparr>"

definition toy_read :: "encrypted_message \<Rightarrow> bytes \<Rightarrow> bytes res" where
  "toy_read em ad = (let (a, m) = unframe (em_ciphertext em) in
     if a = ad \<and> m \<noteq> [] then Inr (tl m) else Inl InvalidTag)"

definition toy_ratchet_lib :: "toy_ratchet ratchet_lib" where
  "toy_ratchet_lib = \<lparr>
     dr_encrypt_initial = (\<lambda>c SK pub msg ad t. (Inr ((SK, 0), toy_message msg ad), t)),
     dr_decrypt_initial = (\<lambda>c SK priv em ad t. (bindR (toy_read em ad) (\<lambda>m. Inr ((SK, 0), m)), t)),
     dr_encrypt = (\<lambda>c msg ad ((s, n), t). (Inr (toy_message msg ad), (s, Suc n), t)),
     dr_decrypt = (\<lambda>c em ad ((s, n), t). case toy_read em ad of
        Inl e \<Rightarrow> (Inl e, (s, n), t) | Inr m \<Rightarrow> (Inr m, (s, Suc n), t)),
     dr_json = (\<lambda>(s, n). PList [PHex s, PInt (int n)]),
     dr_from_json = (\<lambda>c v. case v of PList [s, PInt n] \<Rightarrow> bindR (fromhex_val s) (\<lambda>b. Inr (b, nat n))
        | _ \<Rightarrow> Inl TypeError)\<rparr>"

definition toy_linked :: "nat \<Rightarrow> toy_ratchet \<Rightarrow> toy_ratchet \<Rightarrow> bool" where
  "toy_linked k a b \<longleftrightarrow> a = b"

lemma toy_read_message [simp]: "toy_read (toy_message msg ad) ad = Inr msg"
  by (simp add: toy_read_def toy_message_def)

lemma toy_message_ok [simp]: "message_ok (toy_message msg ad)"
  by (simp add: message_ok_def toy_message_def)

lemma toy_ratchet_correct [simp]: "ratchet_correct L toy_ratchet_lib toy_linked"
  by (simp add: ratchet_correct_def reads_next_def toy_ratchet_lib_def toy_linked_def split_beta)

lemma hex_scalar: "list_all scalar (hex b)"
  by (auto simp: list_all_iff scalar_small dest: hex_less)

lemma toy_ratchet_json_correct [simp]: "ratchet_json_correct L toy_ratchet_lib"
  by (simp add: ratchet_json_correct_def toy_ratchet_lib_def hex_scalar split_beta)

end
