(* ===== verification/Session.thy ===== *)
theory Session
  imports Dh_Ratchet
begin

text \<open>
  core/dh_ratchet/session.py: one Double Ratchet conversation, its 45-byte wire header
  and its persistence. A \<open>RatchetSession\<close> is a record; its store is an argument. The
  coroutines run to completion one at a time, so they are plain effects: the factories
  on the world, the two message operations on the session and the world.
\<close>

section \<open>Wire format\<close>

definition WIRE_VERSION :: bytes where "WIRE_VERSION = [2]"
definition MSG_INDEX_OFFSET :: nat where "MSG_INDEX_OFFSET = 1"
definition PN_OFFSET :: nat where "PN_OFFSET = MSG_INDEX_OFFSET + 4"
definition N_OFFSET :: nat where "N_OFFSET = PN_OFFSET + 4"
definition RATCHET_PUB_OFFSET :: nat where "RATCHET_PUB_OFFSET = N_OFFSET + 4"
definition RATCHET_PUB_LEN :: nat where "RATCHET_PUB_LEN = 32"
definition WIRE_HEADER_LEN :: nat where "WIRE_HEADER_LEN = RATCHET_PUB_OFFSET + RATCHET_PUB_LEN"

lemmas wire_offsets = WIRE_VERSION_def MSG_INDEX_OFFSET_def PN_OFFSET_def N_OFFSET_def
  RATCHET_PUB_OFFSET_def RATCHET_PUB_LEN_def WIRE_HEADER_LEN_def

text \<open>The concatenation that both senders build.\<close>

definition build_wire :: "int \<Rightarrow> encrypted_message \<Rightarrow> bytes res" where
  "build_wire index em =
     bindR (pack_I index) (\<lambda>i.
     bindR (pack_I (previous_sending_chain_length (em_header em))) (\<lambda>pn.
     bindR (pack_I (sending_chain_length (em_header em))) (\<lambda>n.
     Inr (WIRE_VERSION @ i @ pn @ n @ ratchet_pub (em_header em) @ em_ciphertext em))))"

text \<open>The guards and field accesses that both receivers start with.\<close>

definition parse_wire :: "bytes \<Rightarrow> (int \<times> encrypted_message) res" where
  "parse_wire data =
     bindR (guardR (\<not> length data < WIRE_HEADER_LEN) (ValueError ''Wire message too short'')) (\<lambda>_.
     bindR (guardR (take 1 data = WIRE_VERSION) (ValueError ''Incompatible wire format'')) (\<lambda>_.
     bindR (unpack_I (pyslice data MSG_INDEX_OFFSET PN_OFFSET)) (\<lambda>msg_index.
     bindR (unpack_I (pyslice data PN_OFFSET N_OFFSET)) (\<lambda>pn.
     bindR (unpack_I (pyslice data N_OFFSET RATCHET_PUB_OFFSET)) (\<lambda>n.
     Inr (msg_index, \<lparr>em_header = \<lparr>ratchet_pub = pyslice data RATCHET_PUB_OFFSET WIRE_HEADER_LEN,
         previous_sending_chain_length = pn, sending_chain_length = n\<rparr>,
       em_ciphertext = drop WIRE_HEADER_LEN data\<rparr>))))))"

text \<open>
  The same on the ciphertext field of a \<open>SignedCiphertext\<close>, which need not be bytes: the
  length test works for any sized value, and the version test fails on any that is not
  bytes, where formatting the message raises again (\<open>TypeError\<close> or \<open>ValueError\<close>).
\<close>

definition parse_wire_value :: "pyval \<Rightarrow> (int \<times> encrypted_message) res" where
  "parse_wire_value v =
     (case v of PBytes data \<Rightarrow> parse_wire data
      | _ \<Rightarrow> bindR (py_len v) (\<lambda>n.
          if n < WIRE_HEADER_LEN then Inl (ValueError ''Wire message too short'')
          else case v of
            PList (PNone # _) \<Rightarrow> Inl TypeError
          | PList (PBytes _ # _) \<Rightarrow> Inl TypeError
          | PList (PList _ # _) \<Rightarrow> Inl TypeError
          | PList (PDict _ # _) \<Rightarrow> Inl TypeError
          | PDict _ \<Rightarrow> Inl TypeError
          | _ \<Rightarrow> Inl (ValueError ''Incompatible wire format'')))"

definition index_ad :: "int \<Rightarrow> bytes \<Rightarrow> bytes res" where
  "index_ad index associated_data = bindR (pack_I index) (\<lambda>i. Inr (i @ associated_data))"

section \<open>Sessions\<close>

record 'r RatchetSession =
  rs_ratchet :: 'r
  rs_session_id :: pystr
  rs_counter :: header_counter
  rs_msg_index :: int

definition message_index :: "'r RatchetSession \<Rightarrow> int" where
  "message_index s = rs_msg_index s"

definition new_session :: "'r \<Rightarrow> pystr \<Rightarrow> header_counter \<Rightarrow> 'r RatchetSession" where
  "new_session r sid hc = \<lparr>rs_ratchet = r, rs_session_id = sid, rs_counter = hc, rs_msg_index = 0\<rparr>"

definition session_state :: "'r ratchet_lib \<Rightarrow> 'r RatchetSession \<Rightarrow> int \<Rightarrow> pyval" where
  "session_state R s index = PDict
     [(lit ''ratchet'', dr_json R (rs_ratchet s)),
      (lit ''header_counter'', PInt (current (rs_counter s))),
      (lit ''msg_index'', PInt index)]"

definition persist ::
    "'r ratchet_lib \<Rightarrow> crypto \<Rightarrow> StateStore \<Rightarrow> 'r RatchetSession \<Rightarrow> int option \<Rightarrow> (world, unit) eff" where
  "persist R L st s pending_msg_index =
     save_state L st (rs_session_id s)
       (session_state R s (case pending_msg_index of None \<Rightarrow> rs_msg_index s | Some i \<Rightarrow> i))"

definition create_as_initiator ::
    "'r ratchet_lib \<Rightarrow> crypto \<Rightarrow> StateStore \<Rightarrow> bytes \<Rightarrow> bytes \<Rightarrow> bytes \<Rightarrow> bytes \<Rightarrow> pystr \<Rightarrow>
      (world, 'r RatchetSession \<times> bytes) eff" where
  "create_as_initiator R L st SK bob_ratchet_pub plaintext associated_data session_id =
     bindE (guardE (length SK = 32) (ValueError ''SK must be 32 bytes'')) (\<lambda>_.
     bindE (guardE (length bob_ratchet_pub = RATCHET_PUB_LEN) (ValueError ''bob_ratchet_pub must be 32 bytes'')) (\<lambda>_.
     bindE (liftE (index_ad 1 associated_data)) (\<lambda>ad_with_index.
     bindE (on_tape (dr_encrypt_initial R (session_config L) SK bob_ratchet_pub plaintext ad_with_index)) (\<lambda>(ratchet, encrypted).
     bindE (liftE (build_wire 1 encrypted)) (\<lambda>wire.
     bindE (liftE (new_header_counter session_id 0)) (\<lambda>counter.
     let s = (new_session ratchet session_id counter)\<lparr>rs_msg_index := 1\<rparr> in
     bindE (persist R L st s None) (\<lambda>_.
     returnE (s, wire))))))))"

definition create_as_responder ::
    "'r ratchet_lib \<Rightarrow> crypto \<Rightarrow> StateStore \<Rightarrow> bytes \<Rightarrow> bytes \<Rightarrow> pyval \<Rightarrow> bytes \<Rightarrow> pystr \<Rightarrow>
      (world, 'r RatchetSession \<times> bytes) eff" where
  "create_as_responder R L st SK own_ratchet_priv wire_bytes associated_data session_id =
     bindE (guardE (length SK = 32) (ValueError ''SK must be 32 bytes'')) (\<lambda>_.
     bindE (liftE (parse_wire_value wire_bytes)) (\<lambda>(msg_index, encrypted_msg).
     bindE (liftE (index_ad msg_index associated_data)) (\<lambda>ad_with_index.
     bindE (on_tape (dr_decrypt_initial R (session_config L) SK own_ratchet_priv encrypted_msg ad_with_index)) (\<lambda>(ratchet, plaintext).
     bindE (liftE (new_header_counter session_id 0)) (\<lambda>counter.
     let s = new_session ratchet session_id counter in
     bindE (persist R L st s None) (\<lambda>_.
     returnE (s, plaintext)))))))"

definition load_session :: "'r ratchet_lib \<Rightarrow> crypto \<Rightarrow> StateStore \<Rightarrow> pystr \<Rightarrow> (world, 'r RatchetSession) eff" where
  "load_session R L st session_id =
     bindE (load_state L st session_id) (\<lambda>v.
     bindE (liftE (as_dict v)) (\<lambda>state.
     bindE (liftE (bindR (dict_item state ''ratchet'') (dr_from_json R (session_config L)))) (\<lambda>ratchet.
     bindE (liftE (py_int (dict_get_or state ''header_counter'' (PInt 0)))) (\<lambda>initial.
     bindE (liftE (new_header_counter session_id initial)) (\<lambda>counter.
     bindE (guardE (dict_has state ''msg_index'') (KeyError ''msg_index'')) (\<lambda>_.
     bindE (liftE (bindR (dict_item state ''msg_index'') py_int)) (\<lambda>i.
     returnE ((new_session ratchet session_id counter)\<lparr>rs_msg_index := i\<rparr>))))))))"

text \<open>Running a ratchet method on the session's ratchet, and a store operation on the world.\<close>

definition on_ratchet :: "('r \<times> entropy, 'a) eff \<Rightarrow> ('r RatchetSession \<times> world, 'a) eff" where
  "on_ratchet = zoomE (\<lambda>(s, w). (rs_ratchet s, tape w))
     (\<lambda>(r, t) (s, w). (s\<lparr>rs_ratchet := r\<rparr>, w\<lparr>tape := t\<rparr>))"

definition on_world :: "(world, 'a) eff \<Rightarrow> ('s \<times> world, 'a) eff" where
  "on_world = zoomE snd (\<lambda>w (s, _). (s, w))"

definition session_encrypt ::
    "'r ratchet_lib \<Rightarrow> crypto \<Rightarrow> StateStore \<Rightarrow> bytes \<Rightarrow> bytes \<Rightarrow> ('r RatchetSession \<times> world, bytes) eff" where
  "session_encrypt R L st plaintext associated_data =
     bindE (getE (\<lambda>(s, w). rs_msg_index s + 1)) (\<lambda>next_index.
     bindE (liftE (index_ad next_index associated_data)) (\<lambda>ad_with_index.
     bindE (on_ratchet (dr_encrypt R (session_config L) plaintext ad_with_index)) (\<lambda>encrypted.
     bindE (guardE (length (ratchet_pub (em_header encrypted)) = RATCHET_PUB_LEN)
              (ValueError ''ratchet_pub has unexpected length'')) (\<lambda>_.
     bindE (liftE (build_wire next_index encrypted)) (\<lambda>wire.
     bindE (getE fst) (\<lambda>s.
     bindE (on_world (persist R L st s (Some next_index))) (\<lambda>_.
     bindE (modifyE (\<lambda>(s, w). (s\<lparr>rs_msg_index := next_index\<rparr>, w))) (\<lambda>_.
     returnE wire))))))))"

definition session_decrypt ::
    "'r ratchet_lib \<Rightarrow> crypto \<Rightarrow> StateStore \<Rightarrow> SignedCiphertext \<Rightarrow> bytes \<Rightarrow> ('r RatchetSession \<times> world, bytes) eff" where
  "session_decrypt R L st sc associated_data =
     bindE (liftE (parse_wire_value (sc_ciphertext sc))) (\<lambda>(msg_index, encrypted).
     bindE (guardE (em_ciphertext encrypted \<noteq> []) (ValueError ''Wire message has an empty ciphertext body'')) (\<lambda>_.
     bindE (liftE (index_ad msg_index associated_data)) (\<lambda>ad_with_index.
     bindE (on_ratchet (dr_decrypt R (session_config L) encrypted ad_with_index)) (\<lambda>plaintext.
     bindE (getE fst) (\<lambda>s.
     bindE (on_world (persist R L st s None)) (\<lambda>_.
     returnE plaintext))))))"

section \<open>The wire format is a strict codec\<close>

lemma build_wire_Inr:
  assumes "build_wire i em = Inr w"
  shows "\<exists>a b c. pack_I i = Inr a \<and> pack_I (previous_sending_chain_length (em_header em)) = Inr b \<and>
    pack_I (sending_chain_length (em_header em)) = Inr c \<and> length a = 4 \<and> length b = 4 \<and> length c = 4 \<and>
    w = 2 # a @ b @ c @ ratchet_pub (em_header em) @ em_ciphertext em"
  using assms by (auto simp: build_wire_def bindR_Inr_iff WIRE_VERSION_def dest: pack_le_length)

lemma parse_build_wire:
  assumes "length (ratchet_pub (em_header em)) = 32" and "build_wire i em = Inr w"
  shows "parse_wire w = Inr (i, em)"
proof -
  obtain a b c where p: "pack_I i = Inr a" "pack_I (previous_sending_chain_length (em_header em)) = Inr b"
      "pack_I (sending_chain_length (em_header em)) = Inr c" "length a = 4" "length b = 4" "length c = 4"
    and w: "w = 2 # a @ b @ c @ ratchet_pub (em_header em) @ em_ciphertext em"
    using build_wire_Inr [OF assms(2)] by blast
  have "pyslice w 1 5 = a" "pyslice w 5 9 = b" "pyslice w 9 13 = c"
    "pyslice w 13 45 = ratchet_pub (em_header em)" "drop 45 w = em_ciphertext em" "take 1 w = [2]"
    using assms(1) p(4-6) by (simp_all add: w pyslice_def)
  with p(1-3) show ?thesis
    using assms(1) p(4-6) by (simp add: parse_wire_def wire_offsets unpack_pack_le w)
qed

lemma build_parse_wire:
  assumes "parse_wire w = Inr (i, em)"
  shows "length (ratchet_pub (em_header em)) = 32 \<and> build_wire i em = Inr w"
proof -
  from assms have l: "45 \<le> length w" "take 1 w = [2]" and u: "unpack_I (pyslice w 1 5) = Inr i"
      "unpack_I (pyslice w 5 9) = Inr (previous_sending_chain_length (em_header em))"
      "unpack_I (pyslice w 9 13) = Inr (sending_chain_length (em_header em))"
      "ratchet_pub (em_header em) = pyslice w 13 45" "em_ciphertext em = drop 45 w"
    by (auto simp: parse_wire_def bindR_Inr_iff wire_offsets not_less)
  have "w = take 1 w @ drop 1 w" by simp
  also have "drop 1 w = pyslice w 1 45 @ drop 45 w"
    using append_take_drop_id [of 44 "drop 1 w"] l(1) by (simp add: pyslice_def)
  also have "pyslice w 1 45 = pyslice w 1 5 @ pyslice w 5 9 @ pyslice w 9 13 @ pyslice w 13 45"
    using pyslice_split [of 1 5 45 w] pyslice_split [of 5 9 45 w] pyslice_split [of 9 13 45 w] by simp
  finally have "w = 2 # pyslice w 1 5 @ pyslice w 5 9 @ pyslice w 9 13 @ pyslice w 13 45 @ drop 45 w"
    using l(2) by simp
  with u l(1) show ?thesis
    by (simp add: build_wire_def WIRE_VERSION_def pack_unpack_le length_pyslice)
qed

interpretation wire: strict_codec "\<lambda>(i, em). build_wire i em" parse_wire
  "\<lambda>(i, em). length (ratchet_pub (em_header em)) = 32"
  by unfold_locales (auto intro: parse_build_wire dest: build_parse_wire)

lemma build_wire_total:
  assumes "message_ok em" "0 \<le> i" "i < 2 ^ 32"
  shows "\<exists>w. build_wire i em = Inr w"
  using assms by (simp add: build_wire_def pack_le_def message_ok_def)

lemma index_ad_total: "0 \<le> i \<Longrightarrow> i < 2 ^ 32 \<Longrightarrow> \<exists>x. index_ad i ad = Inr x"
  by (simp add: index_ad_def pack_le_def)

lemma index_ad_inj:
  assumes "index_ad i ad = Inr x" "index_ad j ad' = Inr x"
  shows "i = j \<and> ad = ad'"
proof -
  obtain a b where a: "pack_I i = Inr a" "x = a @ ad" and b: "pack_I j = Inr b" "x = b @ ad'"
    using assms by (auto simp: index_ad_def bindR_Inr_iff)
  with pack_le_length [OF a(1)] pack_le_length [OF b(1)] have "a = b" "ad = ad'" by auto
  with unpack_pack_le [OF a(1)] unpack_pack_le [OF b(1)] show ?thesis by simp
qed

section \<open>Sessions and the disk\<close>

text \<open>A session whose state can be stored: what the constructors and operations produce.\<close>

definition session_ok :: "'r RatchetSession \<Rightarrow> bool" where
  "session_ok s \<longleftrightarrow> storable (rs_session_id s) \<and> hc_inv (rs_counter s) \<and>
     hc_session_id (rs_counter s) = rs_session_id s \<and> 0 \<le> rs_msg_index s"

definition disk_ok :: "crypto \<Rightarrow> StateStore \<Rightarrow> world \<Rightarrow> bool" where
  "disk_ok L st w \<longleftrightarrow> aead_correct L \<and> length (enc_key st) = 32 \<and> quiet w"

lemma session_state_ok: "ratchet_json_correct L R \<Longrightarrow> json_ok (session_state R s i)"
  by (simp add: session_state_def lit_scalar ratchet_json_correct_def)

lemma persist_ok:
  assumes "ratchet_json_correct L R" "session_ok s" "disk_ok L st w"
  shows "\<exists>w'. persist R L st s p w = (Inr (), w') \<and> disk_ok L st w' \<and>
    load_state L st (rs_session_id s) w' =
      (Inr (session_state R s (case p of None \<Rightarrow> rs_msg_index s | Some i \<Rightarrow> i)), w')"
proof -
  let ?v = "session_state R s (case p of None \<Rightarrow> rs_msg_index s | Some i \<Rightarrow> i)"
  have h: "aead_correct L \<and> length (enc_key st) = 32 \<and> quiet w" "storable (rs_session_id s)"
    using assms(2,3) by (auto simp: disk_ok_def session_ok_def)
  obtain w' where w': "save_state L st (rs_session_id s) ?v w = (Inr (), w')"
    using store.save_total [OF h session_state_ok [OF assms(1)]] by blast
  with store.load_saved [OF h session_state_ok [OF assms(1)] w'] store.save_healthy [OF h(1), of "rs_session_id s" ?v]
  show ?thesis by (simp add: persist_def disk_ok_def)
qed

lemma load_session_of_state:
  assumes "ratchet_json_correct L R" "session_ok s"
    and "load_state L st (rs_session_id s) w = (Inr (session_state R s i), w)"
  shows "load_session R L st (rs_session_id s) w = (Inr (s\<lparr>rs_msg_index := i\<rparr>), w)"
proof -
  have "dr_from_json R (session_config L) (dr_json R (rs_ratchet s)) = Inr (rs_ratchet s)"
    using assms(1) by (simp add: ratchet_json_correct_def)
  moreover have "new_header_counter (rs_session_id s) (current (rs_counter s)) = Inr (rs_counter s)"
    using assms(2) restored_counter [of "rs_counter s"] by (simp add: session_ok_def)
  ultimately show ?thesis
    using assms(3) by (simp add: load_session_def session_state_def new_session_def)
qed

section \<open>Two ends\<close>

text \<open>
  What holds of each end between messages: it can be stored, the disk completes its
  writes, and loading the session from disk gives exactly the session in memory.
\<close>

definition end_ok :: "'r ratchet_lib \<Rightarrow> crypto \<Rightarrow> StateStore \<Rightarrow> 'r RatchetSession \<times> world \<Rightarrow> bool" where
  "end_ok R L st = (\<lambda>(s, w). session_ok s \<and> disk_ok L st w \<and>
     load_session R L st (rs_session_id s) w = (Inr s, w))"

definition paired :: "'r ratchet_lib \<Rightarrow> crypto \<Rightarrow> (nat \<Rightarrow> 'r \<Rightarrow> 'r \<Rightarrow> bool) \<Rightarrow> StateStore \<Rightarrow> StateStore \<Rightarrow> nat \<Rightarrow>
    'r RatchetSession \<times> world \<Rightarrow> 'r RatchetSession \<times> world \<Rightarrow> bool" where
  "paired R L linked sta stb k a b \<longleftrightarrow> end_ok R L sta a \<and> end_ok R L stb b \<and>
     linked k (rs_ratchet (fst a)) (rs_ratchet (fst b)) \<and> linked k (rs_ratchet (fst b)) (rs_ratchet (fst a)) \<and>
     rs_msg_index (fst a) + int k < 2 ^ 32 \<and> rs_msg_index (fst b) + int k < 2 ^ 32"

lemma paired_sym: "paired R L linked sta stb k a b = paired R L linked stb sta k b a"
  by (auto simp: paired_def)

lemma disk_ok_tape [simp]: "disk_ok L st (w\<lparr>tape := t\<rparr>) = disk_ok L st w"
  by (simp add: disk_ok_def quiet_def)

lemma persist_end_ok:
  assumes "ratchet_json_correct L R" "session_ok s" "disk_ok L st w" "0 \<le> i"
  shows "\<exists>w'. persist R L st s (Some i) w = (Inr (), w') \<and> end_ok R L st (s\<lparr>rs_msg_index := i\<rparr>, w')"
proof -
  obtain w' where w': "persist R L st s (Some i) w = (Inr (), w')" "disk_ok L st w'"
    "load_state L st (rs_session_id s) w' = (Inr (session_state R s i), w')"
    using persist_ok [OF assms(1-3), of "Some i"] by auto
  have "session_ok (s\<lparr>rs_msg_index := i\<rparr>)" using assms(2,4) by (simp add: session_ok_def)
  with w' load_session_of_state [OF assms(1,2) w'(3)] show ?thesis by (simp add: end_ok_def)
qed

lemma persist_end_ok_None:
  assumes "ratchet_json_correct L R" "session_ok s" "disk_ok L st w"
  shows "\<exists>w'. persist R L st s None w = (Inr (), w') \<and> end_ok R L st (s, w')"
  using persist_end_ok [OF assms, of "rs_msg_index s"] assms(2)
  by (simp add: persist_def session_ok_def)

lemma new_session_ok:
  assumes "storable sid"
  shows "\<exists>hc. new_header_counter sid 0 = Inr hc \<and> session_ok (new_session r sid hc) \<and>
    session_ok ((new_session r sid hc)\<lparr>rs_msg_index := 1\<rparr>)"
  using assms by (simp add: new_header_counter_def session_ok_def new_session_def hc_inv_def MAX_HEADER_MESSAGES_def)

lemma create_pair:
  assumes "ratchet_correct L R linked" "ratchet_json_correct L R" "x25519_correct L"
    and "length SK = 32" "length priv = 32"
    and "disk_ok L sta wa" "storable ida" "disk_ok L stb wb" "storable idb"
  shows "\<exists>a wire wa' b wb'.
    create_as_initiator R L sta SK (x25519_public L priv) msg ad ida wa = (Inr (a, wire), wa') \<and>
    create_as_responder R L stb SK priv (PBytes wire) ad idb wb = (Inr (b, msg), wb') \<and>
    paired R L linked sta stb budget (a, wa') (b, wb') \<and>
    rs_session_id a = ida \<and> rs_session_id b = idb \<and> rs_msg_index a = 1 \<and> rs_msg_index b = 0"
proof -
  obtain x where x: "index_ad 1 ad = Inr x" using index_ad_total [of 1 ad] by auto
  obtain ra em t' where ra: "dr_encrypt_initial R (session_config L) SK (x25519_public L priv) msg x (tape wa) =
      (Inr (ra, em), t')" "message_ok em"
    and rb: "\<forall>u. \<exists>b u'. dr_decrypt_initial R (session_config L) SK priv em x u = (Inr (b, msg), u') \<and>
      linked budget ra b \<and> linked budget b ra"
    using assms(1,4,5) unfolding ratchet_correct_def by blast
  obtain rb u' where rb: "dr_decrypt_initial R (session_config L) SK priv em x (tape wb) = (Inr (rb, msg), u')"
    "linked budget ra rb" "linked budget rb ra" using rb by blast
  obtain wire where wire: "build_wire 1 em = Inr wire" using build_wire_total [OF ra(2), of 1] by auto
  have pub: "length (ratchet_pub (em_header em)) = 32" using ra(2) by (simp add: message_ok_def)
  note pw = parse_build_wire [OF pub wire]
  obtain hca where hca: "new_header_counter ida 0 = Inr hca" "session_ok ((new_session ra ida hca)\<lparr>rs_msg_index := 1\<rparr>)"
    using new_session_ok [OF assms(7), of ra] by (elim exE conjE) (rule that; assumption)
  obtain hcb where hcb: "new_header_counter idb 0 = Inr hcb" "session_ok (new_session rb idb hcb)"
    using new_session_ok [OF assms(9), of rb] by (elim exE conjE) (rule that; assumption)
  have da: "disk_ok L sta (wa\<lparr>tape := t'\<rparr>)" and db: "disk_ok L stb (wb\<lparr>tape := u'\<rparr>)"
    using assms(6,8) by simp_all
  obtain wa' where wa': "persist R L sta ((new_session ra ida hca)\<lparr>rs_msg_index := 1\<rparr>) None (wa\<lparr>tape := t'\<rparr>) = (Inr (), wa')"
    "end_ok R L sta ((new_session ra ida hca)\<lparr>rs_msg_index := 1\<rparr>, wa')"
    using persist_end_ok_None [OF assms(2) hca(2) da] by (elim exE conjE) (rule that)
  obtain wb' where wb': "persist R L stb (new_session rb idb hcb) None (wb\<lparr>tape := u'\<rparr>) = (Inr (), wb')"
    "end_ok R L stb (new_session rb idb hcb, wb')"
    using persist_end_ok_None [OF assms(2) hcb(2) db] by (elim exE conjE) (rule that)
  have "create_as_initiator R L sta SK (x25519_public L priv) msg ad ida wa =
      (Inr ((new_session ra ida hca)\<lparr>rs_msg_index := 1\<rparr>, wire), wa')"
    using assms(4) x25519_public_length [OF assms(3,5)] x ra(1) wire hca(1) wa'(1)
    by (simp add: create_as_initiator_def on_tape_sel RATCHET_PUB_LEN_def Let_def)
  moreover have "create_as_responder R L stb SK priv (PBytes wire) ad idb wb =
      (Inr (new_session rb idb hcb, msg), wb')"
    using assms(4) pw x rb(1) hcb(1) wb'(1)
    by (simp add: create_as_responder_def on_tape_sel parse_wire_value_def Let_def)
  moreover have "paired R L linked sta stb budget ((new_session ra ida hca)\<lparr>rs_msg_index := 1\<rparr>, wa')
      (new_session rb idb hcb, wb')"
    using wa'(2) wb'(2) rb(2,3) by (simp add: paired_def new_session_def budget_def)
  moreover have "rs_session_id ((new_session ra ida hca)\<lparr>rs_msg_index := 1\<rparr>) = ida"
    "rs_session_id (new_session rb idb hcb) = idb" "rs_msg_index (new_session rb idb hcb) = 0"
    by (simp_all add: new_session_def)
  ultimately show ?thesis by (intro exI conjI) (assumption | simp)+
qed

text \<open>One message from one end to the other, in a signed ciphertext with the same associated data.\<close>

lemma session_step:
  assumes "ratchet_correct L R linked" "ratchet_json_correct L R"
    and "paired R L linked sta stb (Suc k) a b"
  shows "\<exists>wire a' b'. session_encrypt R L sta msg ad a = (Inr wire, a') \<and>
    (\<forall>sc. sc_ciphertext sc = PBytes wire \<longrightarrow> session_decrypt R L stb sc ad b = (Inr msg, b')) \<and>
    paired R L linked sta stb k a' b' \<and> rs_msg_index (fst a') = rs_msg_index (fst a) + 1 \<and>
    rs_msg_index (fst b') = rs_msg_index (fst b)"
proof -
  obtain sa wa sb wb where ab: "a = (sa, wa)" "b = (sb, wb)" by force
  note p = assms(3) [unfolded paired_def ab end_ok_def, simplified]
  have ok: "session_ok sa" "disk_ok L sta wa" "session_ok sb" "disk_ok L stb wb"
    and lk: "linked (Suc k) (rs_ratchet sa) (rs_ratchet sb)"
    and ib: "rs_msg_index sa + int k + 1 < 2 ^ 32" "rs_msg_index sb + int k + 1 < 2 ^ 32"
    using p by auto
  let ?i = "rs_msg_index sa + 1"
  have i: "0 \<le> ?i" "?i < 2 ^ 32" using ok(1) ib(1) by (auto simp: session_ok_def)
  obtain x where x: "index_ad ?i ad = Inr x" using index_ad_total [OF i] by blast
  have rn: "reads_next R (session_config L) (linked k) (rs_ratchet sa) (rs_ratchet sb)"
    using assms(1) lk unfolding ratchet_correct_def by blast
  obtain em ra t' where ra: "dr_encrypt R (session_config L) msg x (rs_ratchet sa, tape wa) = (Inr em, ra, t')"
      "message_ok em"
    and rb: "\<forall>u. \<exists>b' u'. dr_decrypt R (session_config L) em x (rs_ratchet sb, u) = (Inr msg, b', u') \<and>
      linked k ra b' \<and> linked k b' ra"
    using rn unfolding reads_next_def by blast
  obtain rb u' where rb: "dr_decrypt R (session_config L) em x (rs_ratchet sb, tape wb) = (Inr msg, rb, u')"
    "linked k ra rb" "linked k rb ra" using rb by blast
  obtain wire where wire: "build_wire ?i em = Inr wire" using build_wire_total [OF ra(2) i] by blast
  have pub: "length (ratchet_pub (em_header em)) = 32" "em_ciphertext em \<noteq> []" using ra(2) by (simp_all add: message_ok_def)
  note pw = parse_build_wire [OF pub(1) wire]
  have sok: "session_ok (sa\<lparr>rs_ratchet := ra\<rparr>)" "session_ok (sb\<lparr>rs_ratchet := rb\<rparr>)"
    using ok(1,3) by (simp_all add: session_ok_def)
  have da: "disk_ok L sta (wa\<lparr>tape := t'\<rparr>)" and db: "disk_ok L stb (wb\<lparr>tape := u'\<rparr>)" using ok(2,4) by simp_all
  obtain wa' where wa': "persist R L sta (sa\<lparr>rs_ratchet := ra\<rparr>) (Some ?i) (wa\<lparr>tape := t'\<rparr>) = (Inr (), wa')"
    "end_ok R L sta (sa\<lparr>rs_ratchet := ra\<rparr>\<lparr>rs_msg_index := ?i\<rparr>, wa')"
    using persist_end_ok [OF assms(2) sok(1) da i(1)] by (elim exE conjE) (rule that)
  obtain wb' where wb': "persist R L stb (sb\<lparr>rs_ratchet := rb\<rparr>) None (wb\<lparr>tape := u'\<rparr>) = (Inr (), wb')"
    "end_ok R L stb (sb\<lparr>rs_ratchet := rb\<rparr>, wb')"
    using persist_end_ok_None [OF assms(2) sok(2) db] by (elim exE conjE) (rule that)
  have "session_encrypt R L sta msg ad a = (Inr wire, sa\<lparr>rs_ratchet := ra\<rparr>\<lparr>rs_msg_index := ?i\<rparr>, wa')"
    using x ra(1) pub(1) wire wa'(1)
    by (simp add: ab session_encrypt_def on_ratchet_def on_world_def zoomE_def RATCHET_PUB_LEN_def)
  moreover have "session_decrypt R L stb sc ad b = (Inr msg, sb\<lparr>rs_ratchet := rb\<rparr>, wb')"
    if "sc_ciphertext sc = PBytes wire" for sc
    using that x pw pub(2) rb(1) wb'(1)
    by (simp add: ab session_decrypt_def on_ratchet_def on_world_def zoomE_def parse_wire_value_def)
  moreover have "paired R L linked sta stb k (sa\<lparr>rs_ratchet := ra\<rparr>\<lparr>rs_msg_index := ?i\<rparr>, wa')
      (sb\<lparr>rs_ratchet := rb\<rparr>, wb')"
    using wa'(2) wb'(2) rb(2,3) ib by (simp add: paired_def)
  ultimately show ?thesis
    by (intro exI [of _ wire] exI [of _ "(sa\<lparr>rs_ratchet := ra\<rparr>\<lparr>rs_msg_index := ?i\<rparr>, wa')"]
        exI [of _ "(sb\<lparr>rs_ratchet := rb\<rparr>, wb')"]) (simp add: ab)
qed

section \<open>Frames of the message operations\<close>

text \<open>
  Sending fails at one of five places or succeeds; only success moves the index, and then
  the wire carries the new one. Receiving never moves it.
\<close>

lemma on_ratchet_sel:
  "on_ratchet m (s, w) = (case m (rs_ratchet s, tape w) of
     (r, r', t) \<Rightarrow> (r, s\<lparr>rs_ratchet := r'\<rparr>, w\<lparr>tape := t\<rparr>))"
  by (simp add: on_ratchet_def zoomE_def split: prod.splits)

lemma on_world_sel: "on_world m (s, w) = (case m w of (r, w') \<Rightarrow> (r, s, w'))"
  by (simp add: on_world_def zoomE_def split: prod.splits)

lemma session_encrypt_index:
  assumes "session_encrypt R L st msg ad (s, w) = (r, s', w')"
  shows "rs_session_id s' = rs_session_id s \<and> rs_counter s' = rs_counter s \<and>
    (case r of Inl e \<Rightarrow> rs_msg_index s' = rs_msg_index s
     | Inr wire \<Rightarrow> rs_msg_index s' = rs_msg_index s + 1 \<and>
         (\<exists>em. parse_wire wire = Inr (rs_msg_index s + 1, em)))"
  using assms
  by (auto simp: session_encrypt_def bindE_def on_ratchet_sel on_world_sel RATCHET_PUB_LEN_def guardR_def
      dest: parse_build_wire split: prod.splits sum.splits if_splits)

lemma session_decrypt_index:
  assumes "session_decrypt R L st sc ad (s, w) = (r, s', w')"
  shows "rs_session_id s' = rs_session_id s \<and> rs_counter s' = rs_counter s \<and> rs_msg_index s' = rs_msg_index s"
  using assms
  by (auto simp: session_decrypt_def bindE_def on_ratchet_sel on_world_sel
      split: prod.splits sum.splits)

end
