(* ===== verification/Channel.thy ===== *)
theory Channel
  imports Py_Prelude
begin

text \<open>
  The contract of a channel between two parties, shared by the ratchet sessions and the two services: a step of the
  environment (a message relayed from one to the other, a restart) delivers what it should
  and keeps the parties linked. \<open>linked k\<close> allows steps that cost \<open>k\<close> in total. Last, the
  contract of a simulation of one machine by another.
\<close>

fun run_steps :: "('e \<Rightarrow> 'p \<Rightarrow> 'r list \<times> 'p) \<Rightarrow> 'e list \<Rightarrow> 'p \<Rightarrow> 'r list \<times> 'p" where
  "run_steps step [] p = ([], p)"
| "run_steps step (e # es) p =
     (case step e p of (r, p') \<Rightarrow> (case run_steps step es p' of (rs, q) \<Rightarrow> (r @ rs, q)))"

locale channel =
  fixes step :: "'e \<Rightarrow> 'p \<Rightarrow> 'r list \<times> 'p"
    and linked :: "nat \<Rightarrow> 'p \<Rightarrow> bool"
    and cost :: "'e \<Rightarrow> nat"
    and allowed :: "'e \<Rightarrow> bool"
    and delivered :: "'e \<Rightarrow> 'r list"
  assumes delivers: "linked (cost e + k) p \<Longrightarrow> allowed e \<Longrightarrow> \<exists>q. step e p = (delivered e, q) \<and> linked k q"
begin

lemma run_delivers:
  "linked (sum_list (map cost es) + k) p \<Longrightarrow> list_all allowed es \<Longrightarrow>
     \<exists>q. run_steps step es p = (concat (map delivered es), q) \<and> linked k q"
proof (induction es arbitrary: p)
  case (Cons e es)
  have "linked (cost e + (sum_list (map cost es) + k)) p" "allowed e" using Cons.prems by (simp_all add: add.assoc)
  then obtain q where q: "step e p = (delivered e, q)" "linked (sum_list (map cost es) + k) q" using delivers by blast
  from Cons.IH [OF q(2)] Cons.prems(2) q(1) show ?case by auto
qed simp

end

text \<open>A channel with counters that every step moves by a known amount.\<close>

locale metered_channel = channel +
  fixes meter charge
  assumes metered: "linked (cost e + k) p \<Longrightarrow> allowed e \<Longrightarrow> step e p = (r, q) \<Longrightarrow> meter i q = meter i p + (charge i e :: int)"
begin

lemma run_metered:
  "linked (sum_list (map cost es) + k) p \<Longrightarrow> list_all allowed es \<Longrightarrow> run_steps step es p = (r, q) \<Longrightarrow>
     meter i q = meter i p + sum_list (map (charge i) es)"
proof (induction es arbitrary: p r)
  case (Cons e es)
  have l: "linked (cost e + (sum_list (map cost es) + k)) p" "allowed e" using Cons.prems by (simp_all add: add.assoc)
  then obtain p' where p': "step e p = (delivered e, p')" "linked (sum_list (map cost es) + k) p'" using delivers by blast
  from Cons.prems(3) p'(1) obtain r' where "run_steps step es p' = (r', q)" by (auto split: prod.splits)
  with Cons.IH [OF p'(2)] Cons.prems(2) metered [OF l p'(1), of i] show ?case by simp
qed simp

end

text \<open>Runs of a machine that answers each operation.\<close>

fun run_all :: "('o \<Rightarrow> 's \<Rightarrow> 'r \<times> 's) \<Rightarrow> 'o list \<Rightarrow> 's \<Rightarrow> 'r list \<times> 's" where
  "run_all step [] s = ([], s)"
| "run_all step (x # xs) s = (case step x s of (r, t) \<Rightarrow> (case run_all step xs t of (rs, u) \<Rightarrow> (r # rs, u)))"

text \<open>
  A simulation between two machines with the same operations: when every allowed operation
  gives the same reply and keeps the states related, so does every sequence of them.
\<close>

locale simulation =
  fixes conc :: "'o \<Rightarrow> 'c \<Rightarrow> 'r \<times> 'c" and abst :: "'o \<Rightarrow> 'a \<Rightarrow> 'r \<times> 'a"
    and related :: "'c \<Rightarrow> 'a \<Rightarrow> bool" and allowed :: "'o \<Rightarrow> bool"
  assumes step: "related c a \<Longrightarrow> allowed x \<Longrightarrow> fst (conc x c) = fst (abst x a) \<and> related (snd (conc x c)) (snd (abst x a))"
begin

lemma run:
  "related c a \<Longrightarrow> list_all allowed xs \<Longrightarrow>
     fst (run_all conc xs c) = fst (run_all abst xs a) \<and> related (snd (run_all conc xs c)) (snd (run_all abst xs a))"
proof (induction xs arbitrary: c a)
  case (Cons x xs)
  from step [of c a x] Cons.prems have h: "fst (conc x c) = fst (abst x a)" "related (snd (conc x c)) (snd (abst x a))"
    by simp_all
  from Cons.IH [OF h(2)] Cons.prems(2) h(1) show ?case by (auto split: prod.splits)
qed simp

end

end
