(* ===== verification/Session_Run.thy ===== *)
theory Session_Run
  imports Session Channel
begin

text \<open>
  Runs of core/dh_ratchet/session.py: two sessions that exchange messages, one session
  that sends, receives, fails and is reloaded from disk, and the properties of the wire
  format. The runs are the environment of the code: who calls which operation when.
\<close>

section \<open>A conversation\<close>

text \<open>
  Each turn says who speaks, with which plaintext and associated data. The signed
  ciphertext handed to the receiver carries the sender's wire bytes; \<open>decrypt\<close> reads no
  other field of it.
\<close>

datatype turn = Turn (first_speaks: bool) (spoken: bytes) (turn_ad: bytes)

definition carrier :: "bytes \<Rightarrow> SignedCiphertext" where
  "carrier wire = \<lparr>sc_ciphertext = PBytes wire, sc_signature = PBytes [], sc_sender_id = PBytes [],
     sc_recipient_id = PBytes [], sc_message_index = PInt 0\<rparr>"

definition say ::
    "'r ratchet_lib \<Rightarrow> crypto \<Rightarrow> StateStore \<Rightarrow> StateStore \<Rightarrow> bytes \<Rightarrow> bytes \<Rightarrow>
      'r RatchetSession \<times> world \<Rightarrow> 'r RatchetSession \<times> world \<Rightarrow>
      bytes res \<times> ('r RatchetSession \<times> world) \<times> ('r RatchetSession \<times> world)" where
  "say R L stx sty msg ad x y =
     (case session_encrypt R L stx msg ad x of
        (Inl e, x') \<Rightarrow> (Inl e, x', y)
      | (Inr wire, x') \<Rightarrow> (case session_decrypt R L sty (carrier wire) ad y of (r, y') \<Rightarrow> (r, x', y')))"

fun turn_step ::
    "'r ratchet_lib \<Rightarrow> crypto \<Rightarrow> StateStore \<Rightarrow> StateStore \<Rightarrow> turn \<Rightarrow>
      ('r RatchetSession \<times> world) \<times> ('r RatchetSession \<times> world) \<Rightarrow>
      bytes res list \<times> ('r RatchetSession \<times> world) \<times> ('r RatchetSession \<times> world)" where
  "turn_step R L sta stb (Turn True msg ad) (a, b) = (case say R L sta stb msg ad a b of (r, a', b') \<Rightarrow> ([r], a', b'))"
| "turn_step R L sta stb (Turn False msg ad) (a, b) = (case say R L stb sta msg ad b a of (r, b', a') \<Rightarrow> ([r], a', b'))"

definition converse ::
    "'r ratchet_lib \<Rightarrow> crypto \<Rightarrow> StateStore \<Rightarrow> StateStore \<Rightarrow> turn list \<Rightarrow>
      'r RatchetSession \<times> world \<Rightarrow> 'r RatchetSession \<times> world \<Rightarrow>
      bytes res list \<times> ('r RatchetSession \<times> world) \<times> ('r RatchetSession \<times> world)" where
  "converse R L sta stb ts a b = run_steps (turn_step R L sta stb) ts (a, b)"

lemma say_delivers:
  assumes "ratchet_correct L R linked" "ratchet_json_correct L R"
    and "paired R L linked stx sty (Suc k) x y"
  shows "\<exists>x' y'. say R L stx sty msg ad x y = (Inr msg, x', y') \<and> paired R L linked stx sty k x' y' \<and>
    rs_msg_index (fst x') = rs_msg_index (fst x) + 1 \<and> rs_msg_index (fst y') = rs_msg_index (fst y)"
proof -
  obtain wire x' y' where s: "session_encrypt R L stx msg ad x = (Inr wire, x')"
      "\<forall>sc. sc_ciphertext sc = PBytes wire \<longrightarrow> session_decrypt R L sty sc ad y = (Inr msg, y')"
      "paired R L linked stx sty k x' y'" "rs_msg_index (fst x') = rs_msg_index (fst x) + 1"
      "rs_msg_index (fst y') = rs_msg_index (fst y)"
    using session_step [OF assms, of msg ad] by (elim exE conjE) (rule that)
  have "session_decrypt R L sty (carrier wire) ad y = (Inr msg, y')"
    using s(2) by (simp add: carrier_def)
  with s show ?thesis by (simp add: say_def)
qed

text \<open>Two paired sessions are a channel; each side's index counts its own messages.\<close>

definition sessions_linked ::
    "'r ratchet_lib \<Rightarrow> crypto \<Rightarrow> (nat \<Rightarrow> 'r \<Rightarrow> 'r \<Rightarrow> bool) \<Rightarrow> StateStore \<Rightarrow> StateStore \<Rightarrow> nat \<Rightarrow>
      ('r RatchetSession \<times> world) \<times> ('r RatchetSession \<times> world) \<Rightarrow> bool" where
  "sessions_linked R L linked sta stb k = (\<lambda>(a, b).
     ratchet_correct L R linked \<and> ratchet_json_correct L R \<and> paired R L linked sta stb k a b)"

definition sent_by :: "bool \<Rightarrow> ('r RatchetSession \<times> world) \<times> ('r RatchetSession \<times> world) \<Rightarrow> int" where
  "sent_by first = (\<lambda>(a, b). rs_msg_index (fst (if first then a else b)))"

definition turn_of :: "bool \<Rightarrow> turn \<Rightarrow> int" where
  "turn_of first t = (if first_speaks t = first then 1 else 0)"

lemma turn_step_delivers:
  assumes "sessions_linked R L linked sta stb (Suc k) p"
  shows "\<exists>q. turn_step R L sta stb t p = ([Inr (spoken t)], q) \<and> sessions_linked R L linked sta stb k q \<and>
    (\<forall>first. sent_by first q = sent_by first p + turn_of first t)"
proof -
  obtain d msg ad where t: "t = Turn d msg ad" by (cases t)
  obtain a b where p: "p = (a, b)" by (rule prod.exhaust)
  have h: "ratchet_correct L R linked" "ratchet_json_correct L R" "paired R L linked sta stb (Suc k) a b"
    using assms by (simp_all add: p sessions_linked_def)
  show ?thesis
  proof (cases d)
    case True
    with say_delivers [OF h, of msg ad] h(1,2) show ?thesis
      by (auto simp: t p sessions_linked_def sent_by_def turn_of_def)
  next
    case False
    have "paired R L linked stb sta (Suc k) b a" using h(3) by (simp add: paired_sym)
    from say_delivers [OF h(1,2) this, of msg ad] False h(1,2) show ?thesis
      by (auto simp: t p sessions_linked_def sent_by_def turn_of_def paired_sym)
  qed
qed

interpretation session_channel: metered_channel "turn_step R L sta stb" "sessions_linked R L linked sta stb" "\<lambda>_. 1"
  "\<lambda>_. True" "\<lambda>t. [Inr (spoken t)]" sent_by turn_of for R L linked sta stb
proof
  fix e :: turn and k p
  assume "sessions_linked R L linked sta stb (1 + k) p"
  then have l: "sessions_linked R L linked sta stb (Suc k) p" by simp
  show "\<exists>q. turn_step R L sta stb e p = ([Inr (spoken e)], q) \<and> sessions_linked R L linked sta stb k q"
    using turn_step_delivers [OF l, of e] by blast
  show "sent_by i q = sent_by i p + turn_of i e" if "turn_step R L sta stb e p = (r, q)" for r q i
    using turn_step_delivers [OF l, of e] that by auto
qed

lemma turns_of: "sum_list (map (turn_of first) ts) = int (length (filter (\<lambda>t. first_speaks t = first) ts))"
  by (induction ts) (simp_all add: turn_of_def)

text \<open>The two counters afterwards are the numbers of messages each side has sent.\<close>

lemma converse_delivers:
  assumes "ratchet_correct L R linked" "ratchet_json_correct L R" "paired R L linked sta stb (length ts + k) a b"
  shows "\<exists>a' b'. converse R L sta stb ts a b = (map (\<lambda>t. Inr (spoken t)) ts, a', b') \<and>
      paired R L linked sta stb k a' b' \<and>
      rs_msg_index (fst a') = rs_msg_index (fst a) + int (length (filter first_speaks ts)) \<and>
      rs_msg_index (fst b') = rs_msg_index (fst b) + int (length (filter (\<lambda>t. \<not> first_speaks t) ts))"
proof -
  have l: "sessions_linked R L linked sta stb (sum_list (map (\<lambda>_. 1) ts) + k) (a, b)"
    using assms by (simp add: sessions_linked_def sum_list_triv)
  have all: "list_all (\<lambda>_. True) ts" by (simp add: list_all_iff)
  have flat: "concat (map (\<lambda>t. [Inr (spoken t)]) ts) = map (\<lambda>t. Inr (spoken t)) ts" by (induction ts) simp_all
  obtain a' b' where r: "converse R L sta stb ts a b = (map (\<lambda>t. Inr (spoken t)) ts, a', b')"
    "sessions_linked R L linked sta stb k (a', b')"
    using session_channel.run_delivers [OF l all] by (auto simp: converse_def flat)
  note m = session_channel.run_metered [OF l all r(1) [unfolded converse_def], unfolded turns_of]
  from m [of True] m [of False] r show ?thesis by (auto simp: sent_by_def sessions_linked_def)
qed

text \<open>
  C9: a conversation delivers every message, in order, and survives restarts. Two sessions
  created from one shared secret, the responder from the initiator's first message, give
  the first plaintext to the responder; then any sequence of turns of either side (up to
  $2^{32} - 2$ of them) is received exactly as sent, each side's index counts its own
  messages, and at the end loading either session from its store gives exactly the session
  in memory, so a restarted service continues where it stopped.
\<close>

theorem conversation_delivers:
  assumes "ratchet_correct L R linked" "ratchet_json_correct L R" "x25519_correct L" "aead_correct L"
    and "length SK = 32" "length priv = 32" "length (enc_key sta) = 32" "length (enc_key stb) = 32"
    and "quiet wa" "storable ida" "quiet wb" "storable idb" "length ts \<le> 2 ^ 32 - 2"
  shows "\<exists>a wire wa' b wb' a2 wa2 b2 wb2.
    create_as_initiator R L sta SK (x25519_public L priv) msg ad ida wa = (Inr (a, wire), wa') \<and>
    create_as_responder R L stb SK priv (PBytes wire) ad idb wb = (Inr (b, msg), wb') \<and>
    converse R L sta stb ts (a, wa') (b, wb') = (map (\<lambda>t. Inr (spoken t)) ts, (a2, wa2), (b2, wb2)) \<and>
    message_index a2 = 1 + int (length (filter first_speaks ts)) \<and>
    message_index b2 = int (length (filter (\<lambda>t. \<not> first_speaks t) ts)) \<and>
    load_session R L sta (rs_session_id a2) wa2 = (Inr a2, wa2) \<and>
    load_session R L stb (rs_session_id b2) wb2 = (Inr b2, wb2)"
proof -
  have d: "disk_ok L sta wa" "disk_ok L stb wb" using assms by (simp_all add: disk_ok_def)
  obtain a wire wa' b wb' where c:
    "create_as_initiator R L sta SK (x25519_public L priv) msg ad ida wa = (Inr (a, wire), wa')"
    "create_as_responder R L stb SK priv (PBytes wire) ad idb wb = (Inr (b, msg), wb')"
    "paired R L linked sta stb budget (a, wa') (b, wb')" "rs_msg_index a = 1" "rs_msg_index b = 0"
    using create_pair [OF assms(1-3,5,6) d(1) assms(10) d(2) assms(12), of msg ad]
    by (elim exE conjE) (rule that)
  have "budget = length ts + (budget - length ts)" using assms(13) by (simp add: budget_def)
  with c(3) have p: "paired R L linked sta stb (length ts + (budget - length ts)) (a, wa') (b, wb')" by simp
  from converse_delivers [OF assms(1,2) p] obtain ea eb where e:
    "converse R L sta stb ts (a, wa') (b, wb') = (map (\<lambda>t. Inr (spoken t)) ts, ea, eb)"
    "paired R L linked sta stb (budget - length ts) ea eb"
    "rs_msg_index (fst ea) = rs_msg_index (fst (a, wa')) + int (length (filter first_speaks ts))"
    "rs_msg_index (fst eb) = rs_msg_index (fst (b, wb')) + int (length (filter (\<lambda>t. \<not> first_speaks t) ts))"
    by (elim exE conjE) (rule that)
  then have l: "load_session R L sta (rs_session_id (fst ea)) (snd ea) = (Inr (fst ea), snd ea)"
    "load_session R L stb (rs_session_id (fst eb)) (snd eb) = (Inr (fst eb), snd eb)"
    by (simp_all add: paired_def end_ok_def split_beta)
  show ?thesis
    by (intro exI [of _ a] exI [of _ wire] exI [of _ wa'] exI [of _ b] exI [of _ wb']
        exI [of _ "fst ea"] exI [of _ "snd ea"] exI [of _ "fst eb"] exI [of _ "snd eb"])
      (use c e l in \<open>simp add: message_index_def\<close>)
qed

theorem conversation_delivers_witness:
  "\<exists>a wire wa b wb a2 b2.
    create_as_initiator toy_ratchet_lib example_lib example_store (zeros 32) (zeros 32) [104] [1]
      (lit ''a'') example_world = (Inr (a, wire), wa) \<and>
    create_as_responder toy_ratchet_lib example_lib example_store (zeros 32) (zeros 32) (PBytes wire) [1]
      (lit ''a'') example_world = (Inr (b, [104]), wb) \<and>
    converse toy_ratchet_lib example_lib example_store example_store
      [Turn False [1] [2], Turn True [3] [4], Turn True [] []] (a, wa) (b, wb) = ([Inr [1], Inr [3], Inr []], a2, b2)"
  using conversation_delivers [OF toy_ratchet_correct toy_ratchet_json_correct example_x25519_correct
      example_aead_correct, of "zeros 32" "zeros 32" example_store example_store example_world "lit ''a''"
      example_world "lit ''a''" "[Turn False [1] [2], Turn True [3] [4], Turn True [] []]" "[104]" "[1]"]
    example_storable
  by (simp add: example_store_def example_world_def quiet_def example_lib_sel) blast

section \<open>One session under failures and restarts\<close>

text \<open>
  What can happen to a session: its owner sends, receives anything, or the process restarts
  and loads the session from disk. An exception leaves the object as it is.
\<close>

datatype session_op = Send bytes bytes | Receive SignedCiphertext bytes | Restart

fun session_op_step ::
    "'r ratchet_lib \<Rightarrow> crypto \<Rightarrow> StateStore \<Rightarrow> session_op \<Rightarrow> 'r RatchetSession \<times> world \<Rightarrow>
      bytes list \<times> ('r RatchetSession \<times> world)" where
  "session_op_step R L st (Send msg ad) a =
     (case session_encrypt R L st msg ad a of (Inl e, a') \<Rightarrow> ([], a') | (Inr wire, a') \<Rightarrow> ([wire], a'))"
| "session_op_step R L st (Receive sc ad) a = ([], snd (session_decrypt R L st sc ad a))"
| "session_op_step R L st Restart a =
     (case load_session R L st (rs_session_id (fst a)) (snd a) of
        (Inl e, w) \<Rightarrow> ([], (fst a, w)) | (Inr s, w) \<Rightarrow> ([], (s, w)))"

text \<open>The wires that were returned to the caller, in order.\<close>

fun session_wires ::
    "'r ratchet_lib \<Rightarrow> crypto \<Rightarrow> StateStore \<Rightarrow> session_op list \<Rightarrow> 'r RatchetSession \<times> world \<Rightarrow> bytes list" where
  "session_wires R L st [] a = []"
| "session_wires R L st (op # ops) a =
     (case session_op_step R L st op a of (ws, a') \<Rightarrow> ws @ session_wires R L st ops a')"

definition wire_index :: "bytes \<Rightarrow> int" where
  "wire_index wire = (case parse_wire wire of Inl e \<Rightarrow> -1 | Inr (i, em) \<Rightarrow> i)"

text \<open>
  The invariant: the file holds a state of this session whose index is not behind the one
  in memory.
\<close>

definition disk_ahead :: "'r ratchet_lib \<Rightarrow> crypto \<Rightarrow> StateStore \<Rightarrow> 'r RatchetSession \<times> world \<Rightarrow> bool" where
  "disk_ahead R L st = (\<lambda>(s, w). session_ok s \<and> no_short w \<and>
     (\<exists>r i. load_state L st (rs_session_id s) w = (Inr (session_state R (s\<lparr>rs_ratchet := r\<rparr>) i), w) \<and>
        rs_msg_index s \<le> i))"

lemma no_short_tape [simp]: "no_short (w\<lparr>tape := t\<rparr>) = no_short w"
  by (simp add: no_short_def)

lemma load_state_tape [simp]: "fst (load_state L st i (w\<lparr>tape := t\<rparr>)) = fst (load_state L st i w)"
  by (simp add: load_state_eq)

lemma session_state_frame [simp]:
  "session_state R (s\<lparr>rs_msg_index := j\<rparr>) i = session_state R s i"
  by (simp add: session_state_def)

lemma disk_aheadI:
  "session_ok s \<Longrightarrow> no_short w \<Longrightarrow> load_state L st (rs_session_id s) w = (Inr (session_state R s i), w) \<Longrightarrow>
     rs_msg_index s \<le> i \<Longrightarrow> disk_ahead R L st (s, w)"
  by (auto simp: disk_ahead_def intro!: exI [of _ "rs_ratchet s"])

lemma disk_ahead_frame:
  assumes "disk_ahead R L st (s, w)" "no_short w'"
    and "fst (load_state L st (rs_session_id s) w') = fst (load_state L st (rs_session_id s) w)"
  shows "disk_ahead R L st (s\<lparr>rs_ratchet := r\<rparr>, w')"
proof -
  obtain q i where l: "load_state L st (rs_session_id s) w = (Inr (session_state R (s\<lparr>rs_ratchet := q\<rparr>) i), w)"
    and i: "rs_msg_index s \<le> i" and ok: "session_ok s"
    using assms(1) by (auto simp: disk_ahead_def)
  have "load_state L st (rs_session_id s) w' = (Inr (session_state R (s\<lparr>rs_ratchet := q\<rparr>) i), w')"
    using store.load_eq [of L st "rs_session_id s" w'] assms(3) l by simp
  moreover have "session_ok (s\<lparr>rs_ratchet := r\<rparr>)" using ok by (simp add: session_ok_def)
  ultimately show ?thesis
    unfolding disk_ahead_def using assms(2) i by (auto intro!: exI [of _ q] exI [of _ i])
qed

lemma persist_ahead:
  assumes "ratchet_json_correct L R" "aead_correct L" "length (enc_key st) = 32"
    and "disk_ahead R L st (s, w)" "rs_msg_index s \<le> (case p of None \<Rightarrow> rs_msg_index s | Some i \<Rightarrow> i)"
    and "persist R L st (s\<lparr>rs_ratchet := r\<rparr>) p (w\<lparr>tape := t\<rparr>) = (x, w')"
  shows "disk_ahead R L st (s\<lparr>rs_ratchet := r\<rparr>, w') \<and>
    (x = Inr () \<longrightarrow> p = Some i \<longrightarrow> disk_ahead R L st (s\<lparr>rs_ratchet := r, rs_msg_index := i\<rparr>, w'))"
proof -
  let ?i = "case p of None \<Rightarrow> rs_msg_index s | Some i \<Rightarrow> i"
  let ?s = "s\<lparr>rs_ratchet := r\<rparr>"
  have ok: "session_ok ?s" "no_short w" using assms(4) by (simp_all add: disk_ahead_def session_ok_def)
  have sv: "save_state L st (rs_session_id s) (session_state R ?s ?i) (w\<lparr>tape := t\<rparr>) = (x, w')"
    using assms(6) by (cases p) (simp_all add: persist_def)
  have st: "storable (rs_session_id s)" "session_ok s" using ok(1) by (simp_all add: session_ok_def)
  have ns: "no_short w'" using save_state_no_short [of "w\<lparr>tape := t\<rparr>"] ok(2) sv by (metis no_short_tape snd_conv)
  have c: "load_state L st (rs_session_id s) w' = (Inr (session_state R ?s ?i), w') \<or>
    x \<noteq> Inr () \<and> fst (load_state L st (rs_session_id s) w') = fst (load_state L st (rs_session_id s) w)"
    using save_state_contained [OF assms(2,3) st(1) session_state_ok [OF assms(1)] _ sv] ok(2) by simp
  then show ?thesis
  proof
    assume n: "load_state L st (rs_session_id s) w' = (Inr (session_state R ?s ?i), w')"
    have "disk_ahead R L st (?s, w')"
      using ok ns n assms(5) by (intro disk_aheadI) auto
    moreover have "disk_ahead R L st (s\<lparr>rs_ratchet := r, rs_msg_index := i\<rparr>, w')" if "p = Some i"
      using that ok ns n assms(5) by (intro disk_aheadI [where i = i]) (auto simp: session_ok_def)
    ultimately show ?thesis by simp
  next
    assume n: "x \<noteq> Inr () \<and> fst (load_state L st (rs_session_id s) w') = fst (load_state L st (rs_session_id s) w)"
    with disk_ahead_frame [OF assms(4) ns] show ?thesis by simp
  qed
qed

lemma session_encrypt_ahead:
  assumes "ratchet_json_correct L R" "aead_correct L" "length (enc_key st) = 32"
    and "disk_ahead R L st a" "session_encrypt R L st msg ad a = (x, a')"
  shows "disk_ahead R L st a'"
proof -
  obtain s w where a: "a = (s, w)" by (cases a)
  have tp: "disk_ahead R L st (s\<lparr>rs_ratchet := r\<rparr>, w\<lparr>tape := t\<rparr>)" for r t
    using disk_ahead_frame [OF assms(4) [unfolded a], of "w\<lparr>tape := t\<rparr>" r] assms(4)
    by (simp add: a disk_ahead_def)
  note p = persist_ahead [OF assms(1-3) assms(4) [unfolded a]]
  show ?thesis
    using assms(4,5) tp p [where p = "Some (rs_msg_index s + 1)" and i = "rs_msg_index s + 1"]
    by (auto simp: a session_encrypt_def bindE_def on_ratchet_sel on_world_sel split: prod.splits sum.splits)
qed

lemma session_decrypt_ahead:
  assumes "ratchet_json_correct L R" "aead_correct L" "length (enc_key st) = 32"
    and "disk_ahead R L st a" "session_decrypt R L st sc ad a = (x, a')"
  shows "disk_ahead R L st a'"
proof -
  obtain s w where a: "a = (s, w)" by (cases a)
  have tp: "disk_ahead R L st (s\<lparr>rs_ratchet := r\<rparr>, w\<lparr>tape := t\<rparr>)" for r t
    using disk_ahead_frame [OF assms(4) [unfolded a], of "w\<lparr>tape := t\<rparr>" r] assms(4)
    by (simp add: a disk_ahead_def)
  note p = persist_ahead [OF assms(1-3) assms(4) [unfolded a], where p = None]
  show ?thesis
    using assms(4,5) tp p
    by (auto simp: a session_decrypt_def bindE_def on_ratchet_sel on_world_sel split: prod.splits sum.splits)
qed

lemma load_session_ahead:
  assumes "ratchet_json_correct L R" "disk_ahead R L st (s, w)"
  shows "\<exists>s'. load_session R L st (rs_session_id s) w = (Inr s', w) \<and> disk_ahead R L st (s', w) \<and>
    rs_msg_index s \<le> rs_msg_index s' \<and> rs_session_id s' = rs_session_id s"
proof -
  obtain r i where l: "load_state L st (rs_session_id s) w = (Inr (session_state R (s\<lparr>rs_ratchet := r\<rparr>) i), w)"
    and i: "rs_msg_index s \<le> i" and ok: "session_ok s" "no_short w"
    using assms(2) by (auto simp: disk_ahead_def)
  let ?s = "s\<lparr>rs_ratchet := r, rs_msg_index := i\<rparr>"
  have "load_session R L st (rs_session_id s) w = (Inr ?s, w)"
    using load_session_of_state [OF assms(1), of "s\<lparr>rs_ratchet := r\<rparr>" st w i] ok(1) l
    by (simp add: session_ok_def)
  moreover have "disk_ahead R L st (?s, w)"
    using ok i l by (intro disk_aheadI [where i = i]) (auto simp: session_ok_def)
  ultimately show ?thesis using i by (intro exI [of _ ?s]) simp
qed

lemma session_op_step_ahead:
  assumes "ratchet_json_correct L R" "aead_correct L" "length (enc_key st) = 32" "disk_ahead R L st a"
    and "session_op_step R L st op a = (ws, a')"
  shows "disk_ahead R L st a' \<and> rs_msg_index (fst a) \<le> rs_msg_index (fst a') \<and>
    (ws = [] \<or> (\<exists>wire. ws = [wire] \<and> wire_index wire = rs_msg_index (fst a') \<and>
      rs_msg_index (fst a) < rs_msg_index (fst a')))"
proof (cases op)
  case (Send msg ad)
  obtain x b where e: "session_encrypt R L st msg ad (fst a, snd a) = (x, b)" by (rule prod.exhaust)
  from session_encrypt_ahead [OF assms(1-4)] e have "disk_ahead R L st b" by simp
  with session_encrypt_index [of R L st msg ad "fst a" "snd a" x "fst b" "snd b"] e assms(5)
  show ?thesis by (auto simp: Send wire_index_def split: sum.splits)
next
  case (Receive sc ad)
  obtain x b where d: "session_decrypt R L st sc ad (fst a, snd a) = (x, b)" by (rule prod.exhaust)
  from session_decrypt_ahead [OF assms(1-4)] d have "disk_ahead R L st b" by simp
  with session_decrypt_index [of R L st sc ad "fst a" "snd a" x "fst b" "snd b"] d assms(5)
  show ?thesis by (auto simp: Receive)
next
  case Restart
  from load_session_ahead [OF assms(1), of st "fst a" "snd a"] assms(4,5)
  show ?thesis by (auto simp: Restart)
qed

lemma session_wires_increasing:
  assumes "ratchet_json_correct L R" "aead_correct L" "length (enc_key st) = 32"
  shows "disk_ahead R L st a \<Longrightarrow>
    sorted_wrt (<) (map wire_index (session_wires R L st ops a)) \<and>
    (\<forall>w \<in> set (session_wires R L st ops a). rs_msg_index (fst a) < wire_index w)"
proof (induction ops arbitrary: a)
  case Nil
  then show ?case by simp
next
  case (Cons op ops)
  obtain ws a' where s: "session_op_step R L st op a = (ws, a')" by (rule prod.exhaust)
  note p = session_op_step_ahead [OF assms Cons.prems s]
  from Cons.IH [of a'] p have ih: "sorted_wrt (<) (map wire_index (session_wires R L st ops a'))"
    "\<forall>w \<in> set (session_wires R L st ops a'). rs_msg_index (fst a') < wire_index w" by auto
  from p consider "ws = []" | wire where "ws = [wire]" "wire_index wire = rs_msg_index (fst a')"
      "rs_msg_index (fst a) < rs_msg_index (fst a')" by blast
  then show ?case using ih p s by cases force+
qed

text \<open>A session to run in the witnesses.\<close>

definition example_session :: "toy_ratchet RatchetSession" where
  "example_session = new_session (zeros 32, 0) (lit ''a'') \<lparr>hc_session_id = lit ''a'', hc_counter = 0\<rparr>"

lemma example_session_ok: "session_ok example_session"
  using example_storable by (simp add: session_ok_def example_session_def new_session_def hc_inv_def MAX_HEADER_MESSAGES_def)

lemma example_build:
  "build_wire 1 \<lparr>em_header = \<lparr>ratchet_pub = zeros 32, previous_sending_chain_length = 0,
     sending_chain_length = 0\<rparr>, em_ciphertext = c\<rparr> = Inr ([2, 1, 0, 0, 0] @ zeros 40 @ c)"
proof -
  have four: "(4::nat) = Suc (Suc (Suc (Suc 0)))" by simp
  have "le_bytes 4 1 = [1, 0, 0, 0]" "le_bytes 4 0 = zeros 4"
    unfolding four by (simp_all add: byte_of_def zeros_def)
  then have "pack_I 1 = Inr [1, 0, 0, 0]" "pack_I 0 = Inr (zeros 4)"
    by (simp_all add: pack_le_def)
  moreover have "zeros 4 @ zeros 4 @ zeros 32 = zeros 40" by (simp add: zeros_def flip: replicate_add)
  ultimately show ?thesis by (simp add: build_wire_def WIRE_VERSION_def flip: append_assoc)
qed

text \<open>
  C25: no send index is used twice, across failures and restarts. From a session that has
  been stored, let its owner send, receive and restart in any order while writes fail
  before or after the rename in any pattern (short writes apart) and the ratchet library
  raises whenever it likes: the indices on the wires that were returned strictly increase
  and all exceed the starting one. The Double Ratchet library is not assumed to do
  anything but restore its own JSON form.
\<close>

theorem send_indices_strictly_increase:
  assumes "ratchet_json_correct L R" "aead_correct L" "length (enc_key st) = 32"
    and "session_ok s" "no_short w"
    and "persist R L st s None w = (Inr (), w')"
  shows "sorted_wrt (<) (map wire_index (session_wires R L st ops (s, w'))) \<and>
    (\<forall>wire \<in> set (session_wires R L st ops (s, w')). message_index s < wire_index wire)"
proof -
  have i: "storable (rs_session_id s)" using assms(4) by (simp add: session_ok_def)
  have sv: "save_state L st (rs_session_id s) (session_state R s (rs_msg_index s)) w = (Inr (), w')"
    using assms(6) by (simp add: persist_def)
  from save_state_contained [OF assms(2,3) i session_state_ok [OF assms(1)] assms(5) sv]
  have "load_state L st (rs_session_id s) w' = (Inr (session_state R s (rs_msg_index s)), w')" by simp
  moreover have "no_short w'" using save_state_no_short [OF assms(5)] sv by (metis snd_conv)
  ultimately have "disk_ahead R L st (s, w')"
    using assms(4) by (intro disk_aheadI [where i = "rs_msg_index s"]) simp_all
  from session_wires_increasing [OF assms(1-3) this, of ops] show ?thesis by (simp add: message_index_def)
qed

theorem send_indices_strictly_increase_witness:
  "\<exists>w'. persist toy_ratchet_lib example_lib example_store example_session None example_world = (Inr (), w') \<and>
    sorted_wrt (<) (map wire_index (session_wires toy_ratchet_lib example_lib example_store
      [Send [1] [], Restart, Receive (carrier []) [], Send [] [2]] (example_session, w')))"
proof -
  obtain w' where w': "persist toy_ratchet_lib example_lib example_store example_session None example_world = (Inr (), w')"
    using persist_ok [OF toy_ratchet_json_correct example_session_ok, of example_lib example_store example_world None]
    by (auto simp: disk_ok_def example_store_def example_world_def quiet_def)
  have "no_short example_world" "length (enc_key example_store) = 32"
    by (simp_all add: no_short_def example_world_def example_store_def)
  with send_indices_strictly_increase [OF toy_ratchet_json_correct example_aead_correct _ example_session_ok _ w'] w'
  show ?thesis by blast
qed

text \<open>What the two operations hand to the ratchet library.\<close>

lemma on_ratchet_Inr:
  "on_ratchet f (s, w) = (Inr x, u) \<longleftrightarrow>
     (\<exists>r t. f (rs_ratchet s, tape w) = (Inr x, r, t) \<and> u = (s\<lparr>rs_ratchet := r\<rparr>, w\<lparr>tape := t\<rparr>))"
  by (cases "f (rs_ratchet s, tape w)") (auto simp: on_ratchet_def zoomE_def)

lemma session_encrypt_call:
  assumes "session_encrypt R L st m ad (s, w) = (Inr v, a)"
  obtains x em c where "index_ad (rs_msg_index s + 1) ad = Inr x"
    "dr_encrypt R (session_config L) m x (rs_ratchet s, tape w) = (Inr em, c)"
    "length (ratchet_pub (em_header em)) = 32" "build_wire (rs_msg_index s + 1) em = Inr v"
  using assms that
  by (auto simp: session_encrypt_def bindE_eq_Inr on_ratchet_Inr RATCHET_PUB_LEN_def)

lemma session_decrypt_call:
  assumes "session_decrypt R L st sc ad (s, w) = (Inr p, b)"
  obtains v i em y d where "sc_ciphertext sc = PBytes v" "parse_wire v = Inr (i, em)" "index_ad i ad = Inr y"
    "dr_decrypt R (session_config L) em y (rs_ratchet s, tape w) = (Inr p, d)"
proof -
  obtain i em y d where h: "parse_wire_value (sc_ciphertext sc) = Inr (i, em)" "index_ad i ad = Inr y"
    "dr_decrypt R (session_config L) em y (rs_ratchet s, tape w) = (Inr p, d)"
    using assms by (auto simp: session_decrypt_def bindE_eq_Inr on_ratchet_Inr)
  from h(1) obtain v where "sc_ciphertext sc = PBytes v"
    by (cases "sc_ciphertext sc") (auto simp: parse_wire_value_def bindR_Inr_iff split: if_splits list.splits pyval.splits)
  with h that show ?thesis by (simp add: parse_wire_value_def)
qed

lemma wire_header_inj:
  assumes "parse_wire v = Inr (i, em)" "parse_wire w = Inr (j, em')"
    and "index_ad i ad = Inr x" "index_ad j ad' = Inr y"
    and "build_associated_data x (em_header em) = Inr b" "build_associated_data y (em_header em') = Inr b"
  shows "take 45 v = take 45 w \<and> ad = ad'"
proof -
  have v: "length (ratchet_pub (em_header em)) = 32" "build_wire i em = Inr v"
    using build_parse_wire [OF assms(1)] by simp_all
  have w: "length (ratchet_pub (em_header em')) = 32" "build_wire j em' = Inr w"
    using build_parse_wire [OF assms(2)] by simp_all
  from build_associated_data_inj [OF assms(5,6) v(1) w(1)] have h: "x = y" "em_header em = em_header em'" by simp_all
  from index_ad_inj [OF assms(3)] assms(4) h(1) have i: "i = j" "ad = ad'" by simp_all
  from build_wire_Inr [OF v(2)] build_wire_Inr [OF w(2)] v(1) w(1) h(2) i show ?thesis by auto
qed

lemma parse_wire_ciphertext: "parse_wire v = Inr (i, em) \<Longrightarrow> drop 45 v = em_ciphertext em"
  by (auto simp: parse_wire_def bindR_Inr_iff wire_offsets)

text \<open>
  C37: the whole header of a message is under the authentication tag. Let \<open>encrypt\<close> have sent
  a wire and \<open>decrypt\<close>, of any session, have returned a plaintext for some wire. Both handed
  the ciphertext after the first 45 bytes to the ratchet library, with data for its AEAD. If
  the AEAD was given the same associated data on both sides (what was passed to the library and
  the header that \<open>_build_associated_data\<close> appends), the two wires agree in all 45 header
  bytes, the message index included, and the callers passed the same associated data. So a wire
  that was altered in any header field, or moved to another index or conversation, is checked
  against associated data that its sender did not authenticate.
\<close>

theorem wire_header_authenticated:
  assumes "session_encrypt R L st m ad (s, w) = (Inr v, a)"
    and "session_decrypt R L st' sc ad' (s', w') = (Inr p, b)"
  shows "\<exists>v' x em c y em' d. sc_ciphertext sc = PBytes v' \<and>
    dr_encrypt R (session_config L) m x (rs_ratchet s, tape w) = (Inr em, c) \<and> drop 45 v = em_ciphertext em \<and>
    dr_decrypt R (session_config L) em' y (rs_ratchet s', tape w') = (Inr p, d) \<and> drop 45 v' = em_ciphertext em' \<and>
    (\<forall>bs. build_associated_data x (em_header em) = Inr bs \<longrightarrow> build_associated_data y (em_header em') = Inr bs \<longrightarrow>
      take 45 v' = take 45 v \<and> ad' = ad)"
proof -
  obtain x em c where e: "index_ad (rs_msg_index s + 1) ad = Inr x"
    "dr_encrypt R (session_config L) m x (rs_ratchet s, tape w) = (Inr em, c)"
    "length (ratchet_pub (em_header em)) = 32" "build_wire (rs_msg_index s + 1) em = Inr v"
    by (rule session_encrypt_call [OF assms(1)])
  obtain v' i em' y d where d: "sc_ciphertext sc = PBytes v'" "parse_wire v' = Inr (i, em')" "index_ad i ad' = Inr y"
    "dr_decrypt R (session_config L) em' y (rs_ratchet s', tape w') = (Inr p, d)"
    by (rule session_decrypt_call [OF assms(2)])
  note pv = parse_build_wire [OF e(3,4)]
  have "take 45 v' = take 45 v \<and> ad' = ad"
    if "build_associated_data x (em_header em) = Inr bs" "build_associated_data y (em_header em') = Inr bs" for bs
    using wire_header_inj [OF d(2) pv d(3) e(1) that(2,1)] .
  with e(2) d(1,4) parse_wire_ciphertext [OF pv] parse_wire_ciphertext [OF d(2)] show ?thesis by blast
qed

theorem wire_header_authenticated_witness:
  "\<exists>w v a b x em c. session_encrypt toy_ratchet_lib example_lib example_store [1] [5] (example_session, w) = (Inr v, a) \<and>
    session_decrypt toy_ratchet_lib example_lib example_store (carrier v) [5] (example_session, w) = (Inr [1], b) \<and>
    dr_encrypt toy_ratchet_lib (session_config example_lib) [1] x (rs_ratchet example_session, tape w) = (Inr em, c) \<and>
    drop 45 v = em_ciphertext em"
proof -
  have "disk_ok example_lib example_store example_world"
    by (simp add: disk_ok_def example_store_def example_world_def quiet_def)
  from persist_end_ok_None [OF toy_ratchet_json_correct example_session_ok this] obtain w where
    "end_ok toy_ratchet_lib example_lib example_store (example_session, w)" by blast
  then have "paired toy_ratchet_lib example_lib toy_linked example_store example_store (Suc 0) (example_session, w) (example_session, w)"
    by (simp add: paired_def toy_linked_def example_session_def new_session_def)
  from session_step [OF toy_ratchet_correct toy_ratchet_json_correct this, of "[1]" "[5]"] obtain v a b where
    e: "session_encrypt toy_ratchet_lib example_lib example_store [1] [5] (example_session, w) = (Inr v, a)"
    and d: "session_decrypt toy_ratchet_lib example_lib example_store (carrier v) [5] (example_session, w) = (Inr [1], b)"
    by (auto simp: carrier_def)
  from wire_header_authenticated [OF e d] e d show ?thesis by blast
qed

text \<open>
  C38: the wire format is canonical. Decoding what the sender built gives the index, the
  three header fields and the ciphertext; conversely every accepted byte string is exactly
  the encoding of what it decodes to, so no two byte strings decode to the same message.
\<close>

theorem wire_format_canonical:
  assumes "length (ratchet_pub (em_header em)) = RATCHET_PUB_LEN"
  shows "build_wire i em = Inr w \<longleftrightarrow> parse_wire w = Inr (i, em)"
  using assms parse_build_wire [of em i w] build_parse_wire [of w i em] by (auto simp: RATCHET_PUB_LEN_def)

theorem wire_format_canonical_witness:
  "parse_wire ([2, 1, 0, 0, 0] @ zeros 40 @ [0, 7]) = Inr (1, toy_message [] [])"
  using wire_format_canonical [of "toy_message [] []" 1 "[2, 1, 0, 0, 0] @ zeros 40 @ [0, 7]"] example_build [of "[0, 7]"]
  by (simp add: toy_message_def RATCHET_PUB_LEN_def frame_def)

text \<open>
  C39: malformed wires. \<open>decrypt\<close> refuses with a \<open>ValueError\<close>, before the ratchet, the session
  or the disk is touched, every byte string that is shorter than the header, has another
  version byte, or has no ciphertext after the header. \<open>create_as_responder\<close> refuses the first
  two kinds in the same way, but not the third: it hands a bare header to the ratchet library
  as a message with an empty ciphertext, and what the library raises is what it raises.
\<close>

theorem malformed_wire_rejected:
  assumes "length data < WIRE_HEADER_LEN \<or> take 1 data \<noteq> WIRE_VERSION \<or> drop WIRE_HEADER_LEN data = []"
    and "sc_ciphertext sc = PBytes data"
  shows "(\<exists>m. session_decrypt R L st sc ad a = (Inl (ValueError m), a)) \<and>
    (if length data < WIRE_HEADER_LEN \<or> take 1 data \<noteq> WIRE_VERSION
     then \<exists>m. create_as_responder R L st SK priv (PBytes data) ad sid w = (Inl (ValueError m), w)
     else \<exists>i em x. parse_wire_value (PBytes data) = Inr (i, em) \<and> em_ciphertext em = [] \<and> index_ad i ad = Inr x \<and>
       (\<forall>e t. length SK = 32 \<longrightarrow> dr_decrypt_initial R (session_config L) SK priv em x (tape w) = (Inl e, t) \<longrightarrow>
         create_as_responder R L st SK priv (PBytes data) ad sid w = (Inl e, w\<lparr>tape := t\<rparr>)))"
proof -
  have four: "\<exists>n. unpack_I (pyslice data i j) = Inr n" if "length data \<ge> j" "j - i = 4" for i j
    using that by (simp add: unpack_le_def length_pyslice)
  show ?thesis
  proof (cases "length data < WIRE_HEADER_LEN \<or> take 1 data \<noteq> WIRE_VERSION")
    case True
    then have "\<exists>m. parse_wire data = Inl (ValueError m)"
      by (cases "length data < WIRE_HEADER_LEN") (simp_all add: parse_wire_def)
    with True assms(2) show ?thesis
      by (auto simp: session_decrypt_def create_as_responder_def parse_wire_value_def bindE_def guardR_def)
  next
    case False
    then have l: "length data \<ge> 45" by (simp add: wire_offsets)
    obtain i p n where "unpack_I (pyslice data 1 5) = Inr i" "unpack_I (pyslice data 5 9) = Inr p"
      "unpack_I (pyslice data 9 13) = Inr n"
      using four [of 5 1] four [of 9 5] four [of 13 9] l by auto
    with False assms have "\<exists>i em. parse_wire data = Inr (i, em) \<and> em_ciphertext em = []"
      by (simp add: parse_wire_def wire_offsets)
    then obtain i em where em: "parse_wire data = Inr (i, em)" "em_ciphertext em = []" by blast
    then obtain x where x: "index_ad i ad = Inr x"
      using build_wire_Inr [of i em data] build_parse_wire [OF em(1)] by (auto simp: index_ad_def)
    have "create_as_responder R L st SK priv (PBytes data) ad sid w = (Inl e, w\<lparr>tape := t\<rparr>)"
      if "length SK = 32" "dr_decrypt_initial R (session_config L) SK priv em x (tape w) = (Inl e, t)" for e t
      using that em(1) x by (simp add: create_as_responder_def parse_wire_value_def on_tape_sel)
    with False assms(2) em x show ?thesis
      by (auto simp: session_decrypt_def parse_wire_value_def)
  qed
qed

theorem malformed_wire_rejected_witness:
  "\<exists>m. session_decrypt toy_ratchet_lib example_lib example_store (carrier [2, 0]) [1] (example_session, example_world) =
     (Inl (ValueError m), example_session, example_world)"
  using malformed_wire_rejected [of "[2, 0]" "carrier [2, 0]" toy_ratchet_lib example_lib example_store "[1]"
      "(example_session, example_world)"]
  by (simp add: carrier_def wire_offsets)

end
