(* ===== verification/Crypto_Service.thy ===== *)
theory Crypto_Service
  imports Srp Session
begin

text \<open>
  crypto_service.py, the request handlers: the module globals are the record \<open>service\<close>
  with the disk, each branch of \<open>_handle\<close> is a definition of its own, and \<open>handle\<close>
  dispatches on the method. The host supplies the text of the keystore's path and of
  exceptions. Identifiers, names, passwords and plaintexts are strings; where a request
  has another type there, the model raises \<open>TypeError\<close> at the first use of the value.
\<close>

section \<open>State\<close>

record host =
  base_dir_text :: pystr
  exn_text :: "exn \<Rightarrow> pystr"

record pending_session =
  ps_SK :: bytes
  ps_bob_ratchet_pub :: bytes
  ps_remote_sig_pub :: bytes
  ps_init_bundle :: pyval

text \<open>\<open>_SessionEntry\<close>; the store is the one that its \<open>RatchetSession\<close> holds.\<close>

record 'r session_entry =
  se_ratchet :: "'r RatchetSession"
  se_store :: StateStore
  se_remote_ik_sig_pub :: bytes
  se_init_bundle :: pyval

record 'r service =
  svc_srp_session :: "srp_session option"
  svc_store :: "StateStore option"
  svc_local_bundle :: "IdentityBundle option"
  svc_pending_password :: "pystr option"
  svc_pending_keystore_key :: "bytes option"
  svc_cached_keystore_key :: "bytes option"
  svc_pending_sessions :: "pystr \<Rightarrow> pending_session option"
  svc_sessions :: "pystr \<Rightarrow> 'r session_entry option"
  svc_world :: world

definition new_service :: "world \<Rightarrow> 'r service" where
  "new_service w = \<lparr>svc_srp_session = None, svc_store = None, svc_local_bundle = None,
     svc_pending_password = None, svc_pending_keystore_key = None, svc_cached_keystore_key = None,
     svc_pending_sessions = (\<lambda>_. None), svc_sessions = (\<lambda>_. None), svc_world = w\<rparr>"

definition BUNDLE_KEY :: pystr where "BUNDLE_KEY = lit ''__identity__''"
definition META_KEY_PREFIX :: pystr where "META_KEY_PREFIX = lit ''__sigmeta__''"

definition meta_key :: "pystr \<Rightarrow> pystr" where
  "meta_key conversation_id = META_KEY_PREFIX @ conversation_id"

section \<open>Parts of the state and of the request\<close>

definition on_disk :: "(world, 'a) eff \<Rightarrow> ('r service, 'a) eff" where
  "on_disk = zoomE svc_world (\<lambda>w s. s\<lparr>svc_world := w\<rparr>)"

definition on_entropy :: "(entropy, 'a) eff \<Rightarrow> ('r service, 'a) eff" where
  "on_entropy m = on_disk (on_tape m)"

text \<open>An operation on the session object of a conversation that is in the table.\<close>

definition on_session :: "pystr \<Rightarrow> ('r RatchetSession \<times> world, 'a) eff \<Rightarrow> ('r service, 'a) eff" where
  "on_session cid m s = (case svc_sessions s cid of
      None \<Rightarrow> (Inl (KeyError ''conversation_id''), s)
    | Some entry \<Rightarrow> (case m (se_ratchet entry, svc_world s) of (r, x, w) \<Rightarrow>
        (r, s\<lparr>svc_sessions := (svc_sessions s)(cid \<mapsto> entry\<lparr>se_ratchet := x\<rparr>), svc_world := w\<rparr>)))"

definition update_entry :: "pystr \<Rightarrow> ('r session_entry \<Rightarrow> 'r session_entry) \<Rightarrow> ('r service, unit) eff" where
  "update_entry cid f = modifyE (\<lambda>s. s\<lparr>svc_sessions := (svc_sessions s)(cid := map_option f (svc_sessions s cid))\<rparr>)"

definition on_srp :: "(srp_session, 'a) eff \<Rightarrow> ('r service, 'a) eff" where
  "on_srp = zoomE (\<lambda>s. the (svc_srp_session s)) (\<lambda>x s. s\<lparr>svc_srp_session := Some x\<rparr>)"

definition param :: "pyval \<Rightarrow> string \<Rightarrow> pyval res" where
  "param params k = bindR (as_dict params) (\<lambda>d. dict_item d k)"

definition param_str :: "pyval \<Rightarrow> string \<Rightarrow> pystr res" where
  "param_str params k = bindR (param params k) as_str"

definition param_get :: "pyval \<Rightarrow> string \<Rightarrow> pyval \<Rightarrow> pyval res" where
  "param_get params k v = (case params of PDict d \<Rightarrow> Inr (dict_get_or d k v) | _ \<Rightarrow> Inl AttributeError)"

text \<open>The answer of a request that was refused without raising.\<close>

definition failure :: "pystr \<Rightarrow> pydict" where
  "failure msg = [(lit ''success'', PBool False), (lit ''error'', PStr msg)]"

definition dash :: pystr where "dash = [8212]"

definition NO_KEYSTORE :: pystr where
  "NO_KEYSTORE = lit ''No keystore found '' @ dash @ lit '' re-register''"

section \<open>Helpers\<close>

definition create_srp_verifier :: "crypto \<Rightarrow> pystr \<Rightarrow> pystr \<Rightarrow> bytes \<Rightarrow> bytes res" where
  "create_srp_verifier L username srp_pass_hex salt =
     bindR (utf8_encode (username @ lit '':'' @ srp_pass_hex)) (\<lambda>up.
     let x = from_bytes_big (digest L [salt, digest L [up]]);
         v = pow_mod srp_g x srp_N in
     to_bytes_big N_BYTES v)"

definition require_store :: "('r service, StateStore) eff" where
  "require_store = bindE (getE svc_store) (\<lambda>st. liftE (case st of
      None \<Rightarrow> Inl (ValueError ''Keystore not unlocked'') | Some st \<Rightarrow> Inr st))"

definition require_bundle :: "('r service, IdentityBundle) eff" where
  "require_bundle = bindE (getE svc_local_bundle) (\<lambda>b. liftE (case b of
      None \<Rightarrow> Inl (ValueError ''Identity bundle unavailable'') | Some b \<Rightarrow> Inr b))"

definition require_session ::
    "'r ratchet_lib \<Rightarrow> crypto \<Rightarrow> pystr \<Rightarrow> ('r service, 'r session_entry) eff" where
  "require_session R L cid =
     bindE (getE (\<lambda>s. svc_sessions s cid)) (\<lambda>found. case found of
       Some entry \<Rightarrow> returnE entry
     | None \<Rightarrow>
         bindE require_store (\<lambda>st.
         bindE (getE (\<lambda>s. state_exists cid (svc_world s) \<and> state_exists (meta_key cid) (svc_world s))) (\<lambda>there.
         bindE (guardE there (ValueError ''No active session'')) (\<lambda>_.
         bindE (on_disk (load_state L st (meta_key cid))) (\<lambda>meta.
         bindE (on_disk (load_session R L st cid)) (\<lambda>ratchet.
         bindE (liftE (bindR (py_item meta ''remote_ik_sig_pub'') fromhex_val)) (\<lambda>sig_pub_bytes.
         let entry = \<lparr>se_ratchet = ratchet, se_store = st, se_remote_ik_sig_pub = sig_pub_bytes,
           se_init_bundle = PNone\<rparr> in
         bindE (modifyE (\<lambda>s. s\<lparr>svc_sessions := (svc_sessions s)(cid \<mapsto> entry)\<rparr>)) (\<lambda>_.
         returnE entry))))))))"

definition load_opk_secrets :: "IdentityBundle \<Rightarrow> opk_store \<times> opk_store" where
  "load_opk_secrets bundle = (x25519_opk_store bundle, kem_opk_store bundle)"

text \<open>The bundle is the service's own object, so the change is made in place.\<close>

definition without_opk :: "pyval \<Rightarrow> IdentityBundle \<Rightarrow> IdentityBundle" where
  "without_opk opk_id b = b\<lparr>
     x25519_opks := filter (\<lambda>x. \<not> py_eq (PInt (xopk_id x)) opk_id) (x25519_opks b),
     kem_opks := filter (\<lambda>k. \<not> py_eq (PInt (kopk_id k)) opk_id) (kem_opks b)\<rparr>"

definition consume_opk :: "crypto \<Rightarrow> StateStore \<Rightarrow> IdentityBundle \<Rightarrow> pyval \<Rightarrow> ('r service, unit) eff" where
  "consume_opk L st bundle opk_id =
     bindE (modifyE (\<lambda>s. s\<lparr>svc_local_bundle := Some (without_opk opk_id bundle)\<rparr>)) (\<lambda>_.
     bindE (liftE (to_private_bundle L (without_opk opk_id bundle))) (\<lambda>d.
     on_disk (save_state L st BUNDLE_KEY (PDict d))))"

definition load_master_salt :: "world \<Rightarrow> bytes option" where
  "load_master_salt = salt_file"

section \<open>Keystore and registration\<close>

text \<open>Opening the keystore with a derived key; \<open>Some\<close> is an early return.\<close>

definition open_keystore :: "('r service, unit) eff \<Rightarrow> bytes \<Rightarrow> ('r service, pydict option) eff" where
  "open_keystore forget key =
     tryE (bindE (on_disk (load_with_key key)) (\<lambda>st.
           bindE (modifyE (\<lambda>s. s\<lparr>svc_store := Some st\<rparr>)) (\<lambda>_. returnE None)))
       (\<lambda>e. if e = FileNotFoundError
         then Some (bindE forget (\<lambda>_. returnE (Some (failure NO_KEYSTORE)))) else None)"

definition forget_cached_key :: "('r service, unit) eff" where
  "forget_cached_key = modifyE (\<lambda>s. s\<lparr>svc_cached_keystore_key := None\<rparr>)"

definition unlock_keystore :: "host \<Rightarrow> crypto \<Rightarrow> pyval \<Rightarrow> ('r service, pydict) eff" where
  "unlock_keystore H L params =
     bindE (liftE (param_get params ''password'' (PStr []))) (\<lambda>password.
     if \<not> truthy password then returnE (failure (lit ''Password required''))
     else
     bindE (getE svc_cached_keystore_key) (\<lambda>cached.
     bindE (case cached of
         Some key \<Rightarrow> bindE (open_keystore forget_cached_key key) (\<lambda>early.
           bindE forget_cached_key (\<lambda>_. returnE early))
       | None \<Rightarrow> bindE (getE (\<lambda>s. load_master_salt (svc_world s))) (\<lambda>salt. case salt of
           None \<Rightarrow> returnE (Some (failure NO_KEYSTORE))
         | Some srp_salt \<Rightarrow>
             bindE (liftE (as_str password)) (\<lambda>pw.
             bindE (on_entropy (derive_master_components L pw (Some srp_salt))) (\<lambda>(_, keystore_key, _).
             open_keystore (returnE ()) keystore_key)))) (\<lambda>early.
     case early of Some answer \<Rightarrow> returnE answer | None \<Rightarrow>
     bindE require_store (\<lambda>st.
     bindE (getE (\<lambda>s. state_exists BUNDLE_KEY (svc_world s))) (\<lambda>there.
     if there then
       tryE (bindE (on_disk (load_state L st BUNDLE_KEY)) (\<lambda>raw.
             bindE (liftE (bindR (as_dict raw) (from_private_bundle L))) (\<lambda>b.
             bindE (modifyE (\<lambda>s. s\<lparr>svc_local_bundle := Some b\<rparr>)) (\<lambda>_.
             returnE [(lit ''success'', PBool True)]))))
         (\<lambda>e. if e = InvalidTag
           then Some (bindE (modifyE (\<lambda>s. s\<lparr>svc_store := None\<rparr>)) (\<lambda>_.
             returnE (failure (lit ''Wrong password '' @ dash @ lit '' could not decrypt keystore at '' @ base_dir_text H
               @ lit ''. If you re-registered, delete that directory and log in again.''))))
           else None)
     else bindE (modifyE (\<lambda>s. s\<lparr>svc_store := None\<rparr>)) (\<lambda>_.
       returnE (failure (lit ''Identity keys not found in keystore at '' @ base_dir_text H
         @ lit ''. Your local keys were lost. Delete that directory and re-register.''))))))))"

text \<open>The new keystore with the identity in it, then the answer to the caller.\<close>

definition store_identity ::
    "host \<Rightarrow> crypto \<Rightarrow> bytes \<Rightarrow> bytes \<Rightarrow> IdentityBundle \<Rightarrow> pydict \<Rightarrow> ('r service, pydict) eff" where
  "store_identity H L keystore_key srp_salt bundle answer =
     bindE (tryE (bindE (on_disk (create_with_key keystore_key srp_salt)) (\<lambda>st.
                  bindE (modifyE (\<lambda>s. s\<lparr>svc_store := Some st\<rparr>)) (\<lambda>_. returnE (Inr st))))
             (\<lambda>e. if e = FileExistsError
               then Some (returnE (Inl (failure (lit ''A keystore already exists at '' @ base_dir_text H
                 @ lit ''. Delete that directory to re-register.'')))) else None)) (\<lambda>opened.
     case opened of Inl refusal \<Rightarrow> returnE refusal | Inr st \<Rightarrow>
     bindE (liftE (to_private_bundle L bundle)) (\<lambda>d.
     bindE (on_disk (save_state L st BUNDLE_KEY (PDict d))) (\<lambda>_.
     bindE (modifyE (\<lambda>s. s\<lparr>svc_local_bundle := Some bundle\<rparr>)) (\<lambda>_.
     returnE answer))))"

definition generate_identity_bundle_request :: "host \<Rightarrow> crypto \<Rightarrow> pyval \<Rightarrow> ('r service, pydict) eff" where
  "generate_identity_bundle_request H L params =
     bindE (liftE (param_str params ''username'')) (\<lambda>username.
     bindE (liftE (param_str params ''password'')) (\<lambda>password.
     bindE (liftE (param params ''nonce'')) (\<lambda>nonce_hex.
     bindE (on_entropy (drawE (urandom ARGON2_SALT_LEN))) (\<lambda>srp_salt.
     bindE (on_entropy (derive_master_components L password (Some srp_salt))) (\<lambda>(srp_pass, keystore_key, _).
     bindE (on_entropy (generate_identity_bundle L username OPK_COUNT)) (\<lambda>bundle.
     bindE (liftE (fromhex_val nonce_hex)) (\<lambda>nonce_bytes.
     bindE (on_entropy (hybrid_sign L (ik_sig bundle) nonce_bytes)) (\<lambda>nonce_sig.
     bindE (on_entropy (hybrid_sign L (ik_sig bundle) (public_key_bytes L (spk_keypair (spk bundle))))) (\<lambda>spk_sig.
     bindE (liftE (create_srp_verifier L username (hex srp_pass) srp_salt)) (\<lambda>verifier_bytes.
     store_identity H L keystore_key srp_salt bundle
      [(lit ''srp_salt'', PHex srp_salt), (lit ''srp_verifier'', PHex verifier_bytes),
       (lit ''idk_classical_pub'', PHex (public_key_bytes L (ik_classical bundle))),
       (lit ''idk_pq_pub'', PHex (kem_public_key (ik_kem bundle))),
       (lit ''identity_signing_pub'', PHex (sig_public_key (ik_sig bundle))),
       (lit ''signed_prekey_pub'', PHex (public_key_bytes L (spk_keypair (spk bundle)))),
       (lit ''signed_prekey_signature'', PHex spk_sig),
       (lit ''nonce'', nonce_hex), (lit ''nonce_signature'', PHex nonce_sig)]))))))))))"

section \<open>SRP login\<close>

definition srp_start :: "crypto \<Rightarrow> pyval \<Rightarrow> ('r service, pydict) eff" where
  "srp_start L params =
     bindE (modifyE (\<lambda>s. s\<lparr>svc_pending_password := None, svc_srp_session := None,
       svc_pending_keystore_key := None, svc_cached_keystore_key := None\<rparr>)) (\<lambda>_.
     bindE (liftE (param_str params ''password'')) (\<lambda>password.
     bindE (modifyE (\<lambda>s. s\<lparr>svc_pending_password := Some password\<rparr>)) (\<lambda>_.
     bindE (liftE (param_str params ''username'')) (\<lambda>username.
     bindE (on_entropy (new_srp_session username [])) (\<lambda>session.
     bindE (modifyE (\<lambda>s. s\<lparr>svc_srp_session := Some session\<rparr>)) (\<lambda>_.
     bindE (liftE (A_hex session)) (\<lambda>a.
     returnE [(lit ''A'', PStr a)])))))))"

definition srp_challenge :: "crypto \<Rightarrow> pyval \<Rightarrow> ('r service, pydict) eff" where
  "srp_challenge L params =
     bindE (getE (\<lambda>s. (svc_srp_session s, svc_pending_password s))) (\<lambda>(session, pending).
     bindE (guardE (session \<noteq> None) (ValueError ''No SRP session active'')) (\<lambda>_.
     bindE (liftE (case pending of None \<Rightarrow> Inl (ValueError ''No pending password'') | Some p \<Rightarrow> Inr p)) (\<lambda>password.
     bindE (liftE (bindR (param params ''salt'') fromhex_val)) (\<lambda>srp_salt_bytes.
     bindE (finallyE (on_entropy (derive_master_components L password (Some srp_salt_bytes)))
       (\<lambda>s. s\<lparr>svc_pending_password := None\<rparr>)) (\<lambda>(srp_pass, keystore_key, _).
     bindE (modifyE (\<lambda>s. s\<lparr>svc_pending_keystore_key := Some keystore_key\<rparr>)) (\<lambda>_.
     bindE (on_srp (modifyE (set_password (hex srp_pass)))) (\<lambda>_.
     bindE (liftE (param params ''salt'')) (\<lambda>salt.
     bindE (liftE (param params ''B'')) (\<lambda>B.
     bindE (on_srp (process_challenge L salt B)) (\<lambda>M1.
     returnE [(lit ''M1'', PStr M1)]))))))))))"

definition srp_verify :: "pyval \<Rightarrow> ('r service, pydict) eff" where
  "srp_verify params =
     bindE (getE svc_srp_session) (\<lambda>session.
     bindE (liftE (case session of None \<Rightarrow> Inl (ValueError ''No SRP session active'') | Some x \<Rightarrow> Inr x)) (\<lambda>srp.
     bindE (liftE (param params ''M2'')) (\<lambda>M2.
     let authenticated = verify_server srp M2 in
     bindE (if authenticated then bindE (liftE (session_key_hex srp)) (\<lambda>k. returnE (PStr k))
            else returnE PNone) (\<lambda>session_key.
     bindE (modifyE (\<lambda>s. s\<lparr>svc_srp_session := None, svc_pending_password := None\<rparr>)) (\<lambda>_.
     bindE (if authenticated
       then modifyE (\<lambda>s. s\<lparr>svc_cached_keystore_key := svc_pending_keystore_key s,
              svc_pending_keystore_key := None\<rparr>)
       else modifyE (\<lambda>s. s\<lparr>svc_pending_keystore_key := None, svc_cached_keystore_key := None,
              svc_store := None, svc_local_bundle := None\<rparr>)) (\<lambda>_.
     returnE [(lit ''authenticated'', PBool authenticated), (lit ''session_key'', session_key)]))))))"

section \<open>Sessions\<close>

definition has_session :: "pyval \<Rightarrow> ('r service, pydict) eff" where
  "has_session params =
     bindE (liftE (param_str params ''conversation_id'')) (\<lambda>cid.
     bindE (getE (\<lambda>s. svc_sessions s cid \<noteq> None \<or> svc_pending_sessions s cid \<noteq> None)) (\<lambda>live.
     if live then returnE [(lit ''exists'', PBool True)]
     else
     bindE (tryE (bindE require_store (\<lambda>_.
             getE (\<lambda>s. state_exists cid (svc_world s) \<and> state_exists (meta_key cid) (svc_world s))))
           (\<lambda>e. Some (returnE False))) (\<lambda>there.
     returnE [(lit ''exists'', PBool there)])))"

definition initiate_session :: "crypto \<Rightarrow> pyval \<Rightarrow> ('r service, pydict) eff" where
  "initiate_session L params =
     bindE (liftE (param_str params ''conversation_id'')) (\<lambda>cid.
     bindE (liftE (bindR (param params ''remote_bundle'') (\<lambda>v. case v of PStr t \<Rightarrow> loads t | _ \<Rightarrow> Inr v))) (\<lambda>v.
     bindE require_bundle (\<lambda>bundle.
     bindE (liftE (as_dict v)) (\<lambda>remote_bundle.
     bindE (tryE (on_entropy (initiate L bundle remote_bundle True))
       (\<lambda>e. if e = SPKVerificationError then Some (raiseE (ValueError ''SPK verification failed''))
         else if e = MalformedBundleError then Some (raiseE (ValueError ''Malformed remote bundle''))
         else None)) (\<lambda>(SK, ib).
     bindE (liftE (hex_field remote_bundle ''spk_pub'')) (\<lambda>bob_ratchet_pub.
     bindE (liftE (hex_field remote_bundle ''ik_sig_pub'')) (\<lambda>remote_sig_pub.
     bindE (modifyE (\<lambda>s. s\<lparr>svc_pending_sessions := (svc_pending_sessions s)(cid \<mapsto>
       \<lparr>ps_SK = SK, ps_bob_ratchet_pub = bob_ratchet_pub, ps_remote_sig_pub = remote_sig_pub,
        ps_init_bundle = PDict (ib_to_dict ib)\<rparr>)\<rparr>)) (\<lambda>_.
     returnE [(lit ''success'', PBool True), (lit ''initiation_bundle'', PDict (ib_to_dict ib))]))))))))"

text \<open>Storing the pinned key, and entering a session into the table.\<close>

definition save_pin :: "crypto \<Rightarrow> StateStore \<Rightarrow> pystr \<Rightarrow> bytes \<Rightarrow> ('r service, unit) eff" where
  "save_pin L st cid pub =
     on_disk (save_state L st (meta_key cid) (PDict [(lit ''remote_ik_sig_pub'', PHex pub)]))"

definition enter_session :: "pystr \<Rightarrow> 'r session_entry \<Rightarrow> ('r service, unit) eff" where
  "enter_session cid entry = modifyE (\<lambda>s. s\<lparr>svc_sessions := (svc_sessions s)(cid \<mapsto> entry)\<rparr>)"

section \<open>Sending\<close>

definition encrypt_first ::
    "'r ratchet_lib \<Rightarrow> crypto \<Rightarrow> pystr \<Rightarrow> pending_session \<Rightarrow> bytes \<Rightarrow> bytes \<Rightarrow> ('r service, bytes \<times> pyval) eff" where
  "encrypt_first R L cid pending plaintext aad =
     bindE (modifyE (\<lambda>s. s\<lparr>svc_pending_sessions := (svc_pending_sessions s)(cid := None)\<rparr>)) (\<lambda>_.
     bindE require_store (\<lambda>st.
     bindE (on_disk (create_as_initiator R L st (ps_SK pending) (ps_bob_ratchet_pub pending) plaintext aad cid))
       (\<lambda>(session, wire_bytes).
     bindE (save_pin L st cid (ps_remote_sig_pub pending)) (\<lambda>_.
     bindE (enter_session cid \<lparr>se_ratchet = session, se_store = st,
       se_remote_ik_sig_pub = ps_remote_sig_pub pending, se_init_bundle = PNone\<rparr>) (\<lambda>_.
     returnE (wire_bytes, ps_init_bundle pending))))))"

definition encrypt_next ::
    "'r ratchet_lib \<Rightarrow> crypto \<Rightarrow> pystr \<Rightarrow> bytes \<Rightarrow> bytes \<Rightarrow> ('r service, bytes \<times> pyval) eff" where
  "encrypt_next R L cid plaintext aad =
     bindE (require_session R L cid) (\<lambda>entry.
     bindE (on_session cid (session_encrypt R L (se_store entry) plaintext aad)) (\<lambda>wire_bytes.
     bindE (update_entry cid (\<lambda>e. e\<lparr>se_init_bundle := PNone\<rparr>)) (\<lambda>_.
     returnE (wire_bytes, se_init_bundle entry))))"

definition encrypt_message :: "'r ratchet_lib \<Rightarrow> crypto \<Rightarrow> pyval \<Rightarrow> ('r service, pydict) eff" where
  "encrypt_message R L params =
     bindE (liftE (param_str params ''conversation_id'')) (\<lambda>cid.
     bindE (liftE (param_str params ''plaintext'')) (\<lambda>plaintext_str.
     bindE (liftE (param_get params ''recipient_username'' (PStr []))) (\<lambda>recipient_username.
     bindE require_bundle (\<lambda>bundle.
     bindE (liftE (utf8_encode plaintext_str)) (\<lambda>plaintext.
     bindE (liftE (utf8_encode cid)) (\<lambda>aad.
     bindE (getE (\<lambda>s. svc_pending_sessions s cid)) (\<lambda>found.
     bindE (case found of Some pending \<Rightarrow> encrypt_first R L cid pending plaintext aad
            | None \<Rightarrow> encrypt_next R L cid plaintext aad) (\<lambda>(wire_bytes, init_bundle).
     bindE (getE (\<lambda>s. svc_sessions s cid)) (\<lambda>found.
     bindE (liftE (case found of None \<Rightarrow> Inl (KeyError ''conversation_id'') | Some e \<Rightarrow> Inr e)) (\<lambda>session_entry.
     bindE (liftE (utf8_encode (user_id bundle))) (\<lambda>sender_id.
     bindE (liftE (bindR (as_str recipient_username) utf8_encode)) (\<lambda>recipient_id.
     bindE (on_entropy (sign_ciphertext L (ik_sig bundle) wire_bytes aad sender_id recipient_id
              (message_index (se_ratchet session_entry)))) (\<lambda>signed_msg.
     bindE (liftE (signed_to_bytes L signed_msg)) (\<lambda>payload.
     returnE [(lit ''ciphertext'', PHex payload), (lit ''nonce'', PHex (take 12 wire_bytes)),
       (lit ''initiation_bundle'', init_bundle),
       (lit ''sender_ik_sig_pub'', PHex (sig_public_key (ik_sig bundle)))]))))))))))))))"

section \<open>Receiving\<close>

text \<open>
  A re-initiation first removes the session in memory and on disk; the result is the key
  that had been pinned.
\<close>

definition drop_session :: "pystr \<Rightarrow> ('r service, unit) eff" where
  "drop_session cid =
     tryE (bindE require_store (\<lambda>_. bindE (on_disk (delete_session cid)) (\<lambda>_. on_disk (delete_session (meta_key cid)))))
       (\<lambda>e. Some (returnE ()))"

definition reset_by_peer :: "pystr \<Rightarrow> pyval \<Rightarrow> ('r service, bytes option) eff" where
  "reset_by_peer cid initiation_bundle =
     bindE (getE (\<lambda>s. svc_sessions s cid)) (\<lambda>found.
     case found of
       Some entry \<Rightarrow>
         if truthy initiation_bundle then
           bindE (modifyE (\<lambda>s. s\<lparr>svc_sessions := (svc_sessions s)(cid := None)\<rparr>)) (\<lambda>_.
           bindE (drop_session cid) (\<lambda>_. returnE (Some (se_remote_ik_sig_pub entry))))
         else returnE None
     | None \<Rightarrow> returnE None)"

text \<open>Recovery from disk, for a message without an initiation bundle.\<close>

definition recoverable :: "exn \<Rightarrow> bool" where
  "recoverable e \<longleftrightarrow> is_value_error e \<or> e = FileNotFoundError \<or> is_key_error e \<or> e = InvalidTag"

definition recover_session :: "'r ratchet_lib \<Rightarrow> crypto \<Rightarrow> pystr \<Rightarrow> pyval \<Rightarrow> ('r service, unit) eff" where
  "recover_session R L cid initiation_bundle =
     bindE (getE (\<lambda>s. svc_sessions s cid = None)) (\<lambda>missing.
     if missing \<and> \<not> truthy initiation_bundle then
       tryE (bindE (require_session R L cid) (\<lambda>_. returnE ())) (\<lambda>e. if recoverable e then Some (returnE ()) else None)
     else returnE ())"

definition verify_payload :: "crypto \<Rightarrow> bytes \<Rightarrow> bytes \<Rightarrow> bytes \<Rightarrow> bytes \<Rightarrow> SignedCiphertext res" where
  "verify_payload L payload aad sig_pub expected_pub =
     (case verify_and_extract L payload aad sig_pub (Some expected_pub) of
        Inl e \<Rightarrow> Inl (if e = SignatureVerificationError then ValueError ''Message signature verification failed'' else e)
      | Inr sc \<Rightarrow> Inr sc)"

text \<open>\<open>{"plaintext": p.decode("utf-8", errors="replace")}\<close>\<close>

definition plaintext_answer :: "bytes \<Rightarrow> pydict" where
  "plaintext_answer p = [(lit ''plaintext'', PStr (utf8_decode_replace p))]"

definition decrypt_first ::
    "'r ratchet_lib \<Rightarrow> crypto \<Rightarrow> pystr \<Rightarrow> IdentityBundle \<Rightarrow> StateStore \<Rightarrow> bytes \<Rightarrow> bytes \<Rightarrow> pyval \<Rightarrow> pyval \<Rightarrow>
      bytes option \<Rightarrow> ('r service, pydict) eff" where
  "decrypt_first R L cid bundle st payload aad initiation_bundle sender_ik_sig_pub_hex pinned =
     bindE (guardE (truthy initiation_bundle) (ValueError ''No session and no initiation_bundle'')) (\<lambda>_.
     bindE (liftE (bindR (as_dict initiation_bundle) ib_from_dict)) (\<lambda>init.
     let (x25519_opks, kem_opks) = load_opk_secrets bundle in
     bindE (liftE (respond L bundle init x25519_opks kem_opks)) (\<lambda>SK.
     bindE (if ib_opk_id init \<noteq> PNone \<and> \<not> ib_used_identity_kem init
            then consume_opk L st bundle (ib_opk_id init) else returnE ()) (\<lambda>_.
     bindE (liftE (if truthy sender_ik_sig_pub_hex then fromhex_val sender_ik_sig_pub_hex else Inr [])) (\<lambda>remote_sig_pub.
     bindE (guardE (remote_sig_pub \<noteq> []) (ValueError ''sender_ik_sig_pub required for first message'')) (\<lambda>_.
     bindE (guardE (pinned = None \<or> pinned = Some remote_sig_pub) (ValueError ''IDENTITY_KEY_CHANGED'')) (\<lambda>_.
     bindE (liftE (verify_payload L payload aad remote_sig_pub remote_sig_pub)) (\<lambda>signed_initial.
     bindE (on_disk (create_as_responder R L st SK (private_key_bytes (spk_keypair (spk bundle)))
              (sc_ciphertext signed_initial) aad cid)) (\<lambda>(session, first_plaintext).
     bindE (save_pin L st cid remote_sig_pub) (\<lambda>_.
     bindE (enter_session cid \<lparr>se_ratchet = session, se_store = st,
       se_remote_ik_sig_pub = remote_sig_pub, se_init_bundle = PNone\<rparr>) (\<lambda>_.
     returnE (plaintext_answer first_plaintext))))))))))))"

text \<open>The verification key of an established session; a session without one pins the sender's.\<close>

definition session_sig_pub :: "crypto \<Rightarrow> pystr \<Rightarrow> 'r session_entry \<Rightarrow> pyval \<Rightarrow> ('r service, bytes) eff" where
  "session_sig_pub L cid entry sender_ik_sig_pub_hex =
     (if se_remote_ik_sig_pub entry \<noteq> [] then returnE (se_remote_ik_sig_pub entry)
      else if truthy sender_ik_sig_pub_hex then
        bindE (liftE (fromhex_val sender_ik_sig_pub_hex)) (\<lambda>sig_pub.
        bindE (enter_session cid (entry\<lparr>se_remote_ik_sig_pub := sig_pub\<rparr>)) (\<lambda>_.
        bindE require_store (\<lambda>st.
        bindE (save_pin L st cid sig_pub) (\<lambda>_. returnE sig_pub))))
      else raiseE (ValueError ''sender_ik_sig_pub is required to verify message signatures''))"

definition decrypt_next ::
    "'r ratchet_lib \<Rightarrow> crypto \<Rightarrow> pystr \<Rightarrow> 'r session_entry \<Rightarrow> bytes \<Rightarrow> bytes \<Rightarrow> pyval \<Rightarrow> ('r service, pydict) eff" where
  "decrypt_next R L cid entry payload aad sender_ik_sig_pub_hex =
     bindE (session_sig_pub L cid entry sender_ik_sig_pub_hex) (\<lambda>sig_pub.
     bindE (liftE (verify_payload L payload aad sig_pub sig_pub)) (\<lambda>signed_msg.
     bindE (on_session cid (session_decrypt R L (se_store entry) signed_msg aad)) (\<lambda>plaintext.
     returnE (plaintext_answer plaintext))))"

definition decrypt_message :: "'r ratchet_lib \<Rightarrow> crypto \<Rightarrow> pyval \<Rightarrow> ('r service, pydict) eff" where
  "decrypt_message R L params =
     bindE (liftE (param_str params ''conversation_id'')) (\<lambda>cid.
     bindE (liftE (param params ''ciphertext'')) (\<lambda>ciphertext_hex.
     bindE (liftE (param_get params ''initiation_bundle'' PNone)) (\<lambda>initiation_bundle.
     bindE (liftE (param_get params ''sender_ik_sig_pub'' (PStr []))) (\<lambda>sender_ik_sig_pub_hex.
     bindE require_bundle (\<lambda>bundle.
     bindE require_store (\<lambda>st.
     bindE (liftE (fromhex_val ciphertext_hex)) (\<lambda>payload.
     bindE (liftE (utf8_encode cid)) (\<lambda>aad.
     bindE (reset_by_peer cid initiation_bundle) (\<lambda>pinned.
     bindE (recover_session R L cid initiation_bundle) (\<lambda>_.
     bindE (getE (\<lambda>s. svc_sessions s cid)) (\<lambda>found.
     case found of
       None \<Rightarrow> decrypt_first R L cid bundle st payload aad initiation_bundle sender_ik_sig_pub_hex pinned
     | Some entry \<Rightarrow> decrypt_next R L cid entry payload aad sender_ik_sig_pub_hex)))))))))))"

definition reset_session :: "pyval \<Rightarrow> ('r service, pydict) eff" where
  "reset_session params =
     bindE (liftE (param_str params ''conversation_id'')) (\<lambda>cid.
     bindE (modifyE (\<lambda>s. s\<lparr>svc_sessions := (svc_sessions s)(cid := None),
       svc_pending_sessions := (svc_pending_sessions s)(cid := None)\<rparr>)) (\<lambda>_.
     bindE (drop_session cid) (\<lambda>_.
     returnE [(lit ''success'', PBool True)])))"

section \<open>Dispatch\<close>

definition handle :: "host \<Rightarrow> 'r ratchet_lib \<Rightarrow> crypto \<Rightarrow> pyval \<Rightarrow> pyval \<Rightarrow> ('r service, pydict) eff" where
  "handle H R L m params =
     (if m = PStr (lit ''unlock_keystore'') then unlock_keystore H L params
      else if m = PStr (lit ''generate_identity_bundle'') then generate_identity_bundle_request H L params
      else if m = PStr (lit ''srp_start'') then srp_start L params
      else if m = PStr (lit ''srp_challenge'') then srp_challenge L params
      else if m = PStr (lit ''srp_verify'') then srp_verify params
      else if m = PStr (lit ''has_session'') then has_session params
      else if m = PStr (lit ''initiate_session'') then initiate_session L params
      else if m = PStr (lit ''encrypt_message'') then encrypt_message R L params
      else if m = PStr (lit ''decrypt_message'') then decrypt_message R L params
      else if m = PStr (lit ''reset_session'') then reset_session params
      else raiseE (ValueError ''Unknown method''))"

end
