(* ===== verification/Service_Invariant.thy ===== *)
theory Service_Invariant
  imports Crypto_Service
begin

text \<open>
  The invariant of crypto_service.py: what every request, successful or not, keeps of the
  module's globals and the disk, and what every answer is. The lemmas are one per
  definition of \<open>Crypto_Service\<close>, composed by the rules \<open>yields_intros\<close>.
\<close>

section \<open>Values that JSON can print on one line\<close>

definition printable :: "nat \<Rightarrow> bool" where
  "printable c \<longleftrightarrow> 32 \<le> c \<and> c < 127"

fun sendable :: "pyval \<Rightarrow> bool" where
  "sendable (PBytes b) = False"
| "sendable (PFloat t) = list_all printable (lit t)"
| "sendable (PList vs) = list_all sendable vs"
| "sendable (PDict d) = list_all (\<lambda>(k, v). sendable v) d"
| "sendable v = True"

lemma sendable_dict: "sendable (PDict d) \<longleftrightarrow> (\<forall>(k, v) \<in> set d. sendable v)"
  by (simp add: list_all_iff)

declare sendable.simps(4) [simp del]

lemma sendable_dict_simps [simp]:
  "sendable (PDict [])"
  "sendable (PDict ((k, v) # d)) \<longleftrightarrow> sendable v \<and> sendable (PDict d)"
  by (simp_all add: sendable.simps(4))

lemma sendable_item: "sendable (PDict d) \<Longrightarrow> dict_item d k = Inr v \<Longrightarrow> sendable v"
  by (auto simp: sendable_dict dict_item_Inr_iff dict_get_def dest: map_of_SomeD simp del: sendable.simps)

lemma sendable_dict_get_or: "sendable (PDict d) \<Longrightarrow> sendable w \<Longrightarrow> sendable (dict_get_or d k w)"
  by (auto simp: sendable_dict dict_get_or_def dict_get_def dest: map_of_SomeD simp del: sendable.simps
      split: option.splits)

lemma sendable_update: "sendable (PDict d) \<Longrightarrow> sendable v \<Longrightarrow> sendable (PDict (AList.update k v d))"
  by (induction d) auto

lemma sendable_merge: "sendable (PDict e) \<Longrightarrow> sendable (PDict d) \<Longrightarrow> sendable (PDict (dict_merge d e))"
proof (induction e arbitrary: d)
  case Nil
  then show ?case by (simp add: dict_merge_def)
next
  case (Cons p e)
  obtain k v where p: "p = (k, v)" by force
  have "sendable (PDict (AList.update k v d))"
    using Cons.prems by (intro sendable_update) (simp_all add: p)
  from Cons.IH [OF _ this] Cons.prems(1) show ?case by (simp add: p dict_merge_def)
qed

lemma dumps_sendable:
  "sendable v \<Longrightarrow> \<exists>t. dumps_with i k v = Inr t"
  "list_all sendable vs \<Longrightarrow> \<exists>t. dumps_items i k vs = Inr t"
  "list_all (\<lambda>(k, v). sendable v) d \<Longrightarrow> \<exists>t. dumps_pairs i k d = Inr t"
  by (induction i k v and i k vs and i k d rule: dumps_with_dumps_items_dumps_pairs.induct)
    (auto simp: sendable.simps(4))

text \<open>What the parser returns contains no byte strings.\<close>

lemma sendable_dict_of_pairs: "list_all (\<lambda>(k, v). sendable v) ps \<Longrightarrow> sendable (PDict (dict_of_pairs ps))"
  unfolding dict_of_pairs_def by (intro sendable_merge) (simp_all add: sendable.simps(4))

lemma digits_printable: "list_all printable (takeWhile is_digit s)"
  by (induction s) (auto simp: is_digit_def printable_def)

lemma number_parts_printable:
  "number_int s = Some (t, r) \<Longrightarrow> list_all printable t"
  "number_frac s = (f, r) \<Longrightarrow> list_all printable f"
  "number_exp s = (e, r) \<Longrightarrow> list_all printable e"
proof -
  have d: "is_digit c \<Longrightarrow> printable c" "printable 45" "printable 48" "printable 46" "printable 69" "printable 101"
    "printable 43" for c by (auto simp: is_digit_def printable_def)
  show "number_int s = Some (t, r) \<Longrightarrow> list_all printable t"
    by (auto simp: number_int_def Let_def d digits_printable split: list.splits if_splits)
  show "number_frac s = (f, r) \<Longrightarrow> list_all printable f"
    by (auto simp: number_frac_def d digits_printable split: list.splits if_splits)
  show "number_exp s = (e, r) \<Longrightarrow> list_all printable e"
    by (auto simp: number_exp_def d digits_printable split: list.splits if_splits)
qed

lemma lit_to_chars: "list_all printable t \<Longrightarrow> lit (to_chars t) = t"
  by (induction t) (auto simp: lit_def to_chars_def printable_def)

lemma sendable_constant: "parse_constant s = Inr (v, r) \<Longrightarrow> sendable v"
  by (auto simp: parse_constant_def printable_def lit_def split: option.splits)

lemma sendable_number: "parse_number s = Inr (v, r) \<Longrightarrow> sendable v"
  by (auto simp: parse_number_def Let_def lit_to_chars dest!: number_parts_printable
      split: option.splits prod.splits if_splits)

lemma sendable_atom: "parse_atom s = Inr (v, r) \<Longrightarrow> sendable v"
  by (auto simp: parse_atom_def dest: sendable_number sendable_constant split: option.splits sum.splits)

text \<open>Printed text has no line break and no character outside ASCII.\<close>

lemma escape_str_printable: "list_all printable (escape_str s)"
proof -
  have h: "printable (hex_digit (n mod 16))" for n
  proof -
    have "n mod 16 < 16" by simp
    then show ?thesis unfolding hex_digit_def printable_def by presburger
  qed
  have "list_all printable (u_escape n)" for n unfolding u_escape_def by (simp add: h) (simp add: printable_def)
  then have "list_all printable (escape_char c)" for c unfolding escape_char_def by (auto simp: printable_def)
  then show ?thesis by (induction s) (simp_all add: escape_str_def)
qed

lemma dec_int_printable: "list_all printable (dec_int n)"
proof -
  have "printable c" if "c \<in> set (dec_nat m)" for c m
    using dec_nat_digits [OF that] by (simp add: is_digit_def printable_def)
  then show ?thesis by (auto simp: dec_int_def list_all_iff printable_def)
qed

lemma dumps_printable:
  assumes "list_all printable i" "list_all printable k"
  shows "sendable v \<Longrightarrow> dumps_with i k v = Inr t \<Longrightarrow> list_all printable t"
    and "list_all sendable vs \<Longrightarrow> dumps_items i k vs = Inr t \<Longrightarrow> list_all printable t"
    and "list_all (\<lambda>(k, v). sendable v) d \<Longrightarrow> dumps_pairs i k d = Inr t \<Longrightarrow> list_all printable t"
  using assms
proof (induction i k v and i k vs and i k d arbitrary: t and t and t
    rule: dumps_with_dumps_items_dumps_pairs.induct)
qed (auto simp: bindR_Inr_iff dec_int_printable dumps_str_def escape_str_printable printable_def lit_def sendable.simps(4)
    split: if_splits)

lemma sendable_parse:
  "(\<forall>s v r. parse_value n s = Inr (v, r) \<longrightarrow> sendable v) \<and>
   (\<forall>s vs r. parse_items n s = Inr (vs, r) \<longrightarrow> list_all sendable vs) \<and>
   (\<forall>s d r. parse_pairs n s = Inr (d, r) \<longrightarrow> list_all (\<lambda>(k, v). sendable v) d)"
proof (induction n)
  case (Suc n)
  then have V: "\<And>s v r. parse_value n s = Inr (v, r) \<Longrightarrow> sendable v"
    and I: "\<And>s vs r. parse_items n s = Inr (vs, r) \<Longrightarrow> list_all sendable vs"
    and P: "\<And>s d r. parse_pairs n s = Inr (d, r) \<Longrightarrow> list_all (\<lambda>(k, v). sendable v) d"
    by blast+
  have "sendable v" if "parse_value (Suc n) s = Inr (v, r)" for s v r
    using that by (cases rule: parse_valueE)
      (use P I sendable_dict_of_pairs sendable_atom in \<open>auto simp del: parse_value.simps\<close>)
  moreover have "list_all sendable vs" if "parse_items (Suc n) s = Inr (vs, r)" for s vs r
    using that by (cases rule: parse_itemsE) (auto dest: V I)
  moreover have "list_all (\<lambda>(k, v). sendable v) d" if "parse_pairs (Suc n) s = Inr (d, r)" for s d r
    using that by (cases rule: parse_pairsE) (auto dest: V P)
  ultimately show ?case by blast
qed simp

lemma sendable_loads:
  assumes "loads s = Inr v"
  shows "sendable v"
proof -
  obtain r where "parse_value (Suc (2 * length s)) (skip_ws s) = Inr (v, r)"
    using assms by (auto simp: loads_def bindR_Inr_iff simp del: parse_value.simps split: if_splits)
  with sendable_parse show ?thesis by blast
qed

section \<open>The invariant\<close>

text \<open>
  The sessions directory holds only the store's own names; a session in the table belongs
  to the conversation it is filed under; what is kept for later answers can be printed;
  the identity's one-time prekeys are paired.
\<close>

definition paired_opks :: "IdentityBundle \<Rightarrow> bool" where
  "paired_opks b \<longleftrightarrow> map xopk_id (x25519_opks b) = map kopk_id (kem_opks b)"

definition service_ok :: "'r service \<Rightarrow> bool" where
  "service_ok s \<longleftrightarrow> names_ok (svc_world s) \<and>
     (\<forall>cid e. svc_sessions s cid = Some e \<longrightarrow> rs_session_id (se_ratchet e) = cid \<and> sendable (se_init_bundle e)) \<and>
     (\<forall>cid p. svc_pending_sessions s cid = Some p \<longrightarrow> sendable (ps_init_bundle p)) \<and>
     (\<forall>b. svc_local_bundle s = Some b \<longrightarrow> paired_opks b)"

lemma new_service_ok: "names_ok w \<Longrightarrow> service_ok (new_service w)"
  by (simp add: service_ok_def new_service_def)

subsection \<open>Disk and session operations\<close>

lemma names_yield_tape: "(\<And>t. yieldsE (\<lambda>_. True) m Q) \<Longrightarrow> yieldsE names_ok (on_tape m) Q"
  by (simp add: yieldsE_def on_tape_sel names_ok_def)

lemma names_persist: "yieldsE names_ok (persist R L st s p) (\<lambda>_. True)"
  unfolding persist_def by (intro keepsE_yields keeps_intros)

lemma names_initiator: "yieldsE names_ok (create_as_initiator R L st SK pub msg ad sid) (\<lambda>x. rs_session_id (fst x) = sid)"
  unfolding create_as_initiator_def Let_def
  by (intro yields_binds yields_intros keepsE_yields keeps_names_on_tape names_persist)
    (auto simp: new_session_def)

lemma names_responder: "yieldsE names_ok (create_as_responder R L st SK priv wire ad sid) (\<lambda>x. rs_session_id (fst x) = sid)"
  unfolding create_as_responder_def Let_def
  by (intro yields_binds yields_intros keepsE_yields keeps_names_on_tape names_persist)
    (auto simp: new_session_def)

lemma names_load_session: "yieldsE names_ok (load_session R L st sid) (\<lambda>s. rs_session_id s = sid)"
  unfolding load_session_def
  by (intro yields_binds yields_intros keepsE_yields keeps_names_load) (auto simp: new_session_def)

lemma safe_disk:
  assumes "yieldsE names_ok m Q"
  shows "yieldsE service_ok (on_disk m) Q"
  unfolding yieldsE_def
proof (intro allI impI)
  fix s assume "service_ok s"
  then have "names_ok (svc_world s)" by (simp add: service_ok_def)
  from yieldsED [OF assms this, of "fst (m (svc_world s))"] \<open>service_ok s\<close>
  show "service_ok (snd (on_disk m s)) \<and> (\<forall>x. fst (on_disk m s) = Inr x \<longrightarrow> Q x)"
    by (cases "m (svc_world s)") (auto simp: on_disk_def zoomE_def service_ok_def)
qed

lemma safe_disk_keeps: "keepsE names_ok m \<Longrightarrow> yieldsE service_ok (on_disk m) (\<lambda>_. True)"
  by (intro safe_disk keepsE_yields)

lemma safe_entropy: "yieldsE (\<lambda>_. True) m Q \<Longrightarrow> yieldsE service_ok (on_entropy m) Q"
  unfolding on_entropy_def by (intro safe_disk names_yield_tape)

lemma safe_entropy_any: "yieldsE service_ok (on_entropy m) (\<lambda>_. True)"
  by (rule safe_entropy) (simp add: yieldsE_def)

lemma safe_store: "yieldsE service_ok require_store (\<lambda>_. True)"
  unfolding require_store_def by (intro yields_binds yields_intros) simp

lemma safe_bundle: "yieldsE service_ok require_bundle paired_opks"
  unfolding require_bundle_def
  by (intro yields_binds yields_intros) (auto simp: service_ok_def split: option.splits)

lemma safe_save_pin: "yieldsE service_ok (save_pin L st cid pub) (\<lambda>_. True)"
  unfolding save_pin_def by (intro safe_disk_keeps keeps_intros)

lemma safe_enter:
  "rs_session_id (se_ratchet e) = cid \<Longrightarrow> sendable (se_init_bundle e) \<Longrightarrow>
     yieldsE service_ok (enter_session cid e) (\<lambda>_. True)"
  unfolding enter_session_def by (intro yields_intros) (auto simp: service_ok_def)

lemmas safe_intros = safe_store safe_save_pin safe_entropy_any safe_disk_keeps safe_disk names_persist

lemma safe_require_session: "yieldsE service_ok (require_session R L cid) (\<lambda>e. rs_session_id (se_ratchet e) = cid \<and> sendable (se_init_bundle e))"
  unfolding require_session_def Let_def
  by (intro yields_bind_get yields_bind_lift yields_bind_guard yields_bind_modify yields_intros
      yieldsE_bind [OF safe_store] yieldsE_bind [OF safe_disk [OF names_load_session]]
      yieldsE_bind [OF safe_disk_keeps [OF keeps_names_load(1)]])
    (auto simp: service_ok_def)

lemma safe_on_session:
  fixes m :: "('r RatchetSession \<times> world, 'a) eff"
  assumes "yieldsE (\<lambda>(r, w). rs_session_id r = cid \<and> names_ok w) m (\<lambda>_. True)"
  shows "yieldsE service_ok (on_session cid m) (\<lambda>_. True)"
  unfolding yieldsE_def
proof (intro allI impI)
  fix s :: "'r service" assume ok: "service_ok s"
  show "service_ok (snd (on_session cid m s)) \<and> (\<forall>x. fst (on_session cid m s) = Inr x \<longrightarrow> True)"
  proof (cases "svc_sessions s cid")
    case (Some e)
    obtain r x w where m: "m (se_ratchet e, svc_world s) = (r, x, w)" by (cases "m (se_ratchet e, svc_world s)") auto
    have "rs_session_id (se_ratchet e) = cid \<and> names_ok (svc_world s)"
      using ok Some by (simp add: service_ok_def)
    with yieldsED [OF assms _ m] have "rs_session_id x = cid \<and> names_ok w" by auto
    with ok Some m show ?thesis by (auto simp: on_session_def service_ok_def)
  qed (use ok in \<open>simp add: on_session_def\<close>)
qed

lemma session_keeps_id_and_names:
  fixes R :: "'r ratchet_lib"
  shows "yieldsE (\<lambda>(r, w). rs_session_id r = cid \<and> names_ok w) (session_encrypt R L st msg ad) (\<lambda>_. True)"
  "yieldsE (\<lambda>(r, w). rs_session_id r = cid \<and> names_ok w) (session_decrypt R L st sc ad) (\<lambda>_. True)"
proof -
  have r: "yieldsE (\<lambda>(r, w). rs_session_id r = cid \<and> names_ok w) (on_ratchet m) (\<lambda>_. True)"
    for m :: "('r \<times> entropy, 'b) eff"
    by (auto simp: yieldsE_def on_ratchet_sel names_ok_def split: prod.splits)
  have w: "yieldsE (\<lambda>(r, w). rs_session_id r = cid \<and> names_ok w)
      (on_world (persist R L st s p) :: ('r RatchetSession \<times> world, unit) eff) (\<lambda>_. True)" for s :: "'r RatchetSession" and p
    using names_persist [of R L st s p] by (auto simp: yieldsE_def on_world_sel split: prod.splits)
  show "yieldsE (\<lambda>(r, w). rs_session_id r = cid \<and> names_ok w) (session_encrypt R L st msg ad) (\<lambda>_. True)"
    unfolding session_encrypt_def
    by (intro yields_binds yields_intros r w) auto
  show "yieldsE (\<lambda>(r, w). rs_session_id r = cid \<and> names_ok w) (session_decrypt R L st sc ad) (\<lambda>_. True)"
    unfolding session_decrypt_def
    by (intro yields_binds yields_intros r w) auto
qed

subsection \<open>Parts of requests\<close>

lemma sendable_param: "sendable params \<Longrightarrow> param params k = Inr v \<Longrightarrow> sendable v"
  by (cases params) (auto simp: param_def sendable_item)

lemma sendable_param_get: "sendable params \<Longrightarrow> sendable w \<Longrightarrow> param_get params k w = Inr v \<Longrightarrow> sendable v"
  by (cases params) (auto simp: param_get_def sendable_dict_get_or)

lemma generated_paired: "yieldsE (\<lambda>_. True) (generate_identity_bundle L u n) paired_opks"
  unfolding generate_identity_bundle_def
  by (intro yields_binds yields_intros)
    (auto simp: yieldsE_def new_identity_bundle_def bindR_Inr_iff assert_opk_lists_valid_iff paired_opks_def)

lemma loaded_paired: "from_private_bundle L d = Inr b \<Longrightarrow> paired_opks b"
  by (auto simp: from_private_bundle_def new_identity_bundle_def bindR_Inr_iff assert_opk_lists_valid_iff paired_opks_def)

lemma without_opk_paired: "paired_opks b \<Longrightarrow> paired_opks (without_opk i b)"
  using filter_map [of "\<lambda>n. \<not> py_eq (PInt n) i" xopk_id "x25519_opks b"]
    filter_map [of "\<lambda>n. \<not> py_eq (PInt n) i" kopk_id "kem_opks b"]
  by (simp add: paired_opks_def without_opk_def comp_def)

lemma sendable_py_iter: "py_iter v = Inr vs \<Longrightarrow> list_all sendable [v] \<Longrightarrow> list_all sendable vs"
  by (cases v) (auto simp: list_all_iff)

lemma yieldsE_case_list:
  "(xs = [] \<Longrightarrow> yieldsE P m Q) \<Longrightarrow> (\<And>y ys. xs = y # ys \<Longrightarrow> yieldsE P (f y ys) Q) \<Longrightarrow>
     yieldsE P (case xs of [] \<Rightarrow> m | y # ys \<Rightarrow> f y ys) Q"
  by (cases xs) auto

lemma initiated_printable:
  assumes "sendable (PDict rb)"
  shows "yieldsE (\<lambda>_. True) (initiate L b rb allow) (\<lambda>(SK, ib). sendable (ib_opk_id ib))"
proof -
  have id: "sendable i" if "parse_remote_opks rb = Inr (x # xs, ks)" "py_item x ''opk_id'' = Inr i" for x xs ks i
  proof -
    have "\<exists>v. dict_item rb ''opks_x25519'' = Inr v \<and> py_iter v = Inr (x # xs)"
      using that(1) by (auto simp: parse_remote_opks_def bindR_Inr_iff split: if_splits)
    with sendable_item [OF assms] sendable_py_iter have "sendable x" by fastforce
    with that(2) show ?thesis
      by (cases x) (auto simp: py_item_def sendable_item)
  qed
  show ?thesis
    unfolding initiate_def
    by (intro yields_bind_lift yields_bind_guard yieldsE_case_prod
        yieldsE_bind [where Q = "\<lambda>(i :: pyval, d :: bytes). sendable i"] yields_bind_any yieldsE_case_list yields_intros)
      (auto simp: yieldsE_def dest: id)
qed

subsection \<open>Requests\<close>

text \<open>An answer has a JSON form, and leaves the key \<open>id\<close> to the server loop.\<close>

abbreviation answer_ok :: "pydict \<Rightarrow> bool" where
  "answer_ok d \<equiv> sendable (PDict d) \<and> \<not> dict_has d ''id''"

abbreviation answers :: "('r service, pydict) eff \<Rightarrow> bool" where
  "answers m \<equiv> yieldsE service_ok m answer_ok"

lemma failure_printable [simp]: "answer_ok (failure m)"
  by (simp add: failure_def)

lemma safe_open_keystore:
  assumes "yieldsE service_ok forget (\<lambda>_. True)"
  shows "yieldsE service_ok (open_keystore forget key) (\<lambda>x. \<forall>d. x = Some d \<longrightarrow> answer_ok d)"
proof -
  have "yieldsE service_ok (bindE forget (\<lambda>_. returnE (Some (failure NO_KEYSTORE))))
      (\<lambda>x. \<forall>d. x = Some d \<longrightarrow> answer_ok d)"
    by (intro yieldsE_bind [OF assms] yieldsE_return) simp
  then show ?thesis
    unfolding open_keystore_def
    by (intro yieldsE_try yields_bind_modify yieldsE_bind [OF safe_disk_keeps] yieldsE_return keeps_intros)
      (auto simp: service_ok_def split: if_splits)
qed

lemma safe_forget: "yieldsE service_ok forget_cached_key (\<lambda>_. True)"
  unfolding forget_cached_key_def by (intro yields_intros) (auto simp: service_ok_def)

lemma safe_unlock: "answers (unlock_keystore H L params)"
proof -
  let ?Q = "\<lambda>x. \<forall>d. x = Some d \<longrightarrow> answer_ok d"
  have none: "yieldsE service_ok (returnE ()) (\<lambda>_. True)" by (simp add: yieldsE_def)
  have fail: "answers (bindE (modifyE (\<lambda>s. s\<lparr>svc_store := None\<rparr>)) (\<lambda>_. returnE (failure msg)))" for msg
    by (intro yields_bind_modify yieldsE_return) (auto simp: service_ok_def)
  show ?thesis
    unfolding unlock_keystore_def
    by (intro yields_bind_lift yieldsE_if yields_bind_get yieldsE_bind [where Q = ?Q] yieldsE_case_option
        yieldsE_bind [OF safe_open_keystore [OF safe_forget]] yieldsE_bind [OF safe_forget]
        safe_open_keystore [OF none] yieldsE_bind [OF safe_store] yieldsE_bind [OF safe_entropy_any]
        yieldsE_try yieldsE_case_prod yields_bind_modify yieldsE_bind [OF safe_disk_keeps] keeps_intros
        yieldsE_return)
      (auto simp: service_ok_def bindR_Inr_iff dest: loaded_paired split: if_splits
        intro: fail)
qed

lemma safe_generate:
  assumes "sendable params"
  shows "answers (generate_identity_bundle_request H L params)"
proof -
  have opened: "yieldsE service_ok (tryE (bindE (on_disk (create_with_key key salt)) (\<lambda>st.
        bindE (modifyE (\<lambda>s. s\<lparr>svc_store := Some st\<rparr>)) (\<lambda>_. returnE (Inr st))))
      (\<lambda>e. if e = FileExistsError then Some (returnE (Inl (failure msg))) else None))
      (\<lambda>x. \<forall>d. x = Inl d \<longrightarrow> answer_ok d)" for key salt msg
    by (intro yieldsE_try yields_bind_modify yieldsE_bind [OF safe_disk_keeps] yieldsE_return keeps_intros)
      (auto simp: service_ok_def split: if_splits intro: yieldsE_return)
  show ?thesis
    unfolding generate_identity_bundle_request_def store_identity_def
    by (intro yields_bind_lift yieldsE_bind [OF safe_entropy [OF generated_paired]] yieldsE_bind [OF safe_entropy_any]
        yieldsE_case_prod yieldsE_bind [OF opened] yieldsE_case_sum yieldsE_bind [OF safe_disk_keeps]
        yields_bind_modify yieldsE_return keeps_intros)
      (auto simp: service_ok_def dest: sendable_param [OF assms])
qed

lemma safe_on_srp: "yieldsE service_ok (on_srp m) (\<lambda>_. True)"
  by (auto simp: yieldsE_def on_srp_def zoomE_def service_ok_def split: prod.splits)

lemma safe_srp:
  "answers (srp_start L params)" "answers (srp_challenge L params)" "answers (srp_verify params)"
proof -
  show "answers (srp_start L params)"
    unfolding srp_start_def
    by (intro yields_bind_lift yields_bind_modify yieldsE_bind [OF safe_entropy_any] yieldsE_return)
      (auto simp: service_ok_def)
  show "answers (srp_challenge L params)"
    unfolding srp_challenge_def
    by (intro yields_bind_lift yields_bind_get yields_bind_guard yields_bind_modify yieldsE_case_prod
        yieldsE_bind [OF yieldsE_finally [OF safe_entropy_any]] yieldsE_bind [OF safe_on_srp] yieldsE_return)
      (auto simp: service_ok_def)
  show "answers (srp_verify params)"
    unfolding srp_verify_def Let_def
    by (intro yields_bind_lift yields_bind_get yieldsE_bind [where Q = "\<lambda>v :: pyval. sendable v"] yieldsE_if
        yields_bind_modify yields_bind_any yieldsE_return yieldsE_modify)
      (auto simp: service_ok_def)
qed

lemma safe_has_session: "answers (has_session params)"
proof -
  have look: "yieldsE service_ok (tryE (bindE require_store (\<lambda>_. getE f)) (\<lambda>e. Some (returnE False))) (\<lambda>_. True)"
    for f :: "'r service \<Rightarrow> bool"
    by (intro yieldsE_try yieldsE_bind [OF safe_store]) (auto simp: yieldsE_def)
  show ?thesis
    unfolding has_session_def
    by (intro yields_bind_lift yields_bind_get yieldsE_if yieldsE_bind [OF look] yieldsE_return) simp_all
qed

lemma safe_initiate:
  assumes "sendable params"
  shows "answers (initiate_session L params)"
proof -
  have shake: "yieldsE service_ok (tryE (on_entropy (initiate L b rb True))
       (\<lambda>e. if e = SPKVerificationError then Some (raiseE (ValueError ''SPK verification failed''))
         else if e = MalformedBundleError then Some (raiseE (ValueError ''Malformed remote bundle''))
         else None)) (\<lambda>(SK, ib). sendable (ib_opk_id ib))" if "sendable (PDict rb)" for b rb
    by (intro yieldsE_try safe_entropy [OF initiated_printable [OF that]]) (auto split: if_splits intro: yields_intros)
  have rb: "sendable v" if r: "bindR (param params ''remote_bundle'') (\<lambda>v. case v of PStr t \<Rightarrow> loads t | _ \<Rightarrow> Inr v) = Inr v" for v
  proof -
    obtain x where x: "param params ''remote_bundle'' = Inr x" "(case x of PStr t \<Rightarrow> loads t | _ \<Rightarrow> Inr x) = Inr v"
      using r unfolding bindR_Inr_iff by blast
    with sendable_param [OF assms x(1)] sendable_loads show ?thesis by (cases x) auto
  qed
  have d: "sendable (PDict d)" if "as_dict v = Inr d" "sendable v" for v d using that by (cases v) auto
  show ?thesis
    unfolding initiate_session_def
    by (intro yields_bind_lift yieldsE_bind [OF safe_bundle] yieldsE_bind [OF shake] yieldsE_case_prod
        yields_bind_modify yieldsE_return)
      (auto simp: service_ok_def ib_to_dict_def dest: rb d)
qed

lemma safe_encrypt: "answers (encrypt_message R L params)"
proof -
  have first: "yieldsE service_ok (encrypt_first R L cid pending plaintext aad) (\<lambda>(w, v). sendable v)"
    if "sendable (ps_init_bundle pending)" for cid pending plaintext aad
    unfolding encrypt_first_def using that
    by (intro yields_bind_modify yieldsE_bind [OF safe_store] yieldsE_bind [OF safe_disk [OF names_initiator]]
        yieldsE_case_prod yieldsE_bind [OF safe_save_pin] yieldsE_bind [OF safe_enter] yieldsE_return)
      (auto simp: service_ok_def)
  have upd: "yieldsE service_ok (update_entry cid (\<lambda>e. e\<lparr>se_init_bundle := PNone\<rparr>)) (\<lambda>_. True)" for cid
    unfolding update_entry_def by (intro yieldsE_modify) (auto simp: service_ok_def split: if_splits)
  have "next": "yieldsE service_ok (encrypt_next R L cid plaintext aad) (\<lambda>(w, v). sendable v)" for cid plaintext aad
    unfolding encrypt_next_def
    by (intro yieldsE_bind [OF safe_require_session] yieldsE_bind [OF safe_on_session [OF session_keeps_id_and_names(1)]]
        yieldsE_bind [OF upd] yieldsE_return) simp
  show ?thesis
    unfolding encrypt_message_def
    by (intro yields_bind_lift yieldsE_bind [OF safe_bundle] yields_bind_get
        yieldsE_bind [where Q = "\<lambda>(w :: bytes, v). sendable v"] yieldsE_case_option first "next" yieldsE_case_prod
        yieldsE_bind [OF safe_entropy_any] yieldsE_return)
      (auto simp: service_ok_def)
qed

lemma safe_drop: "yieldsE service_ok (drop_session cid) (\<lambda>_. True)"
  unfolding drop_session_def
  by (intro yieldsE_try yieldsE_bind [OF safe_store] yieldsE_bind [OF safe_disk_keeps] safe_disk_keeps keeps_intros)
    (auto simp: yieldsE_def)

lemma safe_consume: "paired_opks b \<Longrightarrow> yieldsE service_ok (consume_opk L st b i) (\<lambda>_. True)"
  unfolding consume_opk_def
  by (intro yields_bind_modify yields_bind_lift safe_disk_keeps keeps_intros)
    (auto simp: service_ok_def without_opk_paired)

lemma safe_decrypt: "answers (decrypt_message R L params)"
proof -
  have plain: "answer_ok (plaintext_answer p)" for p by (simp add: plaintext_answer_def)
  have reset: "yieldsE service_ok (reset_by_peer cid ib) (\<lambda>_. True)" for cid ib
    unfolding reset_by_peer_def
    by (intro yields_bind_get yieldsE_case_option yieldsE_if yields_bind_modify yieldsE_bind [OF safe_drop] yieldsE_return)
      (auto simp: service_ok_def)
  have recover: "yieldsE service_ok (recover_session R L cid ib) (\<lambda>_. True)" for cid ib
    unfolding recover_session_def
    by (intro yields_bind_get yieldsE_if yieldsE_try yieldsE_bind [OF safe_require_session] yieldsE_return)
      (auto split: if_splits intro: yieldsE_return)
  have first: "answers (decrypt_first R L cid b st payload aad ib sender pinned)" if "paired_opks b"
    for cid b st payload aad ib sender pinned
    unfolding decrypt_first_def Let_def load_opk_secrets_def split
    by (intro yields_bind_guard yields_bind_lift yieldsE_bind [where Q = "\<lambda>_. True" and m = "if _ then _ else _"]
        yieldsE_if safe_consume that yieldsE_bind [OF safe_disk [OF names_responder]] yieldsE_case_prod
        yieldsE_bind [OF safe_save_pin] yieldsE_bind [OF safe_enter] yieldsE_return plain) auto
  have key: "yieldsE service_ok (session_sig_pub L cid e sender) (\<lambda>_. True)"
    if "rs_session_id (se_ratchet e) = cid" "sendable (se_init_bundle e)" for cid e sender
    unfolding session_sig_pub_def using that
    by (intro yieldsE_if yields_bind_lift yieldsE_bind [OF safe_enter] yieldsE_bind [OF safe_store]
        yieldsE_bind [OF safe_save_pin] yieldsE_return yieldsE_raise) auto
  have "next": "answers (decrypt_next R L cid e payload aad sender)"
    if "rs_session_id (se_ratchet e) = cid" "sendable (se_init_bundle e)" for cid e payload aad sender
    unfolding decrypt_next_def
    by (intro yieldsE_bind [OF key [OF that]] yields_bind_lift
        yieldsE_bind [OF safe_on_session [OF session_keeps_id_and_names(2)]] yieldsE_return plain)
  show ?thesis
    unfolding decrypt_message_def
    by (intro yields_bind_lift yieldsE_bind [OF safe_bundle] yieldsE_bind [OF safe_store] yieldsE_bind [OF reset]
        yieldsE_bind [OF recover] yields_bind_get yieldsE_case_option first "next")
      (auto simp: service_ok_def)
qed

lemma safe_reset: "answers (reset_session params)"
  unfolding reset_session_def
  by (intro yields_bind_lift yields_bind_modify yieldsE_bind [OF safe_drop] yieldsE_return)
    (auto simp: service_ok_def)

lemma safe_handle:
  assumes "sendable params"
  shows "answers (handle H R L m params)"
  unfolding handle_def
  by (intro yieldsE_if safe_unlock safe_generate assms safe_srp safe_has_session safe_initiate safe_encrypt
      safe_decrypt safe_reset yieldsE_raise)

end
