(* ===== verification/Service_Keystore.thy ===== *)
theory Service_Keystore
  imports Service_Invariant Session_Run
begin

text \<open>
  crypto_service.py and its keystore: which files each operation writes, the identity as
  it is stored, registration, and unlocking in a new process with the same password.
\<close>

section \<open>Frames\<close>

lemma on_disk_sel: "on_disk m s = (case m (svc_world s) of (r, w) \<Rightarrow> (r, s\<lparr>svc_world := w\<rparr>))"
  by (simp add: on_disk_def zoomE_def)

lemma on_entropy_sel:
  "on_entropy m s = (case m (tape (svc_world s)) of (r, t) \<Rightarrow> (r, s\<lparr>svc_world := (svc_world s)\<lparr>tape := t\<rparr>\<rparr>))"
  by (simp add: on_entropy_def on_disk_sel on_tape_sel split: prod.splits)

lemma load_state_same:
  assumes "load_state L st j w = (Inr v, w)" "fst (load_state L st j w') = fst (load_state L st j w)"
  shows "load_state L st j w' = (Inr v, w')"
  using assms store.load_eq [of L st j w'] by simp

text \<open>\<open>w'\<close> differs from \<open>w\<close> at most in the state files of \<open>I\<close>, the random tape and the disk's plan.\<close>

definition writes_only :: "pystr set \<Rightarrow> world \<Rightarrow> world \<Rightarrow> bool" where
  "writes_only I w w' \<longleftrightarrow> salt_file w' = salt_file w \<and>
     (\<forall>j. j \<notin> I \<longrightarrow> map_of (sess_files w') (state_name j) = map_of (sess_files w) (state_name j))"

lemma writes_only_load: "writes_only I w w' \<Longrightarrow> j \<notin> I \<Longrightarrow> fst (load_state L st j w') = fst (load_state L st j w)"
  by (simp add: writes_only_def load_state_eq)

lemma writes_only_refl [simp]: "writes_only I w w"
  and writes_only_tape [simp]: "writes_only I (w\<lparr>tape := t\<rparr>) w' = writes_only I w w'"
    "writes_only I w (w'\<lparr>tape := t\<rparr>) = writes_only I w w'"
  and writes_only_base [simp]: "writes_only I w (w'\<lparr>base_exists := e\<rparr>) = writes_only I w w'"
  by (simp_all add: writes_only_def)

lemma writes_only_trans: "writes_only I w w' \<Longrightarrow> writes_only J w' w'' \<Longrightarrow> writes_only (I \<union> J) w w''"
  by (simp add: writes_only_def)

lemma writes_only_mono: "writes_only I w w' \<Longrightarrow> I \<subseteq> J \<Longrightarrow> writes_only J w w'"
  by (auto simp: writes_only_def)

lemma save_writes: "save_state L st i v w = (r, w') \<Longrightarrow> writes_only {i} w w'"
proof -
  assume s: "save_state L st i v w = (r, w')"
  then have "salt_file w' = salt_file w"
    by (auto simp: save_state_cases Let_def dest!: write_file_salt split: sum.splits prod.splits)
  with save_state_frame [OF s] show ?thesis by (simp add: writes_only_def)
qed

lemma persist_writes: "persist R L st s p w = (r, w') \<Longrightarrow> writes_only {rs_session_id s} w w'"
  unfolding persist_def by (rule save_writes)

lemma session_encrypt_writes:
  assumes "session_encrypt R L st msg ad (s, w) = (r, s', w')"
  shows "writes_only {rs_session_id s} w w'"
  using assms
  by (auto simp: session_encrypt_def bindE_def on_ratchet_sel on_world_sel dest!: persist_writes
      split: prod.splits sum.splits)

lemma session_decrypt_writes:
  assumes "session_decrypt R L st sc ad (s, w) = (r, s', w')"
  shows "writes_only {rs_session_id s} w w'"
  using assms
  by (auto simp: session_decrypt_def bindE_def on_ratchet_sel on_world_sel dest!: persist_writes
      split: prod.splits sum.splits)

lemma initiator_writes:
  "create_as_initiator R L st SK pub msg ad sid w = (Inr r, w') \<Longrightarrow> writes_only {sid} w w'"
  by (auto simp: create_as_initiator_def Let_def bindE_eq_Inr on_tape_sel new_session_def dest!: persist_writes)

lemma responder_writes:
  "create_as_responder R L st SK priv wire ad sid w = (Inr r, w') \<Longrightarrow> writes_only {sid} w w'"
  by (auto simp: create_as_responder_def Let_def bindE_eq_Inr on_tape_sel new_session_def dest!: persist_writes)

lemma meta_key_neq: "meta_key cid \<noteq> cid"
proof -
  have "length (meta_key cid) \<noteq> length cid" by (simp add: meta_key_def META_KEY_PREFIX_def lit_def)
  then show ?thesis by metis
qed

section \<open>Identities on disk\<close>

definition encodable :: "pystr \<Rightarrow> bool" where
  "encodable u \<longleftrightarrow> (\<exists>b. utf8_encode u = Inr b)"

lemma encodable_scalar: "encodable u \<longleftrightarrow> list_all scalar u"
proof
  assume "list_all scalar u"
  then show "encodable u" unfolding encodable_def using utf8_encode_scalar by blast
next
  assume "encodable u"
  then obtain b where "utf8_encode u = Inr b" by (auto simp: encodable_def)
  then show "list_all scalar u"
    by (induction u arbitrary: b) (auto simp: utf8_char_def scalar_def is_surrogate_def bindR_Inr_iff split: if_splits)
qed

lemma private_opk_ok: "json_ok (private_opk i pub sec)"
  by (simp add: private_opk_def lit_scalar hex_scalar)

lemma private_bundle_ok:
  assumes "to_private_bundle L b = Inr d" "encodable (user_id b)"
  shows "json_ok (PDict d)"
proof -
  have "list_all json_ok (map (\<lambda>o1. private_opk (f o1) (g o1) (h o1)) xs)" for f g h and xs :: "'x list"
    by (simp add: list_all_iff private_opk_ok)
  note opks = this
  have "list_all json_ok (map (\<lambda>o1. private_opk (kopk_id o1) (kopk_public_key o1) (kopk_secret_key o1)) (kem_opks b))"
    by (simp add: list_all_iff private_opk_ok)
  with opks assms show ?thesis
    by (auto simp: to_private_bundle_def bindR_Inr_iff lit_scalar hex_scalar encodable_scalar)
qed

lemma bundle_key_storable: "storable BUNDLE_KEY"
  by (simp add: storable_def BUNDLE_KEY_def validate_session_id_def lit_def forbidden_def name_ok_def state_name_def
      utf8_char_def)

lemma meta_key_neq_bundle_key: "meta_key cid \<noteq> BUNDLE_KEY"
  by (simp add: meta_key_def META_KEY_PREFIX_def BUNDLE_KEY_def lit_def)

lemma without_opk_keys [simp]:
  "user_id (without_opk i b) = user_id b" "ik_sig (without_opk i b) = ik_sig b"
  "spk (without_opk i b) = spk b"
  by (simp_all add: without_opk_def)

lemma private_bundle_total: "paired_opks b \<Longrightarrow> \<exists>d. to_private_bundle L b = Inr d"
  using assert_opk_lists_valid_iff [of "x25519_opks b" "kem_opks b"] by (simp add: to_private_bundle_def paired_opks_def)

text \<open>Storing an identity on a disk that completes its writes.\<close>

lemma save_identity:
  assumes "paired_opks b" "encodable (user_id b)" "disk_ok L st w"
  shows "\<exists>d w'. to_private_bundle L b = Inr d \<and> save_state L st BUNDLE_KEY (PDict d) w = (Inr (), w') \<and>
    disk_ok L st w' \<and> load_state L st BUNDLE_KEY w' = (Inr (PDict d), w')"
proof -
  obtain d where d: "to_private_bundle L b = Inr d" using private_bundle_total [OF assms(1)] by blast
  note j = private_bundle_ok [OF d assms(2)]
  have h: "aead_correct L \<and> length (enc_key st) = 32 \<and> quiet w" using assms(3) by (simp add: disk_ok_def)
  obtain w' where w': "save_state L st BUNDLE_KEY (PDict d) w = (Inr (), w')"
    using store.save_total [OF h bundle_key_storable j] by blast
  with store.load_saved [OF h bundle_key_storable j w'] store.save_healthy [OF h, of BUNDLE_KEY "PDict d"] d
  show ?thesis by (simp add: disk_ok_def)
qed

text \<open>
  The keystore of password \<open>pw\<close> on disk \<open>w\<close>: the salt file derives the key that the open
  store holds, and the stored identity is the one in memory.
\<close>

definition derives :: "crypto \<Rightarrow> pystr \<Rightarrow> bytes \<Rightarrow> bytes \<Rightarrow> bool" where
  "derives L pw salt key \<longleftrightarrow> length salt = ARGON2_SALT_LEN \<and>
     (\<exists>sp. \<forall>t. derive_master_components L pw (Some salt) t = (Inr (sp, key, salt), t))"

definition keystore_for :: "crypto \<Rightarrow> pystr \<Rightarrow> IdentityBundle \<Rightarrow> StateStore \<Rightarrow> world \<Rightarrow> bool" where
  "keystore_for L pw b st w \<longleftrightarrow> pw \<noteq> [] \<and> bundle_loadable L b \<and>
     (\<exists>salt. salt_file w = Some salt \<and> derives L pw salt (enc_key st)) \<and>
     (\<exists>d. to_private_bundle L b = Inr d \<and> load_state L st BUNDLE_KEY w = (Inr (PDict d), w))"

lemma keystore_writes:
  assumes "keystore_for L pw b st w" "writes_only I w w'" "BUNDLE_KEY \<notin> I"
  shows "keystore_for L pw b st w'"
proof -
  obtain d where d: "to_private_bundle L b = Inr d" "load_state L st BUNDLE_KEY w = (Inr (PDict d), w)"
    using assms(1) by (auto simp: keystore_for_def)
  have "load_state L st BUNDLE_KEY w' = (Inr (PDict d), w')"
    by (rule load_state_same [OF d(2) writes_only_load [OF assms(2,3)]])
  with d(1) assms(1,2) show ?thesis by (simp add: keystore_for_def writes_only_def)
qed

lemma without_opk_loadable: "bundle_loadable L b \<Longrightarrow> bundle_loadable L (without_opk i b)"
  by (simp add: bundle_loadable_def without_opk_def)

lemma salt_writes: "writes_only I w w' \<Longrightarrow> salt_file w' = salt_file w"
  by (simp add: writes_only_def)

text \<open>\<open>unlocked\<close>: a service that is open with identity \<open>b\<close>, on a disk that completes its writes.\<close>

definition unlocked :: "crypto \<Rightarrow> pystr \<Rightarrow> IdentityBundle \<Rightarrow> StateStore \<Rightarrow> 'r service \<Rightarrow> bool" where
  "unlocked L pw b st s \<longleftrightarrow> svc_local_bundle s = Some b \<and> svc_store s = Some st \<and>
     keystore_for L pw b st (svc_world s) \<and> disk_ok L st (svc_world s)"

lemma consume_opk_run:
  assumes "paired_opks b" "encodable (user_id b)" "unlocked L pw b st s"
  shows "\<exists>w'. consume_opk L st b i s = (Inr (), s\<lparr>svc_local_bundle := Some (without_opk i b), svc_world := w'\<rparr>) \<and>
    disk_ok L st w' \<and> keystore_for L pw (without_opk i b) st w'"
proof -
  have b: "paired_opks (without_opk i b)" "encodable (user_id (without_opk i b))"
    using assms(1,2) by (simp_all add: without_opk_paired)
  have k: "keystore_for L pw b st (svc_world s)" and d: "disk_ok L st (svc_world s)"
    using assms(3) by (simp_all add: unlocked_def)
  from save_identity [OF b d] obtain d w' where w':
    "to_private_bundle L (without_opk i b) = Inr d"
    "save_state L st BUNDLE_KEY (PDict d) (svc_world s) = (Inr (), w')" "disk_ok L st w'"
    "load_state L st BUNDLE_KEY w' = (Inr (PDict d), w')" by blast
  have "keystore_for L pw (without_opk i b) st w'"
    using k w'(1,4) salt_writes [OF save_writes [OF w'(2)]] by (simp add: keystore_for_def without_opk_loadable)
  with w' show ?thesis by (intro exI [of _ w'] conjI) (simp_all add: consume_opk_def on_disk_sel)
qed

lemma load_state_present: "load_state L st i w = (Inr v, w') \<Longrightarrow> state_exists i w"
  by (auto simp: load_state_eq load_result_def state_exists_def file_exists_def bindR_Inr_iff split: option.splits)

section \<open>Unlocking\<close>

definition unlock_params :: "pystr \<Rightarrow> pyval" where
  "unlock_params pw = PDict [(lit ''password'', PStr pw)]"

text \<open>A new process on the same disk, unlocked with the password.\<close>

definition restart :: "host \<Rightarrow> crypto \<Rightarrow> pystr \<Rightarrow> 'r service \<Rightarrow> 'r service" where
  "restart H L pw s = snd (unlock_keystore H L (unlock_params pw) (new_service (svc_world s)))"

lemma unlock_run:
  assumes "keystore_for L pw b st w"
  shows "unlock_keystore H L (unlock_params pw) (new_service w) =
    (Inr [(lit ''success'', PBool True)],
     (new_service (w\<lparr>base_exists := True\<rparr>))\<lparr>svc_store := Some st, svc_local_bundle := Some b\<rparr>)"
proof -
  obtain salt sp d where k: "pw \<noteq> []" "salt_file w = Some salt" "length salt = ARGON2_SALT_LEN"
    "\<And>t. derive_master_components L pw (Some salt) t = (Inr (sp, enc_key st, salt), t)"
    "to_private_bundle L b = Inr d" "load_state L st BUNDLE_KEY w = (Inr (PDict d), w)" "bundle_loadable L b"
    using assms by (auto simp: keystore_for_def derives_def)
  let ?w = "w\<lparr>base_exists := True\<rparr>"
  have l: "load_state L st BUNDLE_KEY ?w = (Inr (PDict d), ?w)"
    by (rule load_state_same [OF k(6)]) (simp add: load_state_eq)
  have b: "from_private_bundle L d = Inr b" using private_bundle.dec_enc [OF k(7,5)] by simp
  obtain key where st: "st = \<lparr>enc_key = key\<rparr>" by (rule StateStore.cases)
  show ?thesis
    using k(1-4) l b load_state_present [OF l]
    by (simp add: st unlock_keystore_def unlock_params_def param_get_def new_service_def load_master_salt_def
        on_entropy_sel open_keystore_def on_disk_sel load_with_key_def read_salt_def new_store_def tryE_def
        require_store_def)
qed

section \<open>Registration\<close>

definition register_params :: "pystr \<Rightarrow> pystr \<Rightarrow> bytes \<Rightarrow> pyval" where
  "register_params username pw nonce = PDict [(lit ''username'', PStr username), (lit ''password'', PStr pw),
     (lit ''nonce'', PHex nonce)]"

lemma on_disk_Inr:
  "on_disk m s = (Inr x, t) \<longleftrightarrow> (\<exists>w. m (svc_world s) = (Inr x, w) \<and> t = s\<lparr>svc_world := w\<rparr>)"
  by (auto simp: on_disk_sel split: prod.splits)

lemma on_entropy_Inr:
  "on_entropy m s = (Inr x, t) \<longleftrightarrow>
     (\<exists>u. m (tape (svc_world s)) = (Inr x, u) \<and> t = s\<lparr>svc_world := (svc_world s)\<lparr>tape := u\<rparr>\<rparr>)"
  by (auto simp: on_entropy_sel split: prod.splits)

text \<open>What a registration that returned leaves behind, and what its answer holds for the server.\<close>

definition registered ::
    "crypto \<Rightarrow> pystr \<Rightarrow> pystr \<Rightarrow> bytes \<Rightarrow> pydict \<Rightarrow> IdentityBundle \<Rightarrow> StateStore \<Rightarrow> bytes \<Rightarrow> bytes \<Rightarrow> 'r service \<Rightarrow> bool" where
  "registered L username pw nonce answer b st salt vb t \<longleftrightarrow>
     bundle_ok L b \<and> user_id b = username \<and> svc_store t = Some st \<and> svc_local_bundle t = Some b \<and>
     salt_file (svc_world t) = Some salt \<and> disk_ok L st (svc_world t) \<and>
     (\<exists>d. to_private_bundle L b = Inr d \<and> load_state L st BUNDLE_KEY (svc_world t) = (Inr (PDict d), svc_world t)) \<and>
     (\<exists>sp. length salt = ARGON2_SALT_LEN \<and>
       (\<forall>u. derive_master_components L pw (Some salt) u = (Inr (sp, enc_key st, salt), u)) \<and>
       create_srp_verifier L username (hex sp) salt = Inr vb) \<and>
     dict_item answer ''srp_salt'' = Inr (PHex salt) \<and> dict_item answer ''srp_verifier'' = Inr (PHex vb) \<and>
     dict_item answer ''identity_signing_pub'' = Inr (PHex (sig_public_key (ik_sig b))) \<and>
     dict_item answer ''signed_prekey_pub'' = Inr (PHex (public_key_bytes L (spk_keypair (spk b)))) \<and>
     (\<exists>sg. dict_item answer ''nonce_signature'' = Inr (PHex sg) \<and>
       verify_hybrid_signature L nonce sg (sig_public_key (ik_sig b)) = Inr True) \<and>
     (\<exists>sg. dict_item answer ''signed_prekey_signature'' = Inr (PHex sg) \<and>
       verify_spk_signature L (public_key_bytes L (spk_keypair (spk b))) sg (sig_public_key (ik_sig b)) = Inr True)"

lemma create_with_key_cases:
  assumes "create_with_key key salt w = (r, w')" "quiet w" "length salt = ARGON2_SALT_LEN"
  shows "(salt_file w \<noteq> None \<and> r = Inl FileExistsError \<and> w' = w\<lparr>base_exists := True\<rparr>) \<or>
    (salt_file w = None \<and> r = Inr \<lparr>enc_key = key\<rparr> \<and> salt_file w' = Some salt \<and> quiet w' \<and> sess_files w' = sess_files w)"
proof (cases "salt_file w")
  case None
  have q: "quiet (w\<lparr>base_exists := True\<rparr>)" using assms(2) by (simp add: quiet_def)
  show ?thesis
  proof (cases "write_plan w")
    case Nil
    with assms None show ?thesis
      by (auto simp: create_with_key_def write_salt_def atomic_write_def next_outcome_def bindE_def new_store_def quiet_def)
  next
    case (Cons x xs)
    then have "x = Completes" using assms(2) by (simp add: quiet_def)
    with assms None Cons show ?thesis
      by (auto simp: create_with_key_def write_salt_def atomic_write_def next_outcome_def bindE_def new_store_def quiet_def)
  qed
next
  case (Some x)
  with assms show ?thesis by (auto simp: create_with_key_def bindE_def)
qed

lemma bundle_ok_parts:
  "bundle_ok L b \<Longrightarrow> signing_ok L (ik_sig b)"
  "bundle_ok L b \<Longrightarrow> length (private_key_bytes (spk_keypair (spk b))) = 32"
  unfolding bundle_ok_def private_key_bytes_def by blast+

text \<open>A keystore that exists is left alone; a new one holds the identity.\<close>

lemma store_identity_run:
  assumes "store_identity H L key salt b answer s = (Inr d, t)" "quiet (svc_world s)" "aead_correct L"
    and "length salt = ARGON2_SALT_LEN" "length key = 32" "encodable (user_id b)"
  shows "(salt_file (svc_world s) \<noteq> None \<and> (\<exists>m. d = failure m) \<and>
      t = s\<lparr>svc_world := (svc_world s)\<lparr>base_exists := True\<rparr>\<rparr>) \<or>
    (salt_file (svc_world s) = None \<and> d = answer \<and> svc_store t = Some \<lparr>enc_key = key\<rparr> \<and>
      svc_local_bundle t = Some b \<and> salt_file (svc_world t) = Some salt \<and> disk_ok L \<lparr>enc_key = key\<rparr> (svc_world t) \<and>
      (\<exists>p. to_private_bundle L b = Inr p \<and>
        load_state L \<lparr>enc_key = key\<rparr> BUNDLE_KEY (svc_world t) = (Inr (PDict p), svc_world t)))"
proof -
  obtain r w where c: "create_with_key key salt (svc_world s) = (r, w)" by (rule prod.exhaust)
  from create_with_key_cases [OF c assms(2,4)] show ?thesis
  proof (elim disjE conjE)
    assume "salt_file (svc_world s) \<noteq> None" "r = Inl FileExistsError" "w = (svc_world s)\<lparr>base_exists := True\<rparr>"
    with c assms(1) show ?thesis
      by (auto simp: store_identity_def bindE_def tryE_def on_disk_sel split: if_splits)
  next
    assume w: "salt_file (svc_world s) = None" "r = Inr \<lparr>enc_key = key\<rparr>" "salt_file w = Some salt" "quiet w"
    let ?st = "\<lparr>enc_key = key\<rparr>"
    have oc: "on_disk (create_with_key key salt) s = (Inr ?st, s\<lparr>svc_world := w\<rparr>)" using c w(2) by (simp add: on_disk_sel)
    obtain p w' where sv: "to_private_bundle L b = Inr p" "save_state L ?st BUNDLE_KEY (PDict p) w = (Inr (), w')"
      "d = answer" "t = s\<lparr>svc_store := Some ?st, svc_world := w', svc_local_bundle := Some b\<rparr>"
      using oc assms(1) by (auto simp: store_identity_def bindE_eq_Inr tryE_def on_disk_Inr)
    have k: "disk_ok L ?st w" using w(4) assms(3,5) by (simp add: disk_ok_def)
    have h: "aead_correct L \<and> length (enc_key ?st) = 32 \<and> quiet w" using k by (simp add: disk_ok_def)
    note j = private_bundle_ok [OF sv(1) assms(6)]
    have "salt_file w' = Some salt" using salt_writes [OF save_writes [OF sv(2)]] w(3) by simp
    moreover have "disk_ok L ?st w'" using store.save_healthy [OF h, of BUNDLE_KEY "PDict p"] sv(2) by (simp add: disk_ok_def)
    ultimately show ?thesis
      using sv w(1) store.load_saved [OF h bundle_key_storable j sv(2)] by simp
  qed
qed

lemma registration_run:
  assumes "generate_identity_bundle_request H L (register_params username pw nonce) s = (Inr answer, t)"
    and "quiet (svc_world s)" "encodable username" "aead_correct L"
    and "x25519_correct L" "kem_correct L" "ed25519_correct L" "dsa_correct L" "hkdf_correct L"
  shows "(salt_file (svc_world s) \<noteq> None \<and> (\<exists>m. answer = failure m) \<and>
      (\<exists>u. t = s\<lparr>svc_world := (svc_world s)\<lparr>tape := u, base_exists := True\<rparr>\<rparr>)) \<or>
    (salt_file (svc_world s) = None \<and> (\<exists>b st salt vb. registered L username pw nonce answer b st salt vb t))"
proof -
  obtain salt u1 sp key s2 u2 b u3 nsg u4 ssg u5 vb where d:
    "drawE (urandom ARGON2_SALT_LEN) (tape (svc_world s)) = (Inr salt, u1)"
    "derive_master_components L pw (Some salt) u1 = (Inr (sp, key, s2), u2)"
    "generate_identity_bundle L username OPK_COUNT u2 = (Inr b, u3)"
    "hybrid_sign L (ik_sig b) nonce u3 = (Inr nsg, u4)"
    "hybrid_sign L (ik_sig b) (public_key_bytes L (spk_keypair (spk b))) u4 = (Inr ssg, u5)"
    "create_srp_verifier L username (hex sp) salt = Inr vb"
    "store_identity H L key salt b
      [(lit ''srp_salt'', PHex salt), (lit ''srp_verifier'', PHex vb),
       (lit ''idk_classical_pub'', PHex (public_key_bytes L (ik_classical b))),
       (lit ''idk_pq_pub'', PHex (kem_public_key (ik_kem b))),
       (lit ''identity_signing_pub'', PHex (sig_public_key (ik_sig b))),
       (lit ''signed_prekey_pub'', PHex (public_key_bytes L (spk_keypair (spk b)))),
       (lit ''signed_prekey_signature'', PHex ssg),
       (lit ''nonce'', PHex nonce), (lit ''nonce_signature'', PHex nsg)]
     (s\<lparr>svc_world := (svc_world s)\<lparr>tape := u5\<rparr>\<rparr>) = (Inr answer, t)"
    using assms(1)
    by (auto simp: generate_identity_bundle_request_def register_params_def param_str_def param_def
        bindE_eq_Inr on_entropy_Inr)
  have sl: "length salt = ARGON2_SALT_LEN" using d(1) by (auto simp: drawE_def dest: urandom_length split: prod.splits)
  have m: "s2 = salt" "length key = 32" using master_components_key_length [OF assms(9) d(2)] by simp_all
  have again: "derive_master_components L pw (Some salt) u = (Inr (sp, key, salt), u)" for u
    using master_components_again [OF d(2), of u] m(1) by simp
  have b: "bundle_ok L b" "user_id b = username"
    using generate_identity_bundle_bundle_ok [OF assms(5-8), of username OPK_COUNT u2] d(3) by auto
  note sg = bundle_ok_parts(1) [OF b(1)]
  have v: "verify_hybrid_signature L nonce nsg (sig_public_key (ik_sig b)) = Inr True"
    "verify_spk_signature L (public_key_bytes L (spk_keypair (spk b))) ssg (sig_public_key (ik_sig b)) = Inr True"
    using hybrid_sign_key [OF d(4) assms(7) sg] hybrid_sign_key [OF d(5) assms(7) sg] by (simp_all add: verify_spk_signature_def)
  have q: "quiet (svc_world (s\<lparr>svc_world := (svc_world s)\<lparr>tape := u5\<rparr>\<rparr>))" using assms(2) by (simp add: quiet_def)
  have e: "encodable (user_id b)" using assms(3) b(2) by simp
  from store_identity_run [OF d(7) q assms(4) sl m(2) e] show ?thesis
  proof (elim disjE conjE)
    assume "salt_file (svc_world (s\<lparr>svc_world := (svc_world s)\<lparr>tape := u5\<rparr>\<rparr>)) = None"
      "answer = [(lit ''srp_salt'', PHex salt), (lit ''srp_verifier'', PHex vb),
       (lit ''idk_classical_pub'', PHex (public_key_bytes L (ik_classical b))),
       (lit ''idk_pq_pub'', PHex (kem_public_key (ik_kem b))),
       (lit ''identity_signing_pub'', PHex (sig_public_key (ik_sig b))),
       (lit ''signed_prekey_pub'', PHex (public_key_bytes L (spk_keypair (spk b)))),
       (lit ''signed_prekey_signature'', PHex ssg),
       (lit ''nonce'', PHex nonce), (lit ''nonce_signature'', PHex nsg)]"
      "svc_store t = Some \<lparr>enc_key = key\<rparr>" "svc_local_bundle t = Some b" "salt_file (svc_world t) = Some salt"
      "disk_ok L \<lparr>enc_key = key\<rparr> (svc_world t)" "\<exists>p. to_private_bundle L b = Inr p \<and>
        load_state L \<lparr>enc_key = key\<rparr> BUNDLE_KEY (svc_world t) = (Inr (PDict p), svc_world t)"
    with sl again b v d(6) have "registered L username pw nonce answer b \<lparr>enc_key = key\<rparr> salt vb t"
      unfolding registered_def by simp
    with \<open>salt_file _ = None\<close> show ?thesis by auto
  qed auto
qed

end
