(* ===== verification/Service_Delivery.thy ===== *)
theory Service_Delivery
  imports Service_Keystore
begin

text \<open>
  Two instances of crypto_service.py that talk to each other: the handshake, the first
  message, any further messages, and restarts of either process. The answers of one
  service are the request parameters of the other, as the client and the server relay
  them.
\<close>

section \<open>Frames\<close>

lemma utf8_encodable: "storable i \<Longrightarrow> \<exists>b. utf8_encode i = Inr b"
  by (cases "utf8_encode i") (auto simp: storable_def name_ok_def state_name_def utf8_encode_append)

lemma end_ok_frame:
  assumes "end_ok R L st (s, w)" "disk_ok L st w'"
    and "fst (load_state L st (rs_session_id s) w') = fst (load_state L st (rs_session_id s) w)"
  shows "end_ok R L st (s, w')"
proof -
  have l: "load_session R L st (rs_session_id s) w = (Inr s, w)" using assms(1) by (simp add: end_ok_def)
  obtain v where v: "load_state L st (rs_session_id s) w = (Inr v, w)"
    using l store.load_eq [of L st "rs_session_id s" w]
    by (cases "fst (load_state L st (rs_session_id s) w)") (auto simp: load_session_def)
  have "load_state L st (rs_session_id s) w' = (Inr v, w')"
    using store.load_eq [of L st "rs_session_id s" w'] assms(3) v by simp
  with l v have "load_session R L st (rs_session_id s) w' = (Inr s, w')"
    by (auto simp: load_session_def bindE_def split: sum.splits)
  with assms(1,2) show ?thesis by (simp add: end_ok_def)
qed

lemma end_ok_tape [simp]: "end_ok R L st (s, w\<lparr>tape := t\<rparr>) = end_ok R L st (s, w)"
  using end_ok_frame [of R L st s w "w\<lparr>tape := t\<rparr>"] end_ok_frame [of R L st s "w\<lparr>tape := t\<rparr>" w]
  by (auto simp: end_ok_def load_state_eq)

definition pin_dict :: "bytes \<Rightarrow> pyval" where
  "pin_dict pub = PDict [(lit ''remote_ik_sig_pub'', PHex pub)]"

lemma pin_dict_ok: "json_ok (pin_dict pub)"
  by (simp add: pin_dict_def hex_scalar lit_scalar)

section \<open>One side of an established conversation\<close>

text \<open>
  The ratchet session \<open>r\<close> is on disk, in memory too unless the process has restarted, the
  peer's key \<open>pub\<close> is pinned on disk, and the service is unlocked with identity \<open>b\<close> from
  the keystore of password \<open>pw\<close>.
\<close>

definition conversation_ok :: "pystr \<Rightarrow> bool" where
  "conversation_ok cid \<longleftrightarrow> storable cid \<and> storable (meta_key cid) \<and> cid \<noteq> BUNDLE_KEY"

definition side ::
    "'r ratchet_lib \<Rightarrow> crypto \<Rightarrow> pystr \<Rightarrow> pystr \<Rightarrow> IdentityBundle \<Rightarrow> StateStore \<Rightarrow> bytes \<Rightarrow> 'r RatchetSession \<Rightarrow>
      'r service \<Rightarrow> bool" where
  "side R L cid pw b st pub r s \<longleftrightarrow> svc_local_bundle s = Some b \<and> svc_store s = Some st \<and>
     svc_pending_sessions s cid = None \<and> conversation_ok cid \<and> pub \<noteq> [] \<and> rs_session_id r = cid \<and>
     keystore_for L pw b st (svc_world s) \<and> end_ok R L st (r, svc_world s) \<and>
     load_state L st (meta_key cid) (svc_world s) = (Inr (pin_dict pub), svc_world s) \<and>
     (svc_sessions s cid = None \<or> svc_sessions s cid = Some \<lparr>se_ratchet = r, se_store = st,
        se_remote_ik_sig_pub = pub, se_init_bundle = PNone\<rparr>)"

lemma disk_ok_base [simp]: "disk_ok L st (w\<lparr>base_exists := e\<rparr>) = disk_ok L st w"
  by (simp add: disk_ok_def quiet_def)

lemma side_restart:
  assumes "side R L cid pw b st pub r s"
  shows "side R L cid pw b st pub r (restart H L pw s)"
proof -
  let ?w = "svc_world s" and ?w' = "(svc_world s)\<lparr>base_exists := True\<rparr>"
  have k: "keystore_for L pw b st ?w" and e: "end_ok R L st (r, ?w)" using assms by (simp_all add: side_def)
  have l: "load_state L st (meta_key cid) ?w = (Inr (pin_dict pub), ?w)" using assms by (simp add: side_def)
  have o: "writes_only {} ?w ?w'" by simp
  have s: "restart H L pw s = (new_service ?w')\<lparr>svc_store := Some st, svc_local_bundle := Some b\<rparr>"
    unfolding restart_def unlock_run [OF k] by simp
  have "keystore_for L pw b st ?w'" by (rule keystore_writes [OF k o]) simp
  moreover have "end_ok R L st (r, ?w')"
    by (rule end_ok_frame [OF e _ writes_only_load [OF o]]) (use e in \<open>simp_all add: end_ok_def\<close>)
  moreover have "load_state L st (meta_key cid) ?w' = (Inr (pin_dict pub), ?w')"
    by (rule load_state_same [OF l writes_only_load [OF o]]) simp
  ultimately show ?thesis using assms by (simp add: s side_def new_service_def)
qed

definition in_memory :: "pystr \<Rightarrow> StateStore \<Rightarrow> bytes \<Rightarrow> 'r RatchetSession \<Rightarrow> 'r service \<Rightarrow> 'r service" where
  "in_memory cid st pub r s = s\<lparr>svc_sessions := (svc_sessions s)(cid \<mapsto> \<lparr>se_ratchet = r, se_store = st,
     se_remote_ik_sig_pub = pub, se_init_bundle = PNone\<rparr>)\<rparr>"

lemma load_session_present: "load_session R L st i w = (Inr v, w') \<Longrightarrow> state_exists i w"
  by (auto simp: load_session_def bindE_eq_Inr dest: load_state_present)

lemma side_require_session:
  assumes "side R L cid pw b st pub r s"
  shows "require_session R L cid s = (Inr \<lparr>se_ratchet = r, se_store = st, se_remote_ik_sig_pub = pub,
     se_init_bundle = PNone\<rparr>, in_memory cid st pub r s)"
proof (cases "svc_sessions s cid")
  case None
  have l: "load_session R L st cid (svc_world s) = (Inr r, svc_world s)"
    "load_state L st (meta_key cid) (svc_world s) = (Inr (pin_dict pub), svc_world s)"
    "svc_store s = Some st" using assms by (auto simp: side_def end_ok_def)
  have e: "state_exists cid (svc_world s)" "state_exists (meta_key cid) (svc_world s)"
    using l load_session_present load_state_present by blast+
  have "svc_sessions s = (svc_sessions s)(cid := None)" using None by auto
  with None l e show ?thesis
    by (simp add: require_session_def require_store_def on_disk_sel pin_dict_def py_item_def in_memory_def Let_def)
next
  case (Some e)
  with assms show ?thesis
    by (auto simp: side_def require_session_def in_memory_def fun_upd_idem)
qed

section \<open>One message\<close>

definition conversing ::
    "'r ratchet_lib \<Rightarrow> crypto \<Rightarrow> (nat \<Rightarrow> 'r \<Rightarrow> 'r \<Rightarrow> bool) \<Rightarrow> nat \<Rightarrow> pystr \<Rightarrow> pystr \<Rightarrow> pystr \<Rightarrow>
      'r service \<Rightarrow> 'r service \<Rightarrow> bool" where
  "conversing R L linked k cid pwx pwy X Y \<longleftrightarrow> (\<exists>a b stx sty rx ry.
     side R L cid pwx a stx (sig_public_key (ik_sig b)) rx X \<and> side R L cid pwy b sty (sig_public_key (ik_sig a)) ry Y \<and>
     signing_ok L (ik_sig a) \<and> signing_ok L (ik_sig b) \<and> encodable (user_id a) \<and> encodable (user_id b) \<and>
     paired R L linked stx sty k (rx, svc_world X) (ry, svc_world Y))"

lemma conversing_sym: "conversing R L linked k cid pwx pwy X Y \<Longrightarrow> conversing R L linked k cid pwy pwx Y X"
  unfolding conversing_def using paired_sym by metis

definition send_params :: "pystr \<Rightarrow> pystr \<Rightarrow> pystr \<Rightarrow> pyval" where
  "send_params cid text recipient = PDict [(lit ''conversation_id'', PStr cid), (lit ''plaintext'', PStr text),
     (lit ''recipient_username'', PStr recipient)]"

text \<open>What is relayed to the receiver: the answer of \<open>encrypt_message\<close> and the conversation.\<close>

definition receive_params :: "pystr \<Rightarrow> pydict \<Rightarrow> pyval" where
  "receive_params cid answer = PDict ((lit ''conversation_id'', PStr cid) # answer)"

lemma side_moved:
  assumes "side R L cid pw b st pub r s" "rs_session_id r' = cid" "end_ok R L st (r', w')"
    and "writes_only {cid} (svc_world s) w'"
  shows "side R L cid pw b st pub r' ((in_memory cid st pub r' s)\<lparr>svc_world := w'\<rparr>)"
proof -
  have l: "load_state L st (meta_key cid) (svc_world s) = (Inr (pin_dict pub), svc_world s)"
    and k: "keystore_for L pw b st (svc_world s)" and c: "BUNDLE_KEY \<notin> {cid}" "meta_key cid \<notin> {cid}"
    using assms(1) meta_key_neq by (auto simp: side_def conversation_ok_def)
  from load_state_same [OF l writes_only_load [OF assms(4) c(2)]] keystore_writes [OF k assms(4) c(1)] assms(1-3)
  show ?thesis by (simp add: side_def in_memory_def)
qed

lemma encrypt_next_run:
  assumes "side R L cid pw b st pub r s" "session_encrypt R L st msg ad (r, svc_world s) = (Inr wire, r', w')"
  shows "encrypt_next R L cid msg ad s = (Inr (wire, PNone), (in_memory cid st pub r' s)\<lparr>svc_world := w'\<rparr>)"
  using assms(2)
  by (simp add: encrypt_next_def side_require_session [OF assms(1)] on_session_def in_memory_def update_entry_def)

lemma recover_side:
  assumes "side R L cid pw b st pub r s"
  shows "recover_session R L cid PNone s = (Inr (), in_memory cid st pub r s)"
proof (cases "svc_sessions s cid")
  case None
  then show ?thesis by (simp add: recover_session_def tryE_def side_require_session [OF assms])
next
  case (Some e)
  with assms have "svc_sessions s cid = Some \<lparr>se_ratchet = r, se_store = st, se_remote_ik_sig_pub = pub,
    se_init_bundle = PNone\<rparr>" by (simp add: side_def)
  then show ?thesis by (simp add: recover_session_def bindE_def in_memory_def fun_upd_idem)
qed

lemma decrypt_next_run:
  assumes "pub \<noteq> []" "verify_and_extract L payload aad pub (Some pub) = Inr sc"
    and "session_decrypt R L st sc aad (r, svc_world s) = (Inr p, r', w')"
  shows "decrypt_next R L cid \<lparr>se_ratchet = r, se_store = st, se_remote_ik_sig_pub = pub, se_init_bundle = PNone\<rparr>
      payload aad sender (in_memory cid st pub r s) =
    (Inr (plaintext_answer p), (in_memory cid st pub r' s)\<lparr>svc_world := w'\<rparr>)"
  using assms
  by (simp add: decrypt_next_def session_sig_pub_def verify_payload_def on_session_def in_memory_def)

lemma plaintext_answer_encode:
  "utf8_encode text = Inr msg \<Longrightarrow> plaintext_answer msg = [(lit ''plaintext'', PStr text)]"
  by (simp add: plaintext_answer_def utf8_decode_replace_encode)

text \<open>What the two requests do once the steps of the session are known.\<close>

lemma encrypt_message_next:
  assumes "side R L cid pw b st pub r s" "signing_ok L (ik_sig b)" "msgpack_correct L" "ed25519_correct L"
    and "utf8_encode cid = Inr aad" "utf8_encode text = Inr msg" "encodable (user_id b)" "encodable recipient"
    and "session_encrypt R L st msg aad (r, svc_world s) = (Inr wire, r', w')" "wire \<noteq> []"
    and "0 \<le> rs_msg_index r'" "rs_msg_index r' < 2 ^ 32"
  shows "\<exists>payload nonce sc t. encrypt_message R L (send_params cid text recipient) s =
      (Inr [(lit ''ciphertext'', PHex payload), (lit ''nonce'', nonce), (lit ''initiation_bundle'', PNone),
        (lit ''sender_ik_sig_pub'', PHex (sig_public_key (ik_sig b)))],
       (in_memory cid st pub r' s)\<lparr>svc_world := w'\<lparr>tape := t\<rparr>\<rparr>) \<and>
    verify_and_extract L payload aad (sig_public_key (ik_sig b)) (Some (sig_public_key (ik_sig b))) = Inr sc \<and>
    sc_ciphertext sc = PBytes wire"
proof -
  obtain u v where uv: "utf8_encode (user_id b) = Inr u" "utf8_encode recipient = Inr v"
    using assms(7,8) by (auto simp: encodable_def)
  have i: "rs_msg_index r' < 2 ^ 64" using assms(12) by simp
  obtain sc t payload where sg: "sign_ciphertext L (ik_sig b) wire aad u v (rs_msg_index r') (tape w') = (Inr sc, t)"
    "signed_to_bytes L sc = Inr payload"
    "verify_and_extract L payload aad (sig_public_key (ik_sig b)) (Some (sig_public_key (ik_sig b))) = Inr sc"
    "sc_ciphertext sc = PBytes wire"
    using sign_then_extract [OF assms(3,4,2,10,11) i, of aad u v "tape w'"] by (elim exE conjE) (rule that)
  have s: "svc_local_bundle s = Some b" "svc_pending_sessions s cid = None" using assms(1) by (simp_all add: side_def)
  have e: "encrypt_next R L cid msg aad s = (Inr (wire, PNone), (in_memory cid st pub r' s)\<lparr>svc_world := w'\<rparr>)"
    by (rule encrypt_next_run [OF assms(1,9)])
  have "encrypt_message R L (send_params cid text recipient) s =
      (Inr [(lit ''ciphertext'', PHex payload), (lit ''nonce'', PHex (take 12 wire)), (lit ''initiation_bundle'', PNone),
        (lit ''sender_ik_sig_pub'', PHex (sig_public_key (ik_sig b)))],
       (in_memory cid st pub r' s)\<lparr>svc_world := w'\<lparr>tape := t\<rparr>\<rparr>)"
    using s uv sg(1,2) assms(5,6) e
    by (simp add: encrypt_message_def send_params_def param_str_def param_def param_get_def require_bundle_def
        message_index_def on_entropy_sel in_memory_def)
  with sg(3,4) show ?thesis by blast
qed

lemma decrypt_message_next:
  assumes "side R L cid pw b st pub r s" "utf8_encode cid = Inr aad" "utf8_encode text = Inr msg"
    and "verify_and_extract L payload aad pub (Some pub) = Inr sc"
    and "session_decrypt R L st sc aad (r, svc_world s) = (Inr msg, r', w')"
  shows "decrypt_message R L (receive_params cid [(lit ''ciphertext'', PHex payload), (lit ''nonce'', nonce),
      (lit ''initiation_bundle'', PNone), (lit ''sender_ik_sig_pub'', PHex sender)]) s =
    (Inr [(lit ''plaintext'', PStr text)], (in_memory cid st pub r' s)\<lparr>svc_world := w'\<rparr>)"
proof -
  have s: "svc_local_bundle s = Some b" "svc_store s = Some st" "pub \<noteq> []" using assms(1) by (simp_all add: side_def)
  have reset: "reset_by_peer cid PNone s = (Inr None, s)"
    by (simp add: reset_by_peer_def split: option.splits)
  show ?thesis
    using s(1,2) assms(2) recover_side [OF assms(1)] decrypt_next_run [OF s(3) assms(4,5)] reset
    by (simp add: decrypt_message_def receive_params_def param_str_def param_def param_get_def require_bundle_def
        require_store_def in_memory_def plaintext_answer_encode [OF assms(3)])
qed

text \<open>One message from either side reaches the other, which returns its text.\<close>

lemma service_step:
  assumes "ratchet_correct L R linked" "ratchet_json_correct L R" "msgpack_correct L" "ed25519_correct L"
    and "conversing R L linked (Suc k) cid pwx pwy X Y" "encodable text" "encodable recipient"
  shows "\<exists>answer X' Y'. encrypt_message R L (send_params cid text recipient) X = (Inr answer, X') \<and>
    decrypt_message R L (receive_params cid answer) Y = (Inr [(lit ''plaintext'', PStr text)], Y') \<and>
    conversing R L linked k cid pwx pwy X' Y'"
proof -
  obtain a b stx sty rx ry where c: "side R L cid pwx a stx (sig_public_key (ik_sig b)) rx X"
    "side R L cid pwy b sty (sig_public_key (ik_sig a)) ry Y" "signing_ok L (ik_sig a)" "signing_ok L (ik_sig b)"
    "encodable (user_id a)" "encodable (user_id b)"
    "paired R L linked stx sty (Suc k) (rx, svc_world X) (ry, svc_world Y)"
    using assms(5) unfolding conversing_def by (elim exE conjE) (rule that)
  obtain msg where msg: "utf8_encode text = Inr msg" using assms(6) by (auto simp: encodable_def)
  obtain aad where aad: "utf8_encode cid = Inr aad" using c(1) utf8_encodable [of cid] by (auto simp: side_def conversation_ok_def)
  obtain wire x' y' where st: "session_encrypt R L stx msg aad (rx, svc_world X) = (Inr wire, x')"
    "\<forall>sc. sc_ciphertext sc = PBytes wire \<longrightarrow> session_decrypt R L sty sc aad (ry, svc_world Y) = (Inr msg, y')"
    "paired R L linked stx sty k x' y'"
    using session_step [OF assms(1,2) c(7), of msg aad] by (elim exE conjE) (rule that)
  obtain rx' wx ry' wy where xy: "x' = (rx', wx)" "y' = (ry', wy)" by (metis surj_pair)
  note se = st(1) [unfolded xy]
  have sid: "rs_session_id rx = cid" "rs_session_id ry = cid" using c(1,2) by (simp_all add: side_def)
  note ix = session_encrypt_index [OF se]
  have wire: "wire \<noteq> []" using ix by (auto simp: parse_wire_def wire_offsets bindR_Inr_iff)
  have p: "end_ok R L stx (rx', wx)" "end_ok R L sty (ry', wy)" "rs_msg_index rx' < 2 ^ 32" "0 \<le> rs_msg_index rx'"
    using st(3) by (auto simp: paired_def xy end_ok_def session_ok_def)
  obtain payload nonce sc t where en: "encrypt_message R L (send_params cid text recipient) X =
      (Inr [(lit ''ciphertext'', PHex payload), (lit ''nonce'', nonce), (lit ''initiation_bundle'', PNone),
        (lit ''sender_ik_sig_pub'', PHex (sig_public_key (ik_sig a)))],
       (in_memory cid stx (sig_public_key (ik_sig b)) rx' X)\<lparr>svc_world := wx\<lparr>tape := t\<rparr>\<rparr>)"
    "verify_and_extract L payload aad (sig_public_key (ik_sig a)) (Some (sig_public_key (ik_sig a))) = Inr sc"
    "sc_ciphertext sc = PBytes wire"
    using encrypt_message_next [OF c(1) c(3) assms(3,4) aad msg c(5) assms(7) se wire p(4,3)] by (elim exE conjE) (rule that)
  have sd: "session_decrypt R L sty sc aad (ry, svc_world Y) = (Inr msg, ry', wy)" using st(2) en(3) xy by simp
  note de = decrypt_message_next [OF c(2) aad msg en(2) sd, of nonce "sig_public_key (ik_sig a)"]
  have "side R L cid pwx a stx (sig_public_key (ik_sig b)) rx' ((in_memory cid stx (sig_public_key (ik_sig b)) rx' X)\<lparr>svc_world := wx\<lparr>tape := t\<rparr>\<rparr>)"
    using ix sid p(1) session_encrypt_writes [OF se] by (intro side_moved [OF c(1)]) simp_all
  moreover have "side R L cid pwy b sty (sig_public_key (ik_sig a)) ry' ((in_memory cid sty (sig_public_key (ik_sig a)) ry' Y)\<lparr>svc_world := wy\<rparr>)"
    using session_decrypt_index [OF sd] sid p(2) session_decrypt_writes [OF sd] by (intro side_moved [OF c(2)]) simp_all
  moreover have "paired R L linked stx sty k (rx', wx\<lparr>tape := t\<rparr>) (ry', wy)"
    using st(3) by (simp add: paired_def xy)
  ultimately have "conversing R L linked k cid pwx pwy
      ((in_memory cid stx (sig_public_key (ik_sig b)) rx' X)\<lparr>svc_world := wx\<lparr>tape := t\<rparr>\<rparr>)
      ((in_memory cid sty (sig_public_key (ik_sig a)) ry' Y)\<lparr>svc_world := wy\<rparr>)"
    unfolding conversing_def using c(3-6)
    by (intro exI [of _ a] exI [of _ b] exI [of _ stx] exI [of _ sty] exI [of _ rx'] exI [of _ ry']) simp
  with en(1) de show ?thesis by blast
qed

text \<open>Pinning the peer's key next to a session that has just been written.\<close>

lemma pin_run:
  assumes "end_ok R L st (r, w)" "rs_session_id r = cid" "storable (meta_key cid)"
  shows "\<exists>w'. save_state L st (meta_key cid) (pin_dict pub) w = (Inr (), w') \<and> end_ok R L st (r, w') \<and>
    load_state L st (meta_key cid) w' = (Inr (pin_dict pub), w') \<and> writes_only {meta_key cid} w w'"
proof -
  have h: "aead_correct L \<and> length (enc_key st) = 32 \<and> quiet w" using assms(1) by (simp add: end_ok_def disk_ok_def)
  obtain w' where w': "save_state L st (meta_key cid) (pin_dict pub) w = (Inr (), w')"
    using store.save_total [OF h assms(3) pin_dict_ok] by blast
  have d: "disk_ok L st w'" using store.save_healthy [OF h, of "meta_key cid" "pin_dict pub"] w' by (simp add: disk_ok_def)
  have "rs_session_id r \<notin> {meta_key cid}" using assms(2) meta_key_neq [of cid] by simp
  from end_ok_frame [OF assms(1) d writes_only_load [OF save_writes [OF w'] this]]
    store.load_saved [OF h assms(3) pin_dict_ok w'] w' save_writes [OF w'] show ?thesis by simp
qed

section \<open>The first message\<close>

definition initiate_params :: "pystr \<Rightarrow> pydict \<Rightarrow> pyval" where
  "initiate_params cid remote = PDict [(lit ''conversation_id'', PStr cid), (lit ''remote_bundle'', PDict remote)]"

definition pending_of :: "crypto \<Rightarrow> IdentityBundle \<Rightarrow> bytes \<Rightarrow> InitiationBundle \<Rightarrow> pending_session" where
  "pending_of L b SK ib = \<lparr>ps_SK = SK, ps_bob_ratchet_pub = public_key_bytes L (spk_keypair (spk b)),
     ps_remote_sig_pub = sig_public_key (ik_sig b), ps_init_bundle = PDict (ib_to_dict ib)\<rparr>"

lemma initiate_session_run:
  assumes "unlocked L pwx a stx X" "to_public_bundle L b = Inr p"
    and "initiate L a p True (tape (svc_world X)) = (Inr (SK, ib), t)"
  shows "initiate_session L (initiate_params cid p) X =
    (Inr [(lit ''success'', PBool True), (lit ''initiation_bundle'', PDict (ib_to_dict ib))],
     X\<lparr>svc_pending_sessions := (svc_pending_sessions X)(cid \<mapsto> pending_of L b SK ib),
       svc_world := (svc_world X)\<lparr>tape := t\<rparr>\<rparr>)"
  using assms public_bundle_fields [OF assms(2)]
  by (simp add: initiate_session_def initiate_params_def unlocked_def param_str_def param_def require_bundle_def
      on_entropy_sel tryE_def pending_of_def)

lemma encrypt_message_first:
  assumes "svc_local_bundle s = Some a" "svc_store s = Some st" "svc_pending_sessions s cid = Some (pending_of L b SK ib)"
    and "signing_ok L (ik_sig a)" "msgpack_correct L" "ed25519_correct L"
    and "utf8_encode cid = Inr aad" "utf8_encode text = Inr msg" "encodable (user_id a)" "encodable recipient"
    and "create_as_initiator R L st SK (public_key_bytes L (spk_keypair (spk b))) msg aad cid (svc_world s) =
      (Inr (r, wire), w1)"
    and "save_state L st (meta_key cid) (pin_dict (sig_public_key (ik_sig b))) w1 = (Inr (), w2)"
    and "wire \<noteq> []" "rs_msg_index r = 1"
  shows "\<exists>payload nonce sc t. encrypt_message R L (send_params cid text recipient) s =
      (Inr [(lit ''ciphertext'', PHex payload), (lit ''nonce'', nonce), (lit ''initiation_bundle'', PDict (ib_to_dict ib)),
        (lit ''sender_ik_sig_pub'', PHex (sig_public_key (ik_sig a)))],
       (in_memory cid st (sig_public_key (ik_sig b)) r s)
         \<lparr>svc_pending_sessions := (svc_pending_sessions s)(cid := None), svc_world := w2\<lparr>tape := t\<rparr>\<rparr>) \<and>
    verify_and_extract L payload aad (sig_public_key (ik_sig a)) (Some (sig_public_key (ik_sig a))) = Inr sc \<and>
    sc_ciphertext sc = PBytes wire"
proof -
  obtain u v where uv: "utf8_encode (user_id a) = Inr u" "utf8_encode recipient = Inr v"
    using assms(9,10) by (auto simp: encodable_def)
  have i: "(0::int) \<le> 1" "(1::int) < 2 ^ 64" by simp_all
  obtain sc t payload where sg: "sign_ciphertext L (ik_sig a) wire aad u v 1 (tape w2) = (Inr sc, t)"
    "signed_to_bytes L sc = Inr payload"
    "verify_and_extract L payload aad (sig_public_key (ik_sig a)) (Some (sig_public_key (ik_sig a))) = Inr sc"
    "sc_ciphertext sc = PBytes wire"
    using sign_then_extract [OF assms(5,6,4,13) i, of aad u v "tape w2"] by (elim exE conjE) (rule that)
  have "encrypt_message R L (send_params cid text recipient) s =
      (Inr [(lit ''ciphertext'', PHex payload), (lit ''nonce'', PHex (take 12 wire)), (lit ''initiation_bundle'', PDict (ib_to_dict ib)),
        (lit ''sender_ik_sig_pub'', PHex (sig_public_key (ik_sig a)))],
       (in_memory cid st (sig_public_key (ik_sig b)) r s)
         \<lparr>svc_pending_sessions := (svc_pending_sessions s)(cid := None), svc_world := w2\<lparr>tape := t\<rparr>\<rparr>)"
    using assms(1-3,7,8,11,12,14) uv sg(1,2)
    by (simp add: encrypt_message_def send_params_def param_str_def param_def param_get_def require_bundle_def
        message_index_def on_entropy_sel in_memory_def encrypt_first_def require_store_def on_disk_sel pending_of_def
        save_pin_def pin_dict_def enter_session_def)
  with sg(3,4) show ?thesis by blast
qed

lemma ib_to_dict_truthy: "truthy (PDict (ib_to_dict ib))"
  by (simp add: ib_to_dict_def)

lemma decrypt_message_first:
  assumes "svc_local_bundle s = Some b" "svc_store s = Some st" "svc_sessions s cid = None"
    and "utf8_encode cid = Inr aad" "utf8_encode text = Inr msg" "pub \<noteq> []"
    and "verify_and_extract L payload aad pub (Some pub) = Inr sc"
    and "respond L b ib (x25519_opk_store b) (kem_opk_store b) = Inr SK"
    and "(if ib_opk_id ib \<noteq> PNone \<and> \<not> ib_used_identity_kem ib then consume_opk L st b (ib_opk_id ib) else returnE ()) s =
      (Inr (), s\<lparr>svc_local_bundle := Some b', svc_world := w0\<rparr>)"
    and "create_as_responder R L st SK (private_key_bytes (spk_keypair (spk b))) (sc_ciphertext sc) aad cid w0 =
      (Inr (r, msg), w1)"
    and "save_state L st (meta_key cid) (pin_dict pub) w1 = (Inr (), w2)"
  shows "decrypt_message R L (receive_params cid [(lit ''ciphertext'', PHex payload), (lit ''nonce'', nonce),
      (lit ''initiation_bundle'', PDict (ib_to_dict ib)), (lit ''sender_ik_sig_pub'', PHex pub)]) s =
    (Inr [(lit ''plaintext'', PStr text)],
     (in_memory cid st pub r s)\<lparr>svc_local_bundle := Some b', svc_world := w2\<rparr>)"
proof -
  have t: "truthy (PHex pub)" using assms(6) by (cases pub) simp_all
  have "decrypt_first R L cid b st payload aad (PDict (ib_to_dict ib)) (PHex pub) None s =
    (Inr [(lit ''plaintext'', PStr text)],
     (in_memory cid st pub r s)\<lparr>svc_local_bundle := Some b', svc_world := w2\<rparr>)"
    using assms(6-11) t ib_to_dict_truthy [of ib] initiation.dec_enc [of ib]
    by (simp add: decrypt_first_def load_opk_secrets_def Let_def verify_payload_def on_disk_sel save_pin_def
        pin_dict_def enter_session_def in_memory_def plaintext_answer_encode [OF assms(5)] del: if_split if_split_asm)
  with assms(1-4) ib_to_dict_truthy [of ib] show ?thesis
    by (simp add: decrypt_message_def receive_params_def param_str_def param_def param_get_def require_bundle_def
        require_store_def reset_by_peer_def recover_session_def)
qed

text \<open>The libraries under the handshake, the ratchet and the signatures, and the two identities.\<close>

definition messaging_ok ::
    "'r ratchet_lib \<Rightarrow> crypto \<Rightarrow> (nat \<Rightarrow> 'r \<Rightarrow> 'r \<Rightarrow> bool) \<Rightarrow> IdentityBundle \<Rightarrow> IdentityBundle \<Rightarrow> bool" where
  "messaging_ok R L linked a b \<longleftrightarrow> ratchet_correct L R linked \<and> ratchet_json_correct L R \<and> msgpack_correct L \<and>
     ed25519_correct L \<and> parties_ok L a b \<and> encodable (user_id a) \<and> encodable (user_id b)"

text \<open>The identity after a message that used its first prekey pair.\<close>

definition opk_used :: "IdentityBundle \<Rightarrow> IdentityBundle" where
  "opk_used b = (case x25519_opks b of [] \<Rightarrow> b | x # _ \<Rightarrow> without_opk (PInt (xopk_id x)) b)"

lemma opk_used_keys [simp]: "user_id (opk_used b) = user_id b" "ik_sig (opk_used b) = ik_sig b"
  by (simp_all add: opk_used_def split: list.splits)

lemma consumption_run:
  assumes "bundle_ok L b" "encodable (user_id b)" "unlocked L pw b st s"
    and "ib_opk_id ib = (case x25519_opks b of [] \<Rightarrow> PNone | x # _ \<Rightarrow> PInt (xopk_id x))"
    and "ib_used_identity_kem ib = (x25519_opks b = [])"
  shows "\<exists>w. (if ib_opk_id ib \<noteq> PNone \<and> \<not> ib_used_identity_kem ib then consume_opk L st b (ib_opk_id ib) else returnE ()) s =
      (Inr (), s\<lparr>svc_local_bundle := Some (opk_used b), svc_world := w\<rparr>) \<and> disk_ok L st w \<and>
    keystore_for L pw (opk_used b) st w"
proof (cases "x25519_opks b")
  case Nil
  with assms(3-5) show ?thesis by (intro exI [of _ "svc_world s"]) (simp add: unlocked_def opk_used_def)
next
  case (Cons x xs)
  have "paired_opks b" using assms(1) by (simp add: bundle_ok_def paired_opks_def)
  from consume_opk_run [OF this assms(2,3), of "ib_opk_id ib"] assms(4,5) Cons
  show ?thesis by (simp add: opk_used_def)
qed

lemma pub_not_empty: "signing_ok L kp \<Longrightarrow> sig_public_key kp \<noteq> []"
  by (auto simp: signing_ok_def)

lemma public_of_private: "public_key_bytes L kp = x25519_public L (private_key_bytes kp)"
  by (simp add: public_key_bytes_def private_key_bytes_def)

lemma initiator_wire:
  "create_as_initiator R L st SK pub msg ad sid w = (Inr (a, wire), w') \<Longrightarrow> wire \<noteq> []"
  by (auto simp: create_as_initiator_def Let_def bindE_eq_Inr build_wire_def bindR_Inr_iff WIRE_VERSION_def)

text \<open>
  The initiator's handshake and first message, and the responder's answer to it. What the
  responder accepted is recorded for the properties about replays.
\<close>

lemma first_exchange:
  assumes ok: "messaging_ok R L linked a b" and p: "to_public_bundle L b = Inr p"
    and X: "unlocked L pwx a stx X" and Y: "unlocked L pwy b sty Y" and cid: "conversation_ok cid"
    and fresh: "svc_sessions Y cid = None" "svc_pending_sessions Y cid = None"
    and tx: "encodable text" "encodable recipient"
  shows "\<exists>r1 X1 answer X2 Y2 ib payload nonce.
    initiate_session L (initiate_params cid p) X = (Inr r1, X1) \<and>
    encrypt_message R L (send_params cid text recipient) X1 = (Inr answer, X2) \<and>
    decrypt_message R L (receive_params cid answer) Y = (Inr [(lit ''plaintext'', PStr text)], Y2) \<and>
    conversing R L linked budget cid pwx pwy X2 Y2 \<and> unlocked L pwy (opk_used b) sty Y2 \<and>
    answer = [(lit ''ciphertext'', PHex payload), (lit ''nonce'', nonce),
      (lit ''initiation_bundle'', PDict (ib_to_dict ib)), (lit ''sender_ik_sig_pub'', PHex (sig_public_key (ik_sig a)))] \<and>
    ib_opk_id ib = (case x25519_opks b of [] \<Rightarrow> PNone | x # _ \<Rightarrow> PInt (xopk_id x)) \<and>
    (\<exists>SK. respond L b ib (x25519_opk_store b) (kem_opk_store b) = Inr SK)"
proof -
  note ok = ok [unfolded messaging_ok_def parties_ok_def]
  have ba: "bundle_ok L a" "bundle_ok L b" and lb: "x25519_correct L" "ratchet_correct L R linked" "ratchet_json_correct L R"
    "msgpack_correct L" "ed25519_correct L" and ue: "encodable (user_id a)" "encodable (user_id b)"
    and pk: "parties_ok L a b"
    using ok by (simp_all add: parties_ok_def)
  note sg = bundle_ok_parts(1) [OF ba(1)] bundle_ok_parts(1) [OF ba(2)] and lp = bundle_ok_parts(2) [OF ba(2)]
  have c: "storable cid" "storable (meta_key cid)" "cid \<noteq> BUNDLE_KEY" using cid by (simp_all add: conversation_ok_def)
  have al: "x25519_opks b \<noteq> [] \<or> True" by simp
  obtain SK ib t where hs: "initiate L a p True (tape (svc_world X)) = (Inr (SK, ib), t)" "length SK = 32"
    "respond L b ib (x25519_opk_store b) (kem_opk_store b) = Inr SK"
    "ib_opk_id ib = (case x25519_opks b of [] \<Rightarrow> PNone | x # _ \<Rightarrow> PInt (xopk_id x))"
    "ib_used_identity_kem ib = (x25519_opks b = [])"
    using handshake [OF pk p al, of "tape (svc_world X)"] by (elim exE conjE) (rule that)
  let ?X1 = "X\<lparr>svc_pending_sessions := (svc_pending_sessions X)(cid \<mapsto> pending_of L b SK ib),
       svc_world := (svc_world X)\<lparr>tape := t\<rparr>\<rparr>"
  note ini = initiate_session_run [OF X p hs(1), of cid]
  obtain w0 where co: "(if ib_opk_id ib \<noteq> PNone \<and> \<not> ib_used_identity_kem ib then consume_opk L sty b (ib_opk_id ib) else returnE ()) Y =
      (Inr (), Y\<lparr>svc_local_bundle := Some (opk_used b), svc_world := w0\<rparr>)" "disk_ok L sty w0"
    "keystore_for L pwy (opk_used b) sty w0"
    using consumption_run [OF ba(2) ue(2) Y hs(4,5)] by (elim exE conjE) (rule that)
  obtain msg where msg: "utf8_encode text = Inr msg" using tx(1) by (auto simp: encodable_def)
  obtain aad where aad: "utf8_encode cid = Inr aad" using utf8_encodable [OF c(1)] by blast
  have wx: "disk_ok L stx (svc_world ?X1)" using X by (simp add: unlocked_def)
  obtain ra wire w1 rb v1 where cr:
    "create_as_initiator R L stx SK (x25519_public L (private_key_bytes (spk_keypair (spk b)))) msg aad cid (svc_world ?X1) = (Inr (ra, wire), w1)"
    "create_as_responder R L sty SK (private_key_bytes (spk_keypair (spk b))) (PBytes wire) aad cid w0 = (Inr (rb, msg), v1)"
    "paired R L linked stx sty budget (ra, w1) (rb, v1)"
    "rs_session_id ra = cid" "rs_session_id rb = cid" "rs_msg_index ra = 1" "rs_msg_index rb = 0"
    using create_pair [OF lb(2,3,1) hs(2) lp wx c(1) co(2) c(1), of msg aad] by (elim exE conjE) (rule that)
  obtain w2 where w2: "save_state L stx (meta_key cid) (pin_dict (sig_public_key (ik_sig b))) w1 = (Inr (), w2)"
    "end_ok R L stx (ra, w2)" "load_state L stx (meta_key cid) w2 = (Inr (pin_dict (sig_public_key (ik_sig b))), w2)"
    "writes_only {meta_key cid} w1 w2"
    using pin_run [of R L stx ra w1 cid "sig_public_key (ik_sig b)"] cr(3,4) c(2) by (auto simp: paired_def)
  obtain v2 where v2: "save_state L sty (meta_key cid) (pin_dict (sig_public_key (ik_sig a))) v1 = (Inr (), v2)"
    "end_ok R L sty (rb, v2)" "load_state L sty (meta_key cid) v2 = (Inr (pin_dict (sig_public_key (ik_sig a))), v2)"
    "writes_only {meta_key cid} v1 v2"
    using pin_run [of R L sty rb v1 cid "sig_public_key (ik_sig a)"] cr(3,5) c(2) by (auto simp: paired_def)
  have X1: "svc_local_bundle ?X1 = Some a" "svc_store ?X1 = Some stx" "svc_pending_sessions ?X1 cid = Some (pending_of L b SK ib)"
    using X by (simp_all add: unlocked_def)
  let ?X2 = "\<lambda>u. (in_memory cid stx (sig_public_key (ik_sig b)) ra ?X1)
         \<lparr>svc_pending_sessions := (svc_pending_sessions ?X1)(cid := None), svc_world := w2\<lparr>tape := u\<rparr>\<rparr>"
  let ?Y2 = "(in_memory cid sty (sig_public_key (ik_sig a)) rb Y)\<lparr>svc_local_bundle := Some (opk_used b), svc_world := v2\<rparr>"
  obtain payload nonce sc u where en: "encrypt_message R L (send_params cid text recipient) ?X1 =
      (Inr [(lit ''ciphertext'', PHex payload), (lit ''nonce'', nonce), (lit ''initiation_bundle'', PDict (ib_to_dict ib)),
        (lit ''sender_ik_sig_pub'', PHex (sig_public_key (ik_sig a)))], ?X2 u)"
    "verify_and_extract L payload aad (sig_public_key (ik_sig a)) (Some (sig_public_key (ik_sig a))) = Inr sc"
    "sc_ciphertext sc = PBytes wire"
    using encrypt_message_first [OF X1 sg(1) lb(4,5) aad msg ue(1) tx(2) cr(1) [folded public_of_private] w2(1)
        initiator_wire [OF cr(1)] cr(6)] by (elim exE conjE) (rule that)
  have Y0: "svc_local_bundle Y = Some b" "svc_store Y = Some sty" using Y by (simp_all add: unlocked_def)
  note de = decrypt_message_first [OF Y0 fresh(1) aad msg pub_not_empty [OF sg(1)] en(2) hs(3) co(1)
      cr(2) [folded en(3)] v2(1), of nonce]
  have nb: "BUNDLE_KEY \<notin> {cid} \<union> {meta_key cid}" using c(3) meta_key_neq_bundle_key [of cid, symmetric] by simp
  have "keystore_for L pwx a stx (svc_world X)" using X by (simp add: unlocked_def)
  from keystore_writes [OF this writes_only_trans [OF initiator_writes [OF cr(1), simplified] w2(4)] nb]
  have kx: "keystore_for L pwx a stx (w2\<lparr>tape := u\<rparr>)" by (rule keystore_writes [where I = "{}"]) simp_all
  note ky = keystore_writes [OF co(3) writes_only_trans [OF responder_writes [OF cr(2)] v2(4)] nb]
  have "side R L cid pwx a stx (sig_public_key (ik_sig b)) ra (?X2 u)"
    using kx cid X1 pub_not_empty [OF sg(2)] cr(4) w2(2) load_state_same [OF w2(3)] by (simp add: side_def in_memory_def)
  moreover have "side R L cid pwy (opk_used b) sty (sig_public_key (ik_sig a)) rb ?Y2"
    using ky cid Y0 fresh(2) pub_not_empty [OF sg(1)] cr(5) v2(2,3) by (simp add: side_def in_memory_def)
  moreover have "paired R L linked stx sty budget (ra, w2\<lparr>tape := u\<rparr>) (rb, v2)"
    using cr(3) w2(2) v2(2) by (simp add: paired_def)
  ultimately have cv: "conversing R L linked budget cid pwx pwy (?X2 u) ?Y2"
    unfolding conversing_def using sg ue
    by (intro exI [of _ a] exI [of _ "opk_used b"] exI [of _ stx] exI [of _ sty] exI [of _ ra] exI [of _ rb]) simp
  have un: "unlocked L pwy (opk_used b) sty ?Y2"
    using ky Y0 v2(2) by (simp add: unlocked_def in_memory_def end_ok_def)
  with ini en(1) de cv un hs(3,4) show ?thesis by blast
qed

section \<open>Example parties\<close>

definition example_password :: pystr where "example_password = [0]"

lemma example_derives: "derives example_lib example_password (zeros 32) (zeros 32)"
proof -
  have "[byte_of 0] @ zeros 32 = zeros 33"
    using replicate_Suc [of 32 "0 :: byte"] by (simp add: zeros_def byte_of_def)
  then have "fit 32 [byte_of 0] = zeros 32" unfolding fit_def by (simp add: zeros_def)
  then show ?thesis
    by (simp add: derives_def derive_master_components_def argon2id_derive_key_def hkdf_derive_def
        length_constants example_lib_sel example_password_def utf8_char_def)
qed

lemma example_unlocked:
  "\<exists>b s. messaging_ok toy_ratchet_lib example_lib toy_linked b b \<and> map xopk_id (x25519_opks b) = [1] \<and>
     unlocked example_lib example_password b example_store (s :: toy_ratchet service) \<and>
     svc_sessions s (lit ''a'') = None \<and> svc_pending_sessions s (lit ''a'') = None"
proof -
  obtain b t' where b: "generate_identity_bundle example_lib [] 1 (\<lambda>_. 0) = (Inr b, t')" "bundle_ok example_lib b"
    "user_id b = []" "map xopk_id (x25519_opks b) = map (\<lambda>j. 1 + int j) [0..<nat 1]"
    using generate_identity_bundle_bundle_ok [of example_lib "[]" 1 "\<lambda>_. 0"] by auto
  have e: "encodable (user_id b)" by (simp add: b(3) encodable_def)
  have p: "paired_opks b" using b(2) by (simp add: bundle_ok_def paired_opks_def)
  let ?w = "example_world\<lparr>salt_file := Some (zeros 32)\<rparr>"
  have "disk_ok example_lib example_store ?w"
    by (simp add: disk_ok_def example_store_def quiet_def example_world_def)
  from save_identity [OF p e this] obtain d w where w: "to_private_bundle example_lib b = Inr d"
    "save_state example_lib example_store BUNDLE_KEY (PDict d) ?w = (Inr (), w)" "disk_ok example_lib example_store w"
    "load_state example_lib example_store BUNDLE_KEY w = (Inr (PDict d), w)" by (elim exE conjE) (rule that)
  have "bundle_loadable example_lib b" by (rule bundle_ok_loadable) (simp_all add: b(2))
  with w example_derives have "keystore_for example_lib example_password b example_store w"
    by (simp add: keystore_for_def salt_writes [OF save_writes [OF w(2)]] example_store_def)
      (simp add: example_password_def lit_def)
  with w(3) have "unlocked example_lib example_password b example_store
      ((new_service w :: toy_ratchet service)\<lparr>svc_store := Some example_store, svc_local_bundle := Some b\<rparr>)"
    by (simp add: unlocked_def new_service_def)
  moreover have "messaging_ok toy_ratchet_lib example_lib toy_linked b b"
    using b(2) e by (simp add: messaging_ok_def parties_ok_def toy_ratchet_correct toy_ratchet_json_correct)
  moreover have "map xopk_id (x25519_opks b) = [1]" using b(4) by simp
  ultimately show ?thesis
    by (intro exI [of _ b] exI [of _ "(new_service w)\<lparr>svc_store := Some example_store, svc_local_bundle := Some b\<rparr>"])
      (simp add: new_service_def)
qed

lemma example_conversation_ok: "conversation_ok (lit ''a'')"
  by (simp add: conversation_ok_def storable_def validate_session_id_def name_ok_def state_name_def lit_def
      meta_key_def META_KEY_PREFIX_def BUNDLE_KEY_def forbidden_def utf8_char_def)

end
