(* ===== verification/Service_Auth.thy ===== *)
theory Service_Auth
  imports Service_Delivery
begin

text \<open>
  Runs of the service as a transition system, and the properties of crypto_service.py
  about who may do what: which requests can open the keystore, which messages are
  accepted, and what a failed re-initiation and a used prekey leave behind.
\<close>

section \<open>Reachable states\<close>

text \<open>
  A step is one request with any method and any parameters that JSON can carry, or the
  environment changing what the next writes and random draws will be.
\<close>

inductive reachable :: "host \<Rightarrow> 'r ratchet_lib \<Rightarrow> crypto \<Rightarrow> 'r service \<Rightarrow> 'r service \<Rightarrow> bool"
  for H R L s where
  start: "reachable H R L s s"
| request: "reachable H R L s t \<Longrightarrow> sendable params \<Longrightarrow> handle H R L m params t = (r, u) \<Longrightarrow> reachable H R L s u"
| environment: "reachable H R L s t \<Longrightarrow>
    reachable H R L s (t\<lparr>svc_world := (svc_world t)\<lparr>tape := e, write_plan := p\<rparr>\<rparr>)"

lemma reachable_ok: "reachable H R L s t \<Longrightarrow> service_ok s \<Longrightarrow> service_ok t"
proof (induction rule: reachable.induct)
  case (request t params m r u)
  have "service_ok t" by (rule request.IH [OF request.prems])
  from yieldsED [OF safe_handle [OF request.hyps(2)] this request.hyps(3)] show ?case by (rule conjunct1)
next
  case (environment t e p)
  have "service_ok t" by (rule environment.IH [OF environment.prems])
  then show ?case by (simp add: service_ok_def names_ok_def)
qed

text \<open>
  C23: every reachable state of the service is well formed and every answer can be sent.
  From a fresh process on a disk with only the store's own names, after any requests and
  any disk behaviour: the sessions directory still has only such names, each session in
  the table belongs to its conversation, the identity's one-time prekeys are paired, and
  what the next request returns, if it returns, has a JSON form.
\<close>

theorem reachable_service_ok:
  assumes "names_ok w" "reachable H R L (new_service w) s" "sendable params"
  shows "service_ok s \<and> (\<forall>d u. handle H R L m params s = (Inr d, u) \<longrightarrow> (\<exists>t. dumps (PDict d) = Inr t))"
proof -
  have ok: "service_ok s" by (rule reachable_ok [OF assms(2) new_service_ok [OF assms(1)]])
  have "\<exists>t. dumps (PDict d) = Inr t" if h: "handle H R L m params s = (Inr d, u)" for d u
  proof -
    have "sendable (PDict d)" using yieldsED [OF safe_handle [OF assms(3)] ok h] by simp
    then show ?thesis unfolding dumps_def by (rule dumps_sendable(1))
  qed
  with ok show ?thesis by blast
qed

definition example_host :: host where
  "example_host = \<lparr>base_dir_text = lit ''/k'', exn_text = (\<lambda>_. lit ''error'')\<rparr>"

theorem reachable_service_ok_witness:
  "service_ok (snd (handle example_host toy_ratchet_lib example_lib (PStr (lit ''srp_start''))
     (PDict [(lit ''password'', PStr (lit ''p'')), (lit ''username'', PInt 3)]) (new_service example_world)))"
proof -
  have w: "names_ok example_world" by (simp add: names_ok_def example_world_def)
  let ?p = "PDict [(lit ''password'', PStr (lit ''p'')), (lit ''username'', PInt 3)]"
  have "reachable example_host toy_ratchet_lib example_lib (new_service example_world)
     (snd (handle example_host toy_ratchet_lib example_lib (PStr (lit ''srp_start'')) ?p (new_service example_world)))"
    by (rule reachable.request [OF reachable.start _ prod.collapse [symmetric]]) simp
  from reachable_service_ok [OF w this, of PNone] show ?thesis by simp
qed

section \<open>The login\<close>

text \<open>What a request leaves of the login's state when it is not one of the login's.\<close>

definition login_state :: "'r service \<Rightarrow> srp_session option \<times> pystr option \<times> bytes option \<times> bytes option" where
  "login_state s = (svc_srp_session s, svc_pending_password s, svc_pending_keystore_key s, svc_cached_keystore_key s)"

text \<open>The parts of a request that never touch it, and the requests made of them.\<close>

abbreviation login_fixed :: "srp_session option \<times> pystr option \<times> bytes option \<times> bytes option \<Rightarrow>
    ('r service, 'a) eff \<Rightarrow> bool" where
  "login_fixed v m \<equiv> yieldsE (\<lambda>s. login_state s = v) m (\<lambda>_. True)"

lemma login_disk: "login_fixed v (on_disk m)"
  by (auto simp: yieldsE_def on_disk_def zoomE_def login_state_def split: prod.splits)

lemma login_session: "login_fixed v (on_session cid m)"
  by (auto simp: yieldsE_def on_session_def login_state_def split: prod.splits option.splits)

lemma login_entropy: "login_fixed v (on_entropy m)"
  unfolding on_entropy_def by (rule login_disk)

lemma login_require: "login_fixed v require_store" "login_fixed v require_bundle"
  by (simp_all add: yieldsE_def require_store_def require_bundle_def)

lemma login_entry: "login_fixed v (enter_session cid e)" "login_fixed v (update_entry cid f)" "login_fixed v (save_pin L st cid pub)"
  unfolding enter_session_def update_entry_def save_pin_def
  by (simp_all add: login_disk) (simp_all add: yieldsE_def login_state_def)

lemma login_leaf: "login_fixed v (returnE x)" "login_fixed v (raiseE e)" "login_fixed v (liftE r)" "login_fixed v (guardE b e)"
  by (simp_all add: yieldsE_def)

lemma login_try: "login_fixed v m \<Longrightarrow> (\<And>e k. h e = Some k \<Longrightarrow> login_fixed v k) \<Longrightarrow> login_fixed v (tryE m h)"
  by (rule yieldsE_try)

lemmas login_intros = yields_bind_lift yields_bind_get yields_bind_guard yields_bind_any yieldsE_if
  yieldsE_case_option yieldsE_case_prod yieldsE_case_sum login_disk login_session login_entropy login_require
  login_entry login_leaf

lemma login_modify: "(\<And>s. login_state (f s) = login_state s) \<Longrightarrow> login_fixed v (modifyE f)"
  by (simp add: yieldsE_def)

lemma login_require_session: "login_fixed v (require_session R L cid)"
  unfolding require_session_def Let_def
  by (intro login_intros login_modify) (simp add: login_state_def)

lemma login_drop: "login_fixed v (drop_session cid)"
  unfolding drop_session_def
  by (intro login_try login_intros) (auto intro: login_leaf)

lemma login_sessions:
  "login_fixed v (has_session params)" "login_fixed v (initiate_session L params)"
  "login_fixed v (encrypt_message R L params)" "login_fixed v (reset_session params)"
  "login_fixed v (generate_identity_bundle_request H L params)"
proof -
  show "login_fixed v (has_session params)"
    unfolding has_session_def by (intro login_try login_intros) (auto simp: yieldsE_def require_store_def)
  show "login_fixed v (initiate_session L params)"
    unfolding initiate_session_def
    by (intro login_try login_intros login_modify) (auto simp: login_state_def split: if_splits intro: yieldsE_raise yieldsE_return)
  show "login_fixed v (encrypt_message R L params)"
    unfolding encrypt_message_def encrypt_first_def encrypt_next_def
    by (intro login_intros login_modify login_require_session) (simp add: login_state_def)
  show "login_fixed v (reset_session params)"
    unfolding reset_session_def
    by (intro login_intros login_modify login_drop) (simp add: login_state_def)
  show "login_fixed v (generate_identity_bundle_request H L params)"
    unfolding generate_identity_bundle_request_def store_identity_def
    by (intro login_try login_intros login_modify) (auto simp: login_state_def split: if_splits intro: yieldsE_raise yieldsE_return)
qed

lemma login_decrypt: "login_fixed v (decrypt_message R L params)"
proof -
  have reset: "login_fixed v (reset_by_peer cid ib)" for cid ib
    unfolding reset_by_peer_def
    by (intro login_intros login_modify login_drop) (simp add: login_state_def)
  have recover: "login_fixed v (recover_session R L cid ib)" for cid ib
    unfolding recover_session_def
    by (intro login_try login_intros login_require_session) (auto split: if_splits intro: login_leaf)
  have first: "login_fixed v (decrypt_first R L cid b st payload aad ib sender pinned)"
    for cid b st payload aad ib sender pinned
    unfolding decrypt_first_def Let_def load_opk_secrets_def split consume_opk_def
    by (intro login_intros login_modify) (simp add: login_state_def)
  have "next": "login_fixed v (decrypt_next R L cid e payload aad sender)" for cid e payload aad sender
    unfolding decrypt_next_def session_sig_pub_def by (intro login_intros)
  show ?thesis
    unfolding decrypt_message_def by (intro login_intros reset recover first "next")
qed

text \<open>The three requests that do change it.\<close>

abbreviation cached_fixed :: "bytes option \<Rightarrow> ('r service, 'a) eff \<Rightarrow> bool" where
  "cached_fixed c m \<equiv> yieldsE (\<lambda>s. svc_cached_keystore_key s = c \<or> svc_cached_keystore_key s = None) m (\<lambda>_. True)"

lemma cached_of_login:
  fixes m :: "('r service, 'a) eff"
  assumes "\<And>v. login_fixed v m"
  shows "cached_fixed c m"
  unfolding yieldsE_def
proof (intro allI impI)
  fix s :: "'r service" assume P: "svc_cached_keystore_key s = c \<or> svc_cached_keystore_key s = None"
  have "login_state (snd (m s)) = login_state s"
    using assms [of "login_state s"] by (simp add: yieldsE_def)
  with P show "(svc_cached_keystore_key (snd (m s)) = c \<or> svc_cached_keystore_key (snd (m s)) = None) \<and>
      (\<forall>x. fst (m s) = Inr x \<longrightarrow> True)" by (simp add: login_state_def)
qed

lemma cached_modify:
  "(\<And>s. svc_cached_keystore_key (g s) = svc_cached_keystore_key s \<or> svc_cached_keystore_key (g s) = None) \<Longrightarrow>
     cached_fixed c (modifyE g)"
  by (intro yieldsE_modify TrueI) metis

lemma cached_parts:
  "cached_fixed c (on_disk m)" "cached_fixed c (on_entropy n)" "cached_fixed c require_store"
  by (intro cached_of_login login_intros)+

lemma cached_forget: "cached_fixed c forget_cached_key"
  unfolding forget_cached_key_def by (rule cached_modify) simp

lemma cached_open_keystore:
  assumes "cached_fixed c forget"
  shows "cached_fixed c (open_keystore forget key)"
  unfolding open_keystore_def
  by (intro yieldsE_try yields_bind_any cached_parts cached_modify yieldsE_return)
    (auto split: if_splits intro!: yieldsE_bind [OF assms] yieldsE_return)

lemma cached_login_requests:
  "cached_fixed c (unlock_keystore H L params)" "cached_fixed c (srp_start L params)"
  "cached_fixed c (srp_challenge L params)"
proof -
  show "cached_fixed c (unlock_keystore H L params)"
    unfolding unlock_keystore_def
    by (intro yields_bind_lift yieldsE_if yields_bind_get yields_bind_any yieldsE_case_option yieldsE_try
        yieldsE_case_prod cached_open_keystore cached_forget cached_parts cached_modify yieldsE_return yieldsE_lift)
      (auto split: if_splits intro!: yields_bind_any cached_modify yieldsE_return)
  show "cached_fixed c (srp_start L params)"
    unfolding srp_start_def
    by (intro yields_bind_lift yields_bind_any cached_parts cached_modify yieldsE_return) simp_all
  have srp: "cached_fixed c (on_srp m)" for m :: "(srp_session, 'x) eff"
    by (auto simp: yieldsE_def on_srp_def zoomE_def split: prod.splits)
  show "cached_fixed c (srp_challenge L params)"
    unfolding srp_challenge_def
    by (intro yields_bind_lift yields_bind_get yields_bind_guard yields_bind_any yieldsE_case_prod yieldsE_finally
        srp cached_parts cached_modify yieldsE_return) simp_all
qed

lemma cached_handle: "m \<noteq> PStr (lit ''srp_verify'') \<Longrightarrow> cached_fixed c (handle H R L m params)"
  unfolding handle_def
  by (intro yieldsE_if cached_login_requests cached_of_login login_sessions login_decrypt login_leaf)
    simp

text \<open>
  C6: the keystore key derived at login becomes usable only by a server's proof. If a
  request leaves a key in the cache that was not there before, the request was
  \<open>srp_verify\<close>, the key is the one staged by the challenge, the running SRP session
  accepted the proof in the request, and the answer says so. A proof that is refused
  removes the staged key, the cached key, the open store and the identity.
\<close>

theorem keystore_key_needs_server_proof:
  assumes "handle H R L m params s = (r, u)"
  shows "(\<forall>k. svc_cached_keystore_key u = Some k \<longrightarrow> svc_cached_keystore_key s \<noteq> Some k \<longrightarrow>
      m = PStr (lit ''srp_verify'') \<and> svc_pending_keystore_key s = Some k \<and>
      (\<exists>x M2 key. svc_srp_session s = Some x \<and> param params ''M2'' = Inr M2 \<and> verify_server x M2 \<and>
        session_key_hex x = Inr key \<and>
        r = Inr [(lit ''authenticated'', PBool True), (lit ''session_key'', PStr key)])) \<and>
    (\<forall>x M2. m = PStr (lit ''srp_verify'') \<longrightarrow> svc_srp_session s = Some x \<longrightarrow> param params ''M2'' = Inr M2 \<longrightarrow>
      \<not> verify_server x M2 \<longrightarrow>
      r = Inr [(lit ''authenticated'', PBool False), (lit ''session_key'', PNone)] \<and>
      svc_store u = None \<and> svc_local_bundle u = None \<and>
      svc_cached_keystore_key u = None \<and> svc_pending_keystore_key u = None)"
proof -
  have h: "handle H R L (PStr (lit ''srp_verify'')) params = srp_verify params" by (simp add: handle_def)
  show ?thesis
  proof (cases "m = PStr (lit ''srp_verify'')")
    case True
    with assms h have "srp_verify params s = (r, u)" by simp
    with True show ?thesis
      by (auto simp: srp_verify_def Let_def bindE_def split: sum.splits option.splits if_splits)
  next
    case False
    have "svc_cached_keystore_key u = svc_cached_keystore_key s \<or> svc_cached_keystore_key u = None"
      using yieldsED [OF cached_handle [OF False, of "svc_cached_keystore_key s"] _ assms] by simp
    with False show ?thesis by auto
  qed
qed

theorem keystore_key_needs_server_proof_witness:
  "\<exists>u. handle example_host toy_ratchet_lib example_lib (PStr (lit ''srp_verify'')) (PDict [(lit ''M2'', PHex [1])])
      ((new_service example_world)\<lparr>svc_store := Some example_store, svc_srp_session := Some
        \<lparr>srp_username = [], srp_password = [], srp_a = 0, srp_A = 1, srp_K = None, srp_HAMK = Some [2]\<rparr>\<rparr>) =
    (Inr [(lit ''authenticated'', PBool False), (lit ''session_key'', PNone)], u) \<and> svc_store u = None"
proof -
  let ?s = "(new_service example_world)\<lparr>svc_store := Some example_store, svc_srp_session := Some
        \<lparr>srp_username = [], srp_password = [], srp_a = 0, srp_A = 1, srp_K = None, srp_HAMK = Some [2]\<rparr>\<rparr>"
  obtain r u where h: "handle example_host toy_ratchet_lib example_lib (PStr (lit ''srp_verify''))
      (PDict [(lit ''M2'', PHex [1])]) ?s = (r, u)" by (rule prod.exhaust)
  from keystore_key_needs_server_proof [OF h] have "r = Inr [(lit ''authenticated'', PBool False), (lit ''session_key'', PNone)] \<and>
      svc_store u = None"
    by (simp add: param_def verify_server_def del: hex.simps)
  with h show ?thesis by blast
qed

section \<open>Which messages are accepted\<close>

text \<open>Inverting a sequence whose first step does not touch the state.\<close>

lemma bind_pure_Inr:
  "bindE (liftE r) f s = (Inr y, u) \<longleftrightarrow> (\<exists>x. r = Inr x \<and> f x s = (Inr y, u))"
  by (cases r) (auto simp: bindE_def)

lemma bind_guard_Inr: "bindE (guardE b e) g s = (Inr y, u) \<longleftrightarrow> b \<and> g () s = (Inr y, u)"
  by (auto simp: bindE_def guardR_def)

text \<open>What a part of a request leaves of every conversation but one.\<close>

definition others :: "pystr \<Rightarrow> 'r service \<Rightarrow> pystr \<Rightarrow> 'r session_entry option" where
  "others cid s = (svc_sessions s)(cid := None)"

lemma verify_payload_Inr: "verify_payload L payload aad pub pin = Inr sc \<longleftrightarrow>
    verify_and_extract L payload aad pub (Some pin) = Inr sc"
  by (auto simp: verify_payload_def split: sum.splits)

lemma on_disk_sessions: "on_disk m s = (r, t) \<Longrightarrow> svc_sessions t = svc_sessions s"
  by (auto simp: on_disk_def zoomE_def split: prod.splits)

lemma require_session_found:
  "require_session R L cid s = (Inr e, t) \<Longrightarrow>
     svc_sessions t = (svc_sessions s)(cid \<mapsto> e) \<and> (\<forall>e'. svc_sessions s cid = Some e' \<longrightarrow> e = e')"
  by (auto simp: require_session_def require_store_def bindE_eq_Inr Let_def dest!: on_disk_sessions
      split: option.splits)

lemma require_session_raised: "require_session R L cid s = (Inl e, t) \<Longrightarrow> svc_sessions t = svc_sessions s"
  by (auto simp: require_session_def require_store_def bindE_eq_Inl bindE_eq_Inr Let_def dest!: on_disk_sessions
      split: option.splits)

lemma drop_session_sessions: "drop_session cid s = (r, t) \<Longrightarrow> svc_sessions t = svc_sessions s \<and> r = Inr ()"
  by (auto simp: drop_session_def require_store_def tryE_def bindE_def dest!: on_disk_sessions
      split: option.splits sum.splits prod.splits)

lemma reset_by_peer_sessions:
  assumes "reset_by_peer cid ib s = (r, t)"
  shows "\<exists>pinned. r = Inr pinned \<and> others cid t = others cid s \<and>
    svc_sessions t cid = (if truthy ib then None else svc_sessions s cid) \<and>
    pinned = (if truthy ib then map_option se_remote_ik_sig_pub (svc_sessions s cid) else None)"
  using assms
  by (auto simp: reset_by_peer_def others_def bindE_def dest!: drop_session_sessions
      split: option.splits if_splits prod.splits)

lemma recover_session_sessions:
  assumes "recover_session R L cid ib s = (r, t)"
  shows "others cid t = others cid s \<and> (svc_sessions s cid \<noteq> None \<longrightarrow> svc_sessions t = svc_sessions s) \<and>
    (truthy ib \<longrightarrow> svc_sessions t = svc_sessions s)"
  using assms
  by (auto simp: recover_session_def others_def tryE_def bindE_def dest!: require_session_found require_session_raised
      split: option.splits if_splits prod.splits sum.splits)

lemma consume_opk_sessions: "consume_opk L st b i s = (r, t) \<Longrightarrow> svc_sessions t = svc_sessions s"
  by (auto simp: consume_opk_def bindE_def dest!: on_disk_sessions split: sum.splits prod.splits)

lemma decrypt_first_accepts:
  assumes "decrypt_first R L cid b st payload aad ib sender pinned s = (Inr d, t)"
  shows "\<exists>pub sc p e. verify_and_extract L payload aad pub (Some pub) = Inr sc \<and> pub \<noteq> [] \<and>
    (pinned = None \<or> pinned = Some pub) \<and> d = plaintext_answer p \<and>
    svc_sessions t = (svc_sessions s)(cid \<mapsto> e) \<and> se_remote_ik_sig_pub e = pub"
proof -
  obtain init :: InitiationBundle and SK u s1 pub sc where 1: "(if ib_opk_id init \<noteq> PNone \<and> \<not> ib_used_identity_kem init
      then consume_opk L st b (ib_opk_id init) else returnE ()) s = (Inr u, s1)"
    and 2: "pub \<noteq> []" "pinned = None \<or> pinned = Some pub" "verify_payload L payload aad pub pub = Inr sc"
    and 3: "bindE (on_disk (create_as_responder R L st SK (private_key_bytes (spk_keypair (spk b)))
              (sc_ciphertext sc) aad cid)) (\<lambda>(session, first_plaintext).
     bindE (save_pin L st cid pub) (\<lambda>_.
     bindE (enter_session cid \<lparr>se_ratchet = session, se_store = st,
       se_remote_ik_sig_pub = pub, se_init_bundle = PNone\<rparr>) (\<lambda>_.
     returnE (plaintext_answer first_plaintext)))) s1 = (Inr d, t)"
    using assms unfolding decrypt_first_def load_opk_secrets_def Let_def split bind_pure_Inr bind_guard_Inr
      bindE_eq_Inr [where m = "if x then y else z" for x y z]
    by (elim exE conjE) (rule that)
  obtain session p s2 s3 where 4: "on_disk (create_as_responder R L st SK (private_key_bytes (spk_keypair (spk b)))
              (sc_ciphertext sc) aad cid) s1 = (Inr (session, p), s2)" "save_pin L st cid pub s2 = (Inr (), s3)"
     "t = s3\<lparr>svc_sessions := (svc_sessions s3)(cid \<mapsto> \<lparr>se_ratchet = session, se_store = st,
       se_remote_ik_sig_pub = pub, se_init_bundle = PNone\<rparr>)\<rparr>" "d = plaintext_answer p"
    using 3 by (auto simp: bindE_eq_Inr enter_session_def)
  have "svc_sessions s1 = svc_sessions s" using 1 consume_opk_sessions by (auto split: if_splits)
  with on_disk_sessions [OF 4(1)] on_disk_sessions [OF 4(2) [unfolded save_pin_def]]
  have "svc_sessions s3 = svc_sessions s" by simp
  with 4 2 show ?thesis
    by (intro exI [of _ pub] exI [of _ sc] exI [of _ p] exI [of _ "\<lparr>se_ratchet = session, se_store = st,
       se_remote_ik_sig_pub = pub, se_init_bundle = PNone\<rparr>"]) (simp add: verify_payload_Inr)
qed

lemma decrypt_first_raised:
  assumes "decrypt_first R L cid b st payload aad ib sender pinned s = (Inl e, t)"
  shows "svc_sessions t = svc_sessions s"
  using assms
  by (auto simp: decrypt_first_def load_opk_secrets_def bindE_eq_Inr bindE_eq_Inl save_pin_def enter_session_def
      dest!: on_disk_sessions consume_opk_sessions split: prod.splits if_splits)

lemma session_sig_pub_found:
  assumes "session_sig_pub L cid e sender s = (Inr pub, t)" "svc_sessions s cid = Some e"
  shows "(se_remote_ik_sig_pub e \<noteq> [] \<longrightarrow> pub = se_remote_ik_sig_pub e) \<and>
    (\<exists>e'. svc_sessions t = (svc_sessions s)(cid \<mapsto> e') \<and> se_remote_ik_sig_pub e' = pub)"
proof (cases "se_remote_ik_sig_pub e = []")
  case True
  with assms show ?thesis
    by (auto simp: session_sig_pub_def bindE_eq_Inr save_pin_def enter_session_def require_store_def
        dest!: on_disk_sessions split: if_splits option.splits)
next
  case False
  with assms show ?thesis by (auto simp: session_sig_pub_def fun_upd_idem intro!: exI [of _ e])
qed

lemma on_session_found:
  assumes "on_session cid m s = (r, t)" "svc_sessions s cid = Some e"
  shows "\<exists>x. svc_sessions t = (svc_sessions s)(cid \<mapsto> e\<lparr>se_ratchet := x\<rparr>)"
  using assms by (auto simp: on_session_def split: prod.splits)

lemma decrypt_next_accepts:
  assumes "decrypt_next R L cid e payload aad sender s = (Inr d, t)" "svc_sessions s cid = Some e"
  shows "\<exists>pub sc p e'. verify_and_extract L payload aad pub (Some pub) = Inr sc \<and> d = plaintext_answer p \<and>
    (se_remote_ik_sig_pub e \<noteq> [] \<longrightarrow> pub = se_remote_ik_sig_pub e) \<and>
    svc_sessions t = (svc_sessions s)(cid \<mapsto> e') \<and> se_remote_ik_sig_pub e' = pub"
proof -
  obtain pub s1 sc p where 1: "session_sig_pub L cid e sender s = (Inr pub, s1)"
      "verify_payload L payload aad pub pub = Inr sc"
      "on_session cid (session_decrypt R L (se_store e) sc aad) s1 = (Inr p, t)" "d = plaintext_answer p"
    using assms(1) by (auto simp: decrypt_next_def bindE_eq_Inr)
  from session_sig_pub_found [OF 1(1) assms(2)] obtain e1 where e1: "svc_sessions s1 = (svc_sessions s)(cid \<mapsto> e1)"
    "se_remote_ik_sig_pub e1 = pub" "se_remote_ik_sig_pub e \<noteq> [] \<longrightarrow> pub = se_remote_ik_sig_pub e" by blast
  from on_session_found [OF 1(3), of e1] e1(1) obtain x where
    "svc_sessions t = (svc_sessions s)(cid \<mapsto> e1\<lparr>se_ratchet := x\<rparr>)" by auto
  with 1 e1 show ?thesis by (intro exI [of _ pub] exI [of _ sc] exI [of _ p] exI) (auto simp: verify_payload_Inr)
qed

text \<open>The request up to the point where it knows which of the two cases it is in.\<close>

lemma decrypt_message_cases:
  assumes "decrypt_message R L params s = (r, t)" "param_str params ''conversation_id'' = Inr cid"
    and "utf8_encode cid = Inr aad" "bindR (param params ''ciphertext'') fromhex_val = Inr payload"
    and "svc_local_bundle s = Some b" "svc_store s = Some st"
    and "param_get params ''initiation_bundle'' PNone = Inr ib" "param_get params ''sender_ik_sig_pub'' (PStr []) = Inr sender"
  shows "\<exists>s1 pinned. reset_by_peer cid ib s = (Inr pinned, s1) \<and>
    (\<exists>x s2. recover_session R L cid ib s1 = (x, s2) \<and>
      (case x of Inl e \<Rightarrow> r = Inl e \<and> t = s2
       | Inr _ \<Rightarrow> (r, t) = (case svc_sessions s2 cid of
            None \<Rightarrow> decrypt_first R L cid b st payload aad ib sender pinned s2
          | Some e \<Rightarrow> decrypt_next R L cid e payload aad sender s2)))"
proof -
  obtain x1 s1 where 1: "reset_by_peer cid ib s = (x1, s1)" by (rule prod.exhaust)
  from reset_by_peer_sessions [OF 1] obtain pinned where "x1 = Inr pinned" by blast
  moreover obtain x s2 where "recover_session R L cid ib s1 = (x, s2)" by (rule prod.exhaust)
  ultimately show ?thesis
    using assms 1
    by (cases x) (auto simp: decrypt_message_def require_bundle_def require_store_def bindR_Inr_iff split: option.splits)
qed

lemma decrypt_message_inputs:
  assumes "decrypt_message R L params s = (Inr d, t)"
  shows "\<exists>cid aad payload b st ib sender. param_str params ''conversation_id'' = Inr cid \<and> utf8_encode cid = Inr aad \<and>
    bindR (param params ''ciphertext'') fromhex_val = Inr payload \<and> svc_local_bundle s = Some b \<and> svc_store s = Some st \<and>
    param_get params ''initiation_bundle'' PNone = Inr ib \<and>
    param_get params ''sender_ik_sig_pub'' (PStr []) = Inr sender"
  using assms unfolding decrypt_message_def bind_pure_Inr require_bundle_def require_store_def
  by (auto simp: bindE_eq_Inr bindR_Inr_iff split: option.splits)

text \<open>
  C5: a plaintext is returned only for a message that verified under the conversation's
  key. Whatever the request and the state, if \<open>decrypt_message\<close> returns, the payload
  verified in full under one key over the conversation's identifier; that key is now the
  pinned one; if a session with a pinned key was in memory (whether it is continued or
  re-initiated by the message) it is the same key; and no other conversation's session
  changed.
\<close>

theorem decrypt_accepts_only_pinned_signer:
  assumes "decrypt_message R L params s = (Inr d, t)"
  shows "\<exists>cid aad payload pub sc p e'. param_str params ''conversation_id'' = Inr cid \<and> utf8_encode cid = Inr aad \<and>
    bindR (param params ''ciphertext'') fromhex_val = Inr payload \<and>
    verify_and_extract L payload aad pub (Some pub) = Inr sc \<and> d = plaintext_answer p \<and>
    svc_sessions t cid = Some e' \<and> se_remote_ik_sig_pub e' = pub \<and>
    (\<forall>e. svc_sessions s cid = Some e \<longrightarrow> se_remote_ik_sig_pub e \<noteq> [] \<longrightarrow> pub = se_remote_ik_sig_pub e) \<and>
    (\<forall>c. c \<noteq> cid \<longrightarrow> svc_sessions t c = svc_sessions s c)"
proof -
  obtain cid aad payload b st ib sender where i: "param_str params ''conversation_id'' = Inr cid"
    "utf8_encode cid = Inr aad" "bindR (param params ''ciphertext'') fromhex_val = Inr payload"
    "svc_local_bundle s = Some b" "svc_store s = Some st" "param_get params ''initiation_bundle'' PNone = Inr ib"
    "param_get params ''sender_ik_sig_pub'' (PStr []) = Inr sender"
    using decrypt_message_inputs [OF assms] by blast
  from decrypt_message_cases [OF assms i] obtain s1 pinned x s2 where
    1: "reset_by_peer cid ib s = (Inr pinned, s1)" and 2: "recover_session R L cid ib s1 = (x, s2)"
    and 3: "case x of Inl e \<Rightarrow> Inr d = Inl e \<and> t = s2
       | Inr _ \<Rightarrow> (Inr d, t) = (case svc_sessions s2 cid of
            None \<Rightarrow> decrypt_first R L cid b st payload aad ib sender pinned s2
          | Some e \<Rightarrow> decrypt_next R L cid e payload aad sender s2)" by blast
  note r = reset_by_peer_sessions [OF 1] and c = recover_session_sessions [OF 2]
  have same: "svc_sessions s2 c = svc_sessions s c" if "c \<noteq> cid" for c
    using r c that by (metis fun_upd_other others_def)
  have "\<exists>pub sc p e'. verify_and_extract L payload aad pub (Some pub) = Inr sc \<and> d = plaintext_answer p \<and>
    svc_sessions t = (svc_sessions s2)(cid \<mapsto> e') \<and> se_remote_ik_sig_pub e' = pub \<and>
    (\<forall>e. svc_sessions s cid = Some e \<longrightarrow> se_remote_ik_sig_pub e \<noteq> [] \<longrightarrow> pub = se_remote_ik_sig_pub e)"
  proof (cases "svc_sessions s2 cid")
    case None
    with 3 have "decrypt_first R L cid b st payload aad ib sender pinned s2 = (Inr d, t)" by (auto split: sum.splits)
    from decrypt_first_accepts [OF this] r c None show ?thesis by (auto split: if_splits) blast+
  next
    case (Some e)
    with 3 have n: "decrypt_next R L cid e payload aad sender s2 = (Inr d, t)" by (auto split: sum.splits)
    have "svc_sessions s cid = Some e'' \<Longrightarrow> e'' = e" for e''
      using r c Some by (auto split: if_splits)
    with decrypt_next_accepts [OF n Some] show ?thesis by blast
  qed
  with i same show ?thesis by (metis fun_upd_other fun_upd_same)
qed

theorem decrypt_accepts_only_pinned_signer_witness:
  "\<exists>params (s :: toy_ratchet service) d t pub sc p e'. decrypt_message toy_ratchet_lib example_lib params s = (Inr d, t) \<and>
    verify_and_extract example_lib p (blit ''a'') pub (Some pub) = Inr sc \<and>
    svc_sessions t (lit ''a'') = Some e' \<and> se_remote_ik_sig_pub e' = pub"
proof -
  obtain b and s :: "toy_ratchet service" where e: "messaging_ok toy_ratchet_lib example_lib toy_linked b b"
    "unlocked example_lib example_password b example_store s" "svc_sessions s (lit ''a'') = None"
    "svc_pending_sessions s (lit ''a'') = None" using example_unlocked by blast
  obtain p where p: "to_public_bundle example_lib b = Inr p"
    using e(1) bundle_ok_ids [of example_lib b] by (auto simp: messaging_ok_def parties_ok_def to_public_bundle_def)
  have u: "encodable []" "encodable []" by (simp_all add: encodable_scalar)
  obtain answer d t where d:
    "decrypt_message toy_ratchet_lib example_lib (receive_params (lit ''a'') answer) s = (Inr d, t)"
    using first_exchange [OF e(1) p e(2,2) example_conversation_ok e(3,4) u] by (elim exE conjE) (rule that)
  have a: "utf8_encode (lit ''a'') = Inr (blit ''a'')" by (simp add: lit_def blit_def utf8_char_def byte_of_def)
  have "param_str (receive_params (lit ''a'') answer) ''conversation_id'' = Inr (lit ''a'')"
    by (simp add: receive_params_def param_str_def param_def)
  with decrypt_accepts_only_pinned_signer [OF d] a obtain pub sc q e' where
    "verify_and_extract example_lib q (blit ''a'') pub (Some pub) = Inr sc" "svc_sessions t (lit ''a'') = Some e'"
    "se_remote_ik_sig_pub e' = pub" by auto
  with d show ?thesis by blast
qed

text \<open>What a failed request leaves on the disk, when writes complete: nothing of the conversation.\<close>

lemma quiet_tape [simp]: "quiet (w\<lparr>tape := t\<rparr>) = quiet w"
  by (simp add: quiet_def)

lemma save_state_raised:
  assumes "save_state L st i v w = (Inl e, w')" "quiet w"
  shows "sess_files w' = sess_files w"
proof -
  have "sess_files w' = sess_files u" if "write_file n d u = (Inl e, w')" "quiet u" for n d u
    using that write_file_quiet [OF that(2), of n d] by (cases "name_ok n") (auto simp: write_file_def)
  from this [of _ _ "w\<lparr>tape := t\<rparr>" for t] show ?thesis
    using assms by (auto simp: save_state_cases Let_def split: sum.splits prod.splits)
qed

lemma save_state_stays_quiet: "save_state L st i v w = (r, w') \<Longrightarrow> quiet w \<Longrightarrow> quiet w'"
  using save_state_quiet [of w L st i v] by simp

lemma responder_raised:
  "create_as_responder R L st SK priv wire ad sid w = (Inl e, w') \<Longrightarrow> quiet w \<Longrightarrow> sess_files w' = sess_files w"
  by (auto simp: create_as_responder_def Let_def bindE_eq_Inl bindE_eq_Inr on_tape_sel persist_def dest!: save_state_raised)

lemma responder_stays_quiet:
  "create_as_responder R L st SK priv wire ad sid w = (Inr x, w') \<Longrightarrow> quiet w \<Longrightarrow> quiet w'"
  by (auto simp: create_as_responder_def Let_def bindE_eq_Inr on_tape_sel persist_def dest!: save_state_stays_quiet)

lemma consume_opk_disk:
  assumes "disk_ok L st (svc_world s)" "consume_opk L st b i s = (r, t)"
  shows "disk_ok L st (svc_world t) \<and> writes_only {BUNDLE_KEY} (svc_world s) (svc_world t)"
  using assms
  by (auto simp: consume_opk_def bindE_def on_disk_sel disk_ok_def split: sum.splits prod.splits
      dest: save_state_stays_quiet save_writes)

lemma save_pin_total:
  assumes "disk_ok L st (svc_world s)" "conversation_ok cid"
  shows "\<exists>t. save_pin L st cid pub s = (Inr (), t)"
proof -
  have h: "aead_correct L \<and> length (enc_key st) = 32 \<and> quiet (svc_world s)" "storable (meta_key cid)"
    using assms by (auto simp: disk_ok_def conversation_ok_def)
  have "json_ok (PDict [(lit ''remote_ik_sig_pub'', PHex pub)])" by (simp add: lit_scalar hex_scalar)
  from store.save_total [OF h this] show ?thesis by (auto simp: save_pin_def on_disk_sel)
qed

definition accept_first ::
    "'r ratchet_lib \<Rightarrow> crypto \<Rightarrow> pystr \<Rightarrow> StateStore \<Rightarrow> bytes \<Rightarrow> bytes \<Rightarrow> pyval \<Rightarrow> bytes \<Rightarrow> bytes \<Rightarrow> ('r service, pydict) eff" where
  "accept_first R L cid st SK priv wire aad pub =
     bindE (on_disk (create_as_responder R L st SK priv wire aad cid)) (\<lambda>(session, first_plaintext).
     bindE (save_pin L st cid pub) (\<lambda>_.
     bindE (enter_session cid \<lparr>se_ratchet = session, se_store = st, se_remote_ik_sig_pub = pub, se_init_bundle = PNone\<rparr>) (\<lambda>_.
     returnE (plaintext_answer first_plaintext))))"

lemma accept_first_raised:
  assumes "accept_first R L cid st SK priv wire aad pub s = (Inl e, t)" "disk_ok L st (svc_world s)" "conversation_ok cid"
  shows "sess_files (svc_world t) = sess_files (svc_world s)"
proof -
  have q: "quiet (svc_world s)" using assms(2) by (simp add: disk_ok_def)
  have late: False if "create_as_responder R L st SK priv wire aad cid (svc_world s) = (Inr (session, p), w)" for session p w
  proof -
    have "disk_ok L st (svc_world (s\<lparr>svc_world := w\<rparr>))"
      using responder_stays_quiet [OF that q] assms(2) by (simp add: disk_ok_def)
    from save_pin_total [OF this assms(3), of pub] that assms(1) show False
      by (auto simp: accept_first_def on_disk_sel enter_session_def bindE_def)
  qed
  obtain r w where c: "create_as_responder R L st SK priv wire aad cid (svc_world s) = (r, w)" by force
  show ?thesis
  proof (cases r)
    case (Inl e')
    with assms(1) c responder_raised [OF _ q] show ?thesis by (auto simp: accept_first_def on_disk_sel bindE_def)
  next
    case (Inr x)
    with c late show ?thesis by (cases x) auto
  qed
qed

lemma decrypt_first_raised_cases:
  assumes "decrypt_first R L cid b st payload aad ib sender pinned s = (Inl e, t)"
  obtains "t = s" | i r where "consume_opk L st b i s = (r, t)"
    | SK priv wire pub where "accept_first R L cid st SK priv wire aad pub s = (Inl e, t)"
    | i u SK priv wire pub where "consume_opk L st b i s = (Inr (), u)" "accept_first R L cid st SK priv wire aad pub u = (Inl e, t)"
  using assms that
  by (simp add: decrypt_first_def load_opk_secrets_def accept_first_def [symmetric] bindE_eq_Inl) (auto split: if_splits)

lemma decrypt_first_raised_disk:
  assumes "decrypt_first R L cid b st payload aad ib sender pinned s = (Inl e, t)"
    and "disk_ok L st (svc_world s)" "conversation_ok cid" "j \<noteq> BUNDLE_KEY"
  shows "state_exists j (svc_world t) = state_exists j (svc_world s)"
proof -
  have c: "disk_ok L st (svc_world u) \<and> state_exists j (svc_world u) = state_exists j (svc_world s)"
    if "consume_opk L st b i s = (r, u)" for i r u
    using consume_opk_disk [OF assms(2) that] assms(4) by (simp add: writes_only_def state_exists_def file_exists_def)
  have a: "state_exists j (svc_world t) = state_exists j (svc_world u)"
    if "accept_first R L cid st SK priv wire aad pub u = (Inl e, t)" "disk_ok L st (svc_world u)" for u SK priv wire pub
    using accept_first_raised [OF that assms(3)] by (simp add: state_exists_def file_exists_def)
  from assms(1) show ?thesis
  proof (cases rule: decrypt_first_raised_cases)
    case (4 i u SK priv wire pub)
    with c [OF 4(1)] a [OF 4(2)] show ?thesis by simp
  qed (use c a [OF _ assms(2)] in blast)+
qed

lemma reset_by_peer_disk:
  assumes "reset_by_peer cid ib s = (Inr pinned, t)" "svc_sessions s cid \<noteq> None" "truthy ib" "svc_store s = Some st" "conversation_ok cid"
  shows "svc_world t = svc_world s\<lparr>sess_files := sess_files (svc_world t)\<rparr> \<and>
    \<not> state_exists cid (svc_world t) \<and> \<not> state_exists (meta_key cid) (svc_world t)"
  using assms
  by (auto simp: reset_by_peer_def drop_session_def require_store_def on_disk_sel delete_session_eq tryE_def conversation_ok_def
      storable_def state_exists_def file_exists_def delete_conv')

text \<open>
  C24: a failed re-initiation discards the session together with its pinned key. Let a
  conversation have a session in memory. A request that carries any initiation bundle and
  then fails (because the bundle is malformed, the key differs from the pinned one, the
  signature is wrong, ...) leaves no session, and the next request finds no pinned key to
  compare with. The other conversations are not affected. On a disk that completes its writes
  the stored session and the stored pin are gone as well, so that neither can be recovered.
\<close>

theorem failed_reinitiation_forgets_pin:
  assumes "decrypt_message R L params s = (Inl e, t)" "param_str params ''conversation_id'' = Inr cid"
    and "utf8_encode cid = Inr aad" "bindR (param params ''ciphertext'') fromhex_val = Inr payload"
    and "svc_local_bundle s = Some b" "svc_store s = Some st"
    and "param_get params ''initiation_bundle'' PNone = Inr ib" "param_get params ''sender_ik_sig_pub'' (PStr []) = Inr sender"
    and "truthy ib" "svc_sessions s cid = Some entry"
  shows "svc_sessions t cid = None \<and> (\<forall>ib'. fst (reset_by_peer cid ib' t) = Inr None) \<and>
    (\<forall>c. c \<noteq> cid \<longrightarrow> svc_sessions t c = svc_sessions s c) \<and>
    (disk_ok L st (svc_world s) \<and> conversation_ok cid \<longrightarrow>
      \<not> state_exists cid (svc_world t) \<and> \<not> state_exists (meta_key cid) (svc_world t) \<and>
      (\<exists>e'. fst (require_session R L cid t) = Inl e'))"
proof -
  from decrypt_message_cases [OF assms(1-8)] obtain s1 pinned x s2 where
    1: "reset_by_peer cid ib s = (Inr pinned, s1)" and 2: "recover_session R L cid ib s1 = (x, s2)"
    and 3: "case x of Inl e' \<Rightarrow> (Inl e :: pydict res) = Inl e' \<and> t = s2
       | Inr _ \<Rightarrow> (Inl e, t) = (case svc_sessions s2 cid of
            None \<Rightarrow> decrypt_first R L cid b st payload aad ib sender pinned s2
          | Some e' \<Rightarrow> decrypt_next R L cid e' payload aad sender s2)" by blast
  note r = reset_by_peer_sessions [OF 1] and c = recover_session_sessions [OF 2]
  have n: "svc_sessions s2 cid = None" using r c assms(9) by simp
  with 3 decrypt_first_raised [of R L cid b st payload aad ib sender pinned s2 e t]
  have t: "svc_sessions t = svc_sessions s2" by (auto split: sum.splits)
  have others: "svc_sessions s2 c = svc_sessions s c" if "c \<noteq> cid" for c
    using r c that by (metis fun_upd_other others_def)
  have disk: "\<not> state_exists cid (svc_world t) \<and> \<not> state_exists (meta_key cid) (svc_world t)"
    if d: "disk_ok L st (svc_world s)" "conversation_ok cid"
  proof -
    have s2: "x = Inr ()" "s2 = s1" using 2 assms(9) by (simp_all add: recover_session_def bindE_def)
    have g: "svc_world s1 = svc_world s\<lparr>sess_files := sess_files (svc_world s1)\<rparr>"
      "\<not> state_exists cid (svc_world s1)" "\<not> state_exists (meta_key cid) (svc_world s1)"
      using reset_by_peer_disk [OF 1 _ assms(9,6) d(2)] assms(10) by auto
    have "disk_ok L st (svc_world s1)"
      by (subst g(1)) (use d(1) in \<open>simp add: disk_ok_def quiet_def\<close>)
    moreover have "decrypt_first R L cid b st payload aad ib sender pinned s1 = (Inl e, t)" using 3 s2 n by simp
    ultimately show ?thesis
      using decrypt_first_raised_disk [of R L cid b st payload aad ib sender pinned s1 e t] g(2,3) d(2) meta_key_neq_bundle_key [of cid]
      by (simp add: conversation_ok_def)
  qed
  have "svc_sessions t cid = None" using t n by simp
  moreover from this have "\<exists>e'. fst (require_session R L cid t) = Inl e'" if "\<not> state_exists cid (svc_world t)"
    using that by (cases "svc_store t") (simp_all add: require_session_def require_store_def)
  ultimately show ?thesis using t others disk by (simp add: reset_by_peer_def)
qed

text \<open>An entry of the example service: a session and the key pinned for it.\<close>

definition example_entry :: "toy_ratchet session_entry" where
  "example_entry = \<lparr>se_ratchet = example_session, se_store = example_store, se_remote_ik_sig_pub = [1],
     se_init_bundle = PNone\<rparr>"

definition example_identity :: IdentityBundle where
  "example_identity = \<lparr>user_id = lit ''u'', ik_kem = \<lparr>kem_public_key = zeros 1568, kem_secret_key = zeros 3168\<rparr>,
     ik_sig = example_signing, ik_classical = \<lparr>x_private = zeros 32\<rparr>,
     spk = \<lparr>spk_id = 1, spk_keypair = \<lparr>x_private = zeros 32\<rparr>, spk_signature = []\<rparr>, x25519_opks = [], kem_opks = []\<rparr>"

definition example_service :: "toy_ratchet service" where
  "example_service = (new_service (example_world\<lparr>sess_files :=
       [(state_name (lit ''a''), zeros 40), (state_name (meta_key (lit ''a'')), zeros 40)]\<rparr>))\<lparr>svc_store := Some example_store,
     svc_local_bundle := Some example_identity, svc_sessions := [lit ''a'' \<mapsto> example_entry]\<rparr>"

theorem failed_reinitiation_forgets_pin_witness:
  "\<exists>t. decrypt_message toy_ratchet_lib example_lib (PDict [(lit ''conversation_id'', PStr (lit ''a'')),
        (lit ''ciphertext'', PStr []), (lit ''initiation_bundle'', PDict [(lit ''x'', PNone)])]) example_service =
      (Inl (KeyError ''ik_classical_pub''), t) \<and>
    svc_sessions example_service (lit ''a'') \<noteq> None \<and> svc_sessions t (lit ''a'') = None \<and>
    state_exists (lit ''a'') (svc_world example_service) \<and> state_exists (meta_key (lit ''a'')) (svc_world example_service) \<and>
    \<not> state_exists (lit ''a'') (svc_world t) \<and> \<not> state_exists (meta_key (lit ''a'')) (svc_world t)"
proof -
  let ?p = "PDict [(lit ''conversation_id'', PStr (lit ''a'')), (lit ''ciphertext'', PStr []),
      (lit ''initiation_bundle'', PDict [(lit ''x'', PNone)])]"
  have a: "utf8_encode (lit ''a'') = Inr [97]" by (simp add: lit_def utf8_char_def byte_of_def)
  have p: "param_str ?p ''conversation_id'' = Inr (lit ''a'')" "bindR (param ?p ''ciphertext'') fromhex_val = Inr []"
    "param_get ?p ''initiation_bundle'' PNone = Inr (PDict [(lit ''x'', PNone)])"
    "param_get ?p ''sender_ik_sig_pub'' (PStr []) = Inr (PStr [])"
    by (simp_all add: param_str_def param_def param_get_def fromhex_val_def)
  have s: "svc_local_bundle example_service = Some example_identity" "svc_store example_service = Some example_store"
    "svc_sessions example_service (lit ''a'') = Some example_entry" by (simp_all add: example_service_def)
  obtain r t where h: "decrypt_message toy_ratchet_lib example_lib ?p example_service = (r, t)" by (rule prod.exhaust)
  have "r = Inl (KeyError ''ik_classical_pub'')"
  proof -
    from decrypt_message_cases [OF h p(1) a p(2) s(1,2) p(3,4)] obtain s1 pinned x s2 where
      1: "reset_by_peer (lit ''a'') (PDict [(lit ''x'', PNone)]) example_service = (Inr pinned, s1)"
      and 2: "recover_session toy_ratchet_lib example_lib (lit ''a'') (PDict [(lit ''x'', PNone)]) s1 = (x, s2)"
      and 3: "case x of Inl e \<Rightarrow> r = Inl e \<and> t = s2
       | Inr _ \<Rightarrow> (r, t) = (case svc_sessions s2 (lit ''a'') of
            None \<Rightarrow> decrypt_first toy_ratchet_lib example_lib (lit ''a'') example_identity example_store [] [97]
              (PDict [(lit ''x'', PNone)]) (PStr []) pinned s2
          | Some e \<Rightarrow> decrypt_next toy_ratchet_lib example_lib (lit ''a'') e [] [97] (PStr []) s2)" by blast
    have "svc_sessions s1 (lit ''a'') = None" using reset_by_peer_sessions [OF 1] by simp
    with 2 have "x = Inr ()" "svc_sessions s2 (lit ''a'') = None" by (simp_all add: recover_session_def)
    with 3 show ?thesis by (simp add: decrypt_first_def ib_from_dict_def hex_field_def)
  qed
  moreover have "disk_ok example_lib example_store (svc_world example_service)"
    by (simp add: example_service_def new_service_def disk_ok_def quiet_def example_world_def example_store_def)
  moreover have "state_exists (lit ''a'') (svc_world example_service)" "state_exists (meta_key (lit ''a'')) (svc_world example_service)"
    by (simp_all add: example_service_def new_service_def state_exists_def file_exists_def)
  moreover have "truthy (PDict [(lit ''x'', PNone)])" by simp
  ultimately show ?thesis
    using h failed_reinitiation_forgets_pin [of toy_ratchet_lib example_lib ?p example_service, OF _ p(1) a p(2) s(1,2) p(3,4) _ s(3)]
      s(3) example_conversation_ok by fastforce
qed

end
