(* ===== verification/Service_Conversation.thy ===== *)
theory Service_Conversation
  imports Service_Auth Channel
begin

text \<open>
  Two services in a whole conversation: the handshake, any messages of either side and
  restarts of either process, as the client and the server relay them; and what a replay
  of the first message does.
\<close>

section \<open>Runs of two services\<close>

text \<open>
  A message is encrypted by one service and its answer handed to the other; a restart is
  a new process on the same disk that is unlocked with the same password.
\<close>

datatype relay_event = Relay (by_first: bool) (relayed_text: pystr) (addressee: pystr) | Reboot (of_first: bool)

definition relay ::
    "'r ratchet_lib \<Rightarrow> crypto \<Rightarrow> pystr \<Rightarrow> pystr \<Rightarrow> pystr \<Rightarrow> 'r service \<Rightarrow> 'r service \<Rightarrow>
      pydict res \<times> 'r service \<times> 'r service" where
  "relay R L cid txt recipient X Y =
     (case encrypt_message R L (send_params cid txt recipient) X of
        (Inl e, X') \<Rightarrow> (Inl e, X', Y)
      | (Inr answer, X') \<Rightarrow> (case decrypt_message R L (receive_params cid answer) Y of (r, Y') \<Rightarrow> (r, X', Y')))"

fun relay_step ::
    "host \<Rightarrow> 'r ratchet_lib \<Rightarrow> crypto \<Rightarrow> pystr \<Rightarrow> pystr \<Rightarrow> pystr \<Rightarrow> relay_event \<Rightarrow> 'r service \<times> 'r service \<Rightarrow>
      pydict res list \<times> 'r service \<times> 'r service" where
  "relay_step H R L cid pwx pwy (Relay True txt recipient) (X, Y) =
     (case relay R L cid txt recipient X Y of (r, X', Y') \<Rightarrow> ([r], X', Y'))"
| "relay_step H R L cid pwx pwy (Relay False txt recipient) (X, Y) =
     (case relay R L cid txt recipient Y X of (r, Y', X') \<Rightarrow> ([r], X', Y'))"
| "relay_step H R L cid pwx pwy (Reboot True) (X, Y) = ([], restart H L pwx X, Y)"
| "relay_step H R L cid pwx pwy (Reboot False) (X, Y) = ([], X, restart H L pwy Y)"

definition relays ::
    "host \<Rightarrow> 'r ratchet_lib \<Rightarrow> crypto \<Rightarrow> pystr \<Rightarrow> pystr \<Rightarrow> pystr \<Rightarrow> relay_event list \<Rightarrow> 'r service \<Rightarrow> 'r service \<Rightarrow>
      pydict res list \<times> 'r service \<times> 'r service" where
  "relays H R L cid pwx pwy es X Y = run_steps (relay_step H R L cid pwx pwy) es (X, Y)"

definition plain :: "pystr \<Rightarrow> pydict" where
  "plain txt = [(lit ''plaintext'', PStr txt)]"

fun relay_ok :: "relay_event \<Rightarrow> bool" where
  "relay_ok (Relay d txt recipient) = (encodable txt \<and> encodable recipient)"
| "relay_ok (Reboot d) = True"

definition messages_of :: "relay_event list \<Rightarrow> pystr list" where
  "messages_of es = concat (map (\<lambda>e. case e of Relay d txt recipient \<Rightarrow> [txt] | Reboot d \<Rightarrow> []) es)"

lemma messages_of_simps [simp]:
  "messages_of [] = []" "messages_of (Relay d txt recipient # es) = txt # messages_of es"
  "messages_of (Reboot d # es) = messages_of es"
  by (simp_all add: messages_of_def)

lemma relay_delivers:
  assumes "messaging_ok R L linked a b" "conversing R L linked (Suc k) cid pwx pwy X Y" "encodable txt" "encodable recipient"
  shows "\<exists>X' Y'. relay R L cid txt recipient X Y = (Inr (plain txt), X', Y') \<and> conversing R L linked k cid pwx pwy X' Y'"
proof -
  have "ratchet_correct L R linked" "ratchet_json_correct L R" "msgpack_correct L" "ed25519_correct L"
    using assms(1) by (simp_all add: messaging_ok_def)
  from service_step [OF this assms(2-4)] obtain answer X' Y' where
    "encrypt_message R L (send_params cid txt recipient) X = (Inr answer, X')"
    "decrypt_message R L (receive_params cid answer) Y = (Inr [(lit ''plaintext'', PStr txt)], Y')"
    "conversing R L linked k cid pwx pwy X' Y'" by (elim exE conjE) (rule that)
  then show ?thesis by (simp add: relay_def plain_def)
qed

lemma conversing_restart:
  "conversing R L linked k cid pwx pwy X Y \<Longrightarrow> conversing R L linked k cid pwx pwy (restart H L pwx X) Y"
proof -
  assume "conversing R L linked k cid pwx pwy X Y"
  then obtain a b stx sty rx ry where c: "side R L cid pwx a stx (sig_public_key (ik_sig b)) rx X"
    "side R L cid pwy b sty (sig_public_key (ik_sig a)) ry Y" "signing_ok L (ik_sig a)" "signing_ok L (ik_sig b)"
    "encodable (user_id a)" "encodable (user_id b)" "paired R L linked stx sty k (rx, svc_world X) (ry, svc_world Y)"
    unfolding conversing_def by (elim exE conjE) (rule that)
  note s = side_restart [OF c(1), of H]
  have "paired R L linked stx sty k (rx, svc_world (restart H L pwx X)) (ry, svc_world Y)"
    using c(7) s by (simp add: paired_def side_def)
  with s c show ?thesis unfolding conversing_def by blast
qed

text \<open>Two conversing services are a channel, in which a message costs one index of the budget.\<close>

definition relay_cost :: "relay_event \<Rightarrow> nat" where
  "relay_cost e = length (messages_of [e])"

definition services_linked ::
    "'r ratchet_lib \<Rightarrow> crypto \<Rightarrow> (nat \<Rightarrow> 'r \<Rightarrow> 'r \<Rightarrow> bool) \<Rightarrow> IdentityBundle \<Rightarrow> IdentityBundle \<Rightarrow> pystr \<Rightarrow> pystr \<Rightarrow> pystr \<Rightarrow> nat \<Rightarrow>
      'r service \<times> 'r service \<Rightarrow> bool" where
  "services_linked R L linked a b cid pwx pwy k = (\<lambda>(X, Y). messaging_ok R L linked a b \<and> conversing R L linked k cid pwx pwy X Y)"

interpretation service_channel: channel "relay_step H R L cid pwx pwy" "services_linked R L linked a b cid pwx pwy"
  relay_cost relay_ok "\<lambda>e. map (\<lambda>words. Inr (plain words)) (messages_of [e])" for H R L linked a b cid pwx pwy
proof
  fix e k p
  assume l: "services_linked R L linked a b cid pwx pwy (relay_cost e + k) p" and ok: "relay_ok e"
  obtain X Y where p: "p = (X, Y)" by (rule prod.exhaust)
  have m: "messaging_ok R L linked a b" and c: "conversing R L linked (relay_cost e + k) cid pwx pwy X Y"
    using l by (simp_all add: p services_linked_def)
  show "\<exists>q. relay_step H R L cid pwx pwy e p = (map (\<lambda>words. Inr (plain words)) (messages_of [e]), q) \<and>
      services_linked R L linked a b cid pwx pwy k q"
  proof (cases e)
    case r: (Relay d words recipient)
    have t: "encodable words" "encodable recipient" using ok r by simp_all
    have c: "conversing R L linked (Suc k) cid pwx pwy X Y" using c by (simp add: r relay_cost_def)
    show ?thesis
    proof (cases d)
      case True
      with relay_delivers [OF m c t] m show ?thesis by (auto simp: p r services_linked_def)
    next
      case False
      obtain X' Y' where "relay R L cid words recipient Y X = (Inr (plain words), Y', X')" "conversing R L linked k cid pwy pwx Y' X'"
        using relay_delivers [OF m conversing_sym [OF c] t] by (elim exE conjE) (rule that)
      with False m conversing_sym show ?thesis by (auto simp: p r services_linked_def)
    qed
  next
    case r: (Reboot d)
    have c: "conversing R L linked k cid pwx pwy X Y" using c by (simp add: r relay_cost_def)
    show ?thesis
    proof (cases d)
      case True
      with conversing_restart [OF c] m show ?thesis by (auto simp: p r services_linked_def)
    next
      case False
      with conversing_sym [OF conversing_restart [OF conversing_sym [OF c]]] m show ?thesis
        by (auto simp: p r services_linked_def)
    qed
  qed
qed

lemma relays_deliver:
  assumes "messaging_ok R L linked a b" "conversing R L linked (length (messages_of es) + k) cid pwx pwy X Y" "list_all relay_ok es"
  shows "\<exists>X' Y'. relays H R L cid pwx pwy es X Y = (map (\<lambda>words. Inr (plain words)) (messages_of es), X', Y') \<and>
    conversing R L linked k cid pwx pwy X' Y'"
proof -
  have cost: "sum_list (map relay_cost es) = length (messages_of es)"
    by (induction es) (simp_all add: relay_cost_def messages_of_def)
  have texts: "concat (map (\<lambda>e. map (\<lambda>words. Inr (plain words)) (messages_of [e])) es) = map (\<lambda>words. Inr (plain words)) (messages_of es)"
    by (induction es) (simp_all add: messages_of_def)
  have "services_linked R L linked a b cid pwx pwy (sum_list (map relay_cost es) + k) (X, Y)"
    using assms by (simp add: services_linked_def cost)
  from service_channel.run_delivers [OF this assms(3), of H] show ?thesis
    unfolding texts by (auto simp: relays_def services_linked_def)
qed

text \<open>
  C1: two services deliver a whole conversation. Let both be unlocked from their
  keystores. The first initiates with the other's public bundle and sends a first message;
  the other, from nothing but the answer relayed to it, returns its text. After that any
  sequence of messages of either side and of restarts of either process (up to
  $2^{32} - 2$ messages) returns every text exactly as sent, in order, with no request
  failing.
\<close>

theorem services_converse:
  assumes "messaging_ok R L linked a b" "to_public_bundle L b = Inr p" "unlocked L pwx a stx X" "unlocked L pwy b sty Y"
    and "conversation_ok cid" "svc_sessions Y cid = None" "svc_pending_sessions Y cid = None"
    and "encodable txt" "encodable recipient" "list_all relay_ok es" "length (messages_of es) \<le> 2 ^ 32 - 2"
  shows "\<exists>r1 X1 X2 Y2 end.
    initiate_session L (initiate_params cid p) X = (Inr r1, X1) \<and>
    relay R L cid txt recipient X1 Y = (Inr (plain txt), X2, Y2) \<and>
    relays H R L cid pwx pwy es X2 Y2 = (map (\<lambda>t. Inr (plain t)) (messages_of es), end)"
proof -
  obtain r1 X1 answer X2 Y2 where f: "initiate_session L (initiate_params cid p) X = (Inr r1, X1)"
    "encrypt_message R L (send_params cid txt recipient) X1 = (Inr answer, X2)"
    "decrypt_message R L (receive_params cid answer) Y = (Inr [(lit ''plaintext'', PStr txt)], Y2)"
    "conversing R L linked budget cid pwx pwy X2 Y2"
    using first_exchange [OF assms(1-9)] by (elim exE conjE) (rule that)
  have "budget = length (messages_of es) + (budget - length (messages_of es))" using assms(11) by (simp add: budget_def)
  with f(4) have "conversing R L linked (length (messages_of es) + (budget - length (messages_of es))) cid pwx pwy X2 Y2" by simp
  from relays_deliver [OF assms(1) this assms(10), of H] f(1-3) show ?thesis by (auto simp: relay_def plain_def)
qed

theorem services_converse_witness:
  "\<exists>b p X r1 X1 X2 Y2 end.
    initiate_session example_lib (initiate_params (lit ''a'') p) X = (Inr r1, X1) \<and>
    relay toy_ratchet_lib example_lib (lit ''a'') (lit ''hi'') [] X1 X = (Inr (plain (lit ''hi'')), X2, Y2) \<and>
    relays example_host toy_ratchet_lib example_lib (lit ''a'') example_password example_password
      [Reboot False, Relay False (lit ''x'') [], Reboot True, Relay True (lit ''y'') []] X2 Y2 =
      ([Inr (plain (lit ''x'')), Inr (plain (lit ''y''))], end) \<and> svc_local_bundle X = Some b"
proof -
  obtain b and s :: "toy_ratchet service" where e: "messaging_ok toy_ratchet_lib example_lib toy_linked b b"
    "unlocked example_lib example_password b example_store s" "svc_sessions s (lit ''a'') = None"
    "svc_pending_sessions s (lit ''a'') = None" using example_unlocked by blast
  obtain p where p: "to_public_bundle example_lib b = Inr p"
    using e(1) bundle_ok_ids [of example_lib b] by (auto simp: messaging_ok_def parties_ok_def to_public_bundle_def)
  have t: "encodable (lit ''hi'')" "encodable []"
    "list_all relay_ok [Reboot False, Relay False (lit ''x'') [], Reboot True, Relay True (lit ''y'') []]"
    by (simp_all add: encodable_scalar lit_scalar)
  from services_converse [OF e(1) p e(2,2) example_conversation_ok e(3,4) t, of example_host] e(2)
  show ?thesis by (simp add: unlocked_def) blast
qed

section \<open>Replays of the first message\<close>

lemma respond_without_prekey:
  assumes "respond L b ib xs ks = Inr SK" "ib_opk_id ib = PInt i" "xs' i = None"
    and "ik_classical b' = ik_classical b" "spk b' = spk b"
  shows "respond L b' ib xs' ks' = Inl (PQXDHError ''X25519 OPK not found'')"
  using assms by (auto simp: respond_def Let_def bindR_Inr_iff)

lemma without_opk_store: "x25519_opk_store (without_opk (PInt i) b) i = None"
  by (auto simp: x25519_opk_store_def without_opk_def map_of_eq_None_iff)

lemma replay_refused:
  assumes "utf8_encode cid = Inr aad" "svc_local_bundle Z = Some b" "svc_store Z \<noteq> None"
    and "respond L b ib (x25519_opk_store b) (kem_opk_store b) = Inl e"
    and "answer = [(lit ''ciphertext'', PHex payload), (lit ''nonce'', nonce),
      (lit ''initiation_bundle'', PDict (ib_to_dict ib)), (lit ''sender_ik_sig_pub'', PHex pub)]"
  shows "\<exists>Z'. decrypt_message R L (receive_params cid answer) Z = (Inl e, Z') \<and> svc_sessions Z' cid = None"
proof -
  let ?ib = "PDict (ib_to_dict ib)" and ?q = "receive_params cid answer"
  obtain st where st: "svc_store Z = Some st" using assms(3) by blast
  have p: "param_str ?q ''conversation_id'' = Inr cid" "bindR (param ?q ''ciphertext'') fromhex_val = Inr payload"
    "param_get ?q ''initiation_bundle'' PNone = Inr ?ib" "param_get ?q ''sender_ik_sig_pub'' (PStr []) = Inr (PHex pub)"
    by (simp_all add: assms(5) receive_params_def param_str_def param_def param_get_def)
  obtain q t where h: "decrypt_message R L ?q Z = (q, t)" by (rule prod.exhaust)
  from decrypt_message_cases [OF h p(1) assms(1) p(2) assms(2) st p(3,4)] obtain s1 pinned x s2 where
    1: "reset_by_peer cid ?ib Z = (Inr pinned, s1)" and 2: "recover_session R L cid ?ib s1 = (x, s2)"
    and 3: "case x of Inl e \<Rightarrow> q = Inl e \<and> t = s2
       | Inr _ \<Rightarrow> (q, t) = (case svc_sessions s2 cid of
            None \<Rightarrow> decrypt_first R L cid b st payload aad ?ib (PHex pub) pinned s2
          | Some e \<Rightarrow> decrypt_next R L cid e payload aad (PHex pub) s2)" by blast
  have "x = Inr ()" "s2 = s1" "svc_sessions s1 cid = None"
    using 2 reset_by_peer_sessions [OF 1] ib_to_dict_truthy [of ib] by (simp_all add: recover_session_def)
  with 3 h assms(4) ib_to_dict_truthy [of ib] initiation.dec_enc [of ib] show ?thesis
    by (simp add: decrypt_first_def load_opk_secrets_def)
qed

text \<open>
  C11: a one-time prekey serves one handshake. When the first message used a prekey pair,
  the receiving service has removed exactly that pair from the identity in memory and from
  the stored one. From then on the same answer, replayed in any state with that identity,
  is refused because the prekey is gone. (It still costs the receiver the session in
  memory, which is dropped before the handshake is tried.)
\<close>

theorem replayed_first_message:
  assumes "messaging_ok R L linked a b" "to_public_bundle L b = Inr p" "unlocked L pwx a stx X" "unlocked L pwy b sty Y"
    and "conversation_ok cid" "svc_sessions Y cid = None" "svc_pending_sessions Y cid = None"
    and "encodable txt" "encodable recipient" "x25519_opks b = opk # opks"
  shows "\<exists>r1 X1 answer X2 Y2 b'.
    initiate_session L (initiate_params cid p) X = (Inr r1, X1) \<and>
    encrypt_message R L (send_params cid txt recipient) X1 = (Inr answer, X2) \<and>
    decrypt_message R L (receive_params cid answer) Y = (Inr (plain txt), Y2) \<and>
    unlocked L pwy b' sty Y2 \<and> x25519_opks b' = opks \<and> map kopk_id (kem_opks b') = map xopk_id opks \<and>
    (\<forall>Z. svc_local_bundle Z = Some b' \<longrightarrow> svc_store Z \<noteq> None \<longrightarrow>
      (\<exists>Z'. decrypt_message R L (receive_params cid answer) Z = (Inl (PQXDHError ''X25519 OPK not found''), Z') \<and>
        svc_sessions Z' cid = None))"
proof -
  obtain r1 X1 answer X2 Y2 ib payload nonce SK where f: "initiate_session L (initiate_params cid p) X = (Inr r1, X1)"
    "encrypt_message R L (send_params cid txt recipient) X1 = (Inr answer, X2)"
    "decrypt_message R L (receive_params cid answer) Y = (Inr [(lit ''plaintext'', PStr txt)], Y2)"
    "unlocked L pwy (opk_used b) sty Y2" "answer = [(lit ''ciphertext'', PHex payload), (lit ''nonce'', nonce),
      (lit ''initiation_bundle'', PDict (ib_to_dict ib)), (lit ''sender_ik_sig_pub'', PHex (sig_public_key (ik_sig a)))]"
    "ib_opk_id ib = (case x25519_opks b of [] \<Rightarrow> PNone | x # _ \<Rightarrow> PInt (xopk_id x))"
    "respond L b ib (x25519_opk_store b) (kem_opk_store b) = Inr SK"
    using first_exchange [OF assms(1-9)] by (elim exE conjE) (rule that)
  let ?b = "opk_used b"
  have i: "ib_opk_id ib = PInt (xopk_id opk)" and u: "?b = without_opk (PInt (xopk_id opk)) b"
    using f(6) assms(10) by (simp_all add: opk_used_def)
  have "bundle_ok L b" using assms(1) by (simp add: messaging_ok_def parties_ok_def)
  then have d: "distinct (map xopk_id (opk # opks))" "map xopk_id (opk # opks) = map kopk_id (kem_opks b)"
    using assms(10) unfolding bundle_ok_def by metis+
  have x: "x25519_opks ?b = opks" using d(1) assms(10) by (auto simp: u without_opk_def filter_id_conv image_iff)
  have "paired_opks ?b" unfolding u by (rule without_opk_paired) (use d(2) assms(10) in \<open>simp add: paired_opks_def\<close>)
  with x have k: "map kopk_id (kem_opks ?b) = map xopk_id opks" by (simp add: paired_opks_def)
  have r: "respond L ?b ib (x25519_opk_store ?b) ks = Inl (PQXDHError ''X25519 OPK not found'')" for ks
    unfolding u by (rule respond_without_prekey [OF f(7) i without_opk_store]) (simp_all add: without_opk_def)
  obtain aad where aad: "utf8_encode cid = Inr aad"
    using utf8_encodable [of cid] assms(5) by (auto simp: conversation_ok_def)
  have "\<exists>Z'. decrypt_message R L (receive_params cid answer) Z = (Inl (PQXDHError ''X25519 OPK not found''), Z') \<and>
        svc_sessions Z' cid = None" if Z: "svc_local_bundle Z = Some ?b" "svc_store Z \<noteq> None" for Z
    by (rule replay_refused [OF aad Z r]) (simp add: f(5))
  with f(1-4) x k show ?thesis unfolding plain_def by blast
qed

theorem replayed_first_message_witness:
  "\<exists>b p s r1 X1 answer X2 Y2 Z. initiate_session example_lib (initiate_params (lit ''a'') p) s = (Inr r1, X1) \<and>
    encrypt_message toy_ratchet_lib example_lib (send_params (lit ''a'') (lit ''hi'') []) X1 = (Inr answer, X2) \<and>
    decrypt_message toy_ratchet_lib example_lib (receive_params (lit ''a'') answer) s = (Inr (plain (lit ''hi'')), Y2) \<and>
    decrypt_message toy_ratchet_lib example_lib (receive_params (lit ''a'') answer) Y2 =
      (Inl (PQXDHError ''X25519 OPK not found''), Z) \<and> svc_local_bundle s = Some b"
proof -
  obtain b and s :: "toy_ratchet service" where e: "messaging_ok toy_ratchet_lib example_lib toy_linked b b"
    "unlocked example_lib example_password b example_store s" "svc_sessions s (lit ''a'') = None"
    "svc_pending_sessions s (lit ''a'') = None" "map xopk_id (x25519_opks b) = [1]"
    using example_unlocked by (elim exE conjE) (rule that; assumption)
  obtain opk where o: "x25519_opks b = [opk]" using e(5) by auto
  obtain p where p: "to_public_bundle example_lib b = Inr p"
    using e(1) bundle_ok_ids [of example_lib b] by (auto simp: messaging_ok_def parties_ok_def to_public_bundle_def)
  have t: "encodable (lit ''hi'')" "encodable []" by (simp_all add: encodable_scalar lit_scalar)
  obtain r1 X1 answer X2 Y2 b' where f: "initiate_session example_lib (initiate_params (lit ''a'') p) s = (Inr r1, X1)"
    "encrypt_message toy_ratchet_lib example_lib (send_params (lit ''a'') (lit ''hi'') []) X1 = (Inr answer, X2)"
    "decrypt_message toy_ratchet_lib example_lib (receive_params (lit ''a'') answer) s = (Inr (plain (lit ''hi'')), Y2)"
    "unlocked example_lib example_password b' example_store Y2"
    "\<forall>Z. svc_local_bundle Z = Some b' \<longrightarrow> svc_store Z \<noteq> None \<longrightarrow>
      (\<exists>Z'. decrypt_message toy_ratchet_lib example_lib (receive_params (lit ''a'') answer) Z =
        (Inl (PQXDHError ''X25519 OPK not found''), Z') \<and> svc_sessions Z' (lit ''a'') = None)"
    using replayed_first_message [OF e(1) p e(2,2) example_conversation_ok e(3,4) t o] by (elim exE conjE) (rule that)
  have "svc_local_bundle Y2 = Some b'" "svc_store Y2 \<noteq> None" "svc_local_bundle s = Some b"
    using f(4) e(2) by (simp_all add: unlocked_def)
  with f show ?thesis by blast
qed

end
