(* ===== verification/Service_Login.thy ===== *)
theory Service_Login
  imports Service_Auth
begin

text \<open>
  Registration and login of crypto_service.py from end to end: what registration stores
  and sends, unlocking in a new process, and the three SRP requests against a conforming
  server that holds the registered salt and verifier, followed by unlocking with the key
  that the login derived.
\<close>

section \<open>Registration\<close>

lemma registered_keystore:
  assumes "registered L username pw nonce answer b st salt vb t" "pw \<noteq> []" "x25519_correct L"
  shows "keystore_for L pw b st (svc_world t)"
  using assms bundle_ok_loadable [OF assms(3), of b]
  by (auto simp: registered_def keystore_for_def derives_def)

text \<open>The password can be hashed: it is text, and Argon2 gets the memory it asks for.\<close>

definition argon2_runs :: "crypto \<Rightarrow> pystr \<Rightarrow> bool" where
  "argon2_runs L pw \<longleftrightarrow> argon2_correct L \<and> (\<exists>secret. utf8_encode pw = Inr secret \<and>
     (\<forall>salt. \<exists>k. argon2id_raw L secret salt ARGON2_TIME_COST ARGON2_MEMORY_COST ARGON2_PARALLELISM ARGON2_HASH_LEN = Inr k))"

lemma derive_total:
  assumes "argon2_runs L pw" "hkdf_correct L" "length salt = ARGON2_SALT_LEN"
  shows "\<exists>sp key. derive_master_components L pw (Some salt) t = (Inr (sp, key, salt), t)"
proof -
  obtain secret k where k: "utf8_encode pw = Inr secret"
    "argon2id_raw L secret salt ARGON2_TIME_COST ARGON2_MEMORY_COST ARGON2_PARALLELISM ARGON2_HASH_LEN = Inr k"
    using assms(1) unfolding argon2_runs_def by blast
  then have "length k = ARGON2_HASH_LEN" using assms(1) unfolding argon2_runs_def argon2_correct_def by blast
  then have ne: "k \<noteq> []" "salt \<noteq> []" using assms(3) by (auto simp: length_constants)
  have n: "(0 :: int) < 32" "(32 :: int) \<le> 8160" by simp_all
  obtain sp where sp: "hkdf_derive L k salt INFO_SRP_AUTH 32 = Inr sp"
    using hkdf_derive_total [OF assms(2) ne _ n, of INFO_SRP_AUTH] by (auto simp: info_defs)
  obtain key where "hkdf_derive L k salt INFO_LOCAL_KEY_ENC 32 = Inr key"
    using hkdf_derive_total [OF assms(2) ne _ n, of INFO_LOCAL_KEY_ENC] by (auto simp: info_defs)
  with k sp assms(3) show ?thesis by (simp add: derive_master_components_def argon2id_derive_key_def)
qed

lemma verifier_total:
  assumes "encodable username"
  shows "\<exists>vb. create_srp_verifier L username (hex sp) salt = Inr vb"
proof -
  have "encodable (username @ lit '':'' @ hex sp)"
    using assms by (simp add: encodable_scalar lit_scalar hex_scalar)
  then show ?thesis using srp_pad_pow_mod
    by (auto simp: encodable_def create_srp_verifier_def srp_pad_def Let_def)
qed

lemma store_identity_total:
  assumes "quiet (svc_world s)" "aead_correct L" "length salt = ARGON2_SALT_LEN" "length key = 32"
    and "encodable (user_id b)" "paired_opks b"
  shows "\<exists>d t. store_identity H L key salt b answer s = (Inr d, t)"
proof -
  obtain r w where c: "create_with_key key salt (svc_world s) = (r, w)" by (rule prod.exhaust)
  from create_with_key_cases [OF c assms(1,3)] show ?thesis
  proof (elim disjE conjE)
    assume "r = Inl FileExistsError"
    with c show ?thesis by (simp add: store_identity_def bindE_def tryE_def on_disk_sel)
  next
    assume r: "r = Inr \<lparr>enc_key = key\<rparr>" "quiet w"
    then have "disk_ok L \<lparr>enc_key = key\<rparr> w" using assms(2,4) by (simp add: disk_ok_def)
    from save_identity [OF assms(6,5) this] c r(1) show ?thesis
      by (auto simp: store_identity_def bindE_def tryE_def on_disk_sel)
  qed
qed

lemma registration_total:
  assumes "quiet (svc_world s)" "encodable username" "argon2_runs L pw" "aead_correct L"
    and "x25519_correct L" "kem_correct L" "ed25519_correct L" "dsa_correct L" "hkdf_correct L"
  shows "\<exists>answer t. generate_identity_bundle_request H L (register_params username pw nonce) s = (Inr answer, t)"
proof -
  obtain salt u1 where sa: "urandom ARGON2_SALT_LEN (tape (svc_world s)) = (salt, u1)" by (rule prod.exhaust)
  have l: "length salt = ARGON2_SALT_LEN" by (rule urandom_length [OF sa])
  obtain sp key where dm: "derive_master_components L pw (Some salt) u1 = (Inr (sp, key, salt), u1)"
    using derive_total [OF assms(3,9) l, of u1] by (elim exE) (rule that)
  have key: "length key = 32" using master_components_key_length [OF assms(9) dm] by simp
  obtain b u2 where b: "generate_identity_bundle L username OPK_COUNT u1 = (Inr b, u2)" "bundle_ok L b" "user_id b = username"
    using generate_identity_bundle_bundle_ok [OF assms(5-8), of username OPK_COUNT u1] by (elim exE conjE) (rule that)
  note sg = bundle_ok_parts(1) [OF b(2)]
  obtain n1 u3 where n1: "hybrid_sign L (ik_sig b) nonce u2 = (Inr n1, u3)"
    using hybrid_sign_verifies [OF assms(7) sg, of nonce u2] by (elim exE conjE) (rule that)
  obtain n2 u4 where n2: "hybrid_sign L (ik_sig b) (public_key_bytes L (spk_keypair (spk b))) u3 = (Inr n2, u4)"
    using hybrid_sign_verifies [OF assms(7) sg, of "public_key_bytes L (spk_keypair (spk b))" u3] by (elim exE conjE) (rule that)
  obtain vb where vb: "create_srp_verifier L username (hex sp) salt = Inr vb" using verifier_total [OF assms(2)] by blast
  have e: "encodable (user_id b)" and p: "paired_opks b" using assms(2) b(2,3) by (simp_all add: bundle_ok_def paired_opks_def)
  have q: "quiet (svc_world (s\<lparr>svc_world := (svc_world s)\<lparr>tape := u4\<rparr>\<rparr>))" using assms(1) by (simp add: quiet_def)
  show ?thesis
    using sa dm b(1) n1 n2 vb store_identity_total [OF q assms(4) l key e p]
    by (simp add: generate_identity_bundle_request_def register_params_def param_str_def param_def on_entropy_sel drawE_def)
qed

text \<open>
  C10: registration creates a keystore that the password opens again. On a disk that
  completes its writes \<open>generate_identity_bundle\<close> answers. If a keystore existed, the
  request is refused with disk and service as they were. Otherwise there is now one: the
  generated identity is well formed and in use; its public keys, the signatures over the
  server's nonce and over the prekey, and the SRP salt and verifier are in the answer; and
  a new process on this disk, unlocked with the same password, has the same store and the
  same identity.
\<close>

theorem registration_reopens:
  assumes "quiet (svc_world s)" "encodable username" "argon2_runs L pw" "pw \<noteq> []" "aead_correct L"
    and "x25519_correct L" "kem_correct L" "ed25519_correct L" "dsa_correct L" "hkdf_correct L"
  shows "\<exists>answer t. generate_identity_bundle_request H L (register_params username pw nonce) s = (Inr answer, t) \<and>
    (if salt_file (svc_world s) \<noteq> None
     then (\<exists>m. answer = failure m) \<and> (\<exists>u. t = s\<lparr>svc_world := (svc_world s)\<lparr>tape := u, base_exists := True\<rparr>\<rparr>)
     else \<exists>b st salt vb. registered L username pw nonce answer b st salt vb t \<and>
       unlock_keystore H L (unlock_params pw) (new_service (svc_world t)) =
         (Inr [(lit ''success'', PBool True)], (restart H L pw t)) \<and>
       svc_store (restart H L pw t) = Some st \<and> svc_local_bundle (restart H L pw t) = Some b)"
proof -
  obtain answer t where g: "generate_identity_bundle_request H L (register_params username pw nonce) s = (Inr answer, t)"
    using registration_total [OF assms(1-3,5-10), of H nonce] by (elim exE) (rule that)
  note run = registration_run [OF g assms(1,2,5-10)]
  show ?thesis
  proof (cases "salt_file (svc_world s)")
    case None
    with run obtain b st salt vb where r: "registered L username pw nonce answer b st salt vb t" by auto
    have "unlock_keystore H L (unlock_params pw) (new_service (svc_world t)) =
         (Inr [(lit ''success'', PBool True)], (restart H L pw t)) \<and>
       svc_store (restart H L pw t) = Some st \<and> svc_local_bundle (restart H L pw t) = Some b"
      unfolding restart_def unlock_run [OF registered_keystore [OF r assms(4,6)]] by simp
    with g r None show ?thesis by auto
  next
    case (Some x)
    with run g show ?thesis by auto
  qed
qed

lemma example_argon2_runs: "argon2_runs example_lib example_password"
  by (simp add: argon2_runs_def example_lib_sel example_password_def utf8_char_def)

theorem registration_reopens_witness:
  "\<exists>answer t b st salt vb. generate_identity_bundle_request example_host example_lib
      (register_params (lit ''u'') example_password [1]) (new_service example_world :: toy_ratchet service) = (Inr answer, t) \<and>
    registered example_lib (lit ''u'') example_password [1] answer b st salt vb t \<and>
    svc_local_bundle (restart example_host example_lib example_password t) = Some b"
proof -
  have p: "quiet (svc_world (new_service example_world :: toy_ratchet service))" "encodable (lit ''u'')" "example_password \<noteq> []"
    "salt_file (svc_world (new_service example_world :: toy_ratchet service)) = None"
    by (simp_all add: new_service_def quiet_def example_world_def encodable_scalar lit_scalar example_password_def)
  obtain answer t where g: "generate_identity_bundle_request example_host example_lib
      (register_params (lit ''u'') example_password [1]) (new_service example_world :: toy_ratchet service) = (Inr answer, t)"
    and h: "if salt_file (svc_world (new_service example_world :: toy_ratchet service)) \<noteq> None
     then (\<exists>m. answer = failure m) \<and> (\<exists>u. t = (new_service example_world)\<lparr>svc_world :=
       (svc_world (new_service example_world :: toy_ratchet service))\<lparr>tape := u, base_exists := True\<rparr>\<rparr>)
     else \<exists>b st salt vb. registered example_lib (lit ''u'') example_password [1] answer b st salt vb t \<and>
       unlock_keystore example_host example_lib (unlock_params example_password) (new_service (svc_world t)) =
         (Inr [(lit ''success'', PBool True)], (restart example_host example_lib example_password t)) \<and>
       svc_store (restart example_host example_lib example_password t) = Some st \<and>
       svc_local_bundle (restart example_host example_lib example_password t) = Some b"
    using registration_reopens [OF p(1,2) example_argon2_runs p(3) example_aead_correct example_x25519_correct example_kem_correct
        example_ed25519_correct example_dsa_correct example_hkdf_correct, of example_host "[1]"] by (elim exE conjE) (rule that)
  from h p(4) obtain b st salt vb where "registered example_lib (lit ''u'') example_password [1] answer b st salt vb t"
    "svc_local_bundle (restart example_host example_lib example_password t) = Some b" by (simp only: if_not_P simp_thms) blast
  with g show ?thesis by blast
qed

section \<open>Login\<close>

lemma verifier_server:
  assumes "create_srp_verifier L username p salt = Inr vb"
  shows "server_verifier L username p salt = Inr (from_bytes_big vb)"
proof -
  obtain up where up: "utf8_encode (username @ lit '':'' @ p) = Inr up"
    and v: "to_bytes_big N_BYTES (pow_mod srp_g (from_bytes_big (digest L [salt, digest L [up]])) srp_N) = Inr vb"
    using assms by (auto simp: create_srp_verifier_def bindR_Inr_iff Let_def)
  from from_to_bytes_big [OF v] up show ?thesis by (simp add: server_verifier_def srp_x_def pow_mod_eq)
qed

definition login_params :: "pystr \<Rightarrow> pystr \<Rightarrow> pyval" where
  "login_params username pw = PDict [(lit ''username'', PStr username), (lit ''password'', PStr pw)]"

definition challenge_params :: "bytes \<Rightarrow> bytes \<Rightarrow> pyval" where
  "challenge_params salt B = PDict [(lit ''salt'', PHex salt), (lit ''B'', PHex B)]"

definition proof_params :: "bytes \<Rightarrow> pyval" where
  "proof_params M2 = PDict [(lit ''M2'', PHex M2)]"

lemma srp_start_run:
  "\<exists>x Ah u. srp_start L (login_params username pw) c = (Inr [(lit ''A'', PStr Ah)],
      c\<lparr>svc_srp_session := Some x, svc_pending_password := Some pw, svc_pending_keystore_key := None,
        svc_cached_keystore_key := None, svc_world := (svc_world c)\<lparr>tape := u\<rparr>\<rparr>) \<and>
    srp_wf x \<and> srp_username x = username \<and> A_hex x = Inr Ah"
proof -
  obtain x u where x: "new_srp_session username [] (tape (svc_world c)) = (Inr x, u)"
    by (cases "urandom 32 (tape (svc_world c))") (simp add: new_srp_session_def drawE_def bindE_def Let_def)
  note w = new_srp_session_wf [OF x]
  obtain Ah where "A_hex x = Inr Ah" using srp_minimal_A [of x] w by (auto simp: A_hex_def)
  with x w show ?thesis
    by (intro exI [of _ x] exI [of _ Ah] exI [of _ u])
      (simp add: srp_start_def login_params_def param_str_def param_def on_entropy_sel)
qed

lemma on_srp_sel:
  "svc_srp_session s = Some x \<Longrightarrow> on_srp m s = (case m x of (r, y) \<Rightarrow> (r, s\<lparr>svc_srp_session := Some y\<rparr>))"
  by (simp add: on_srp_def zoomE_def)

lemma srp_challenge_run:
  assumes "svc_srp_session c = Some x" "svc_pending_password c = Some pw"
    and "\<And>t. derive_master_components L pw (Some salt) t = (Inr (sp, key, salt), t)"
    and "process_challenge L (PHex salt) (PHex B) (set_password (hex sp) x) = (Inr M1, y)"
  shows "srp_challenge L (challenge_params salt B) c = (Inr [(lit ''M1'', PStr M1)],
    c\<lparr>svc_pending_password := None, svc_pending_keystore_key := Some key, svc_srp_session := Some y\<rparr>)"
  using assms
  by (simp add: srp_challenge_def challenge_params_def param_def finallyE_def on_entropy_sel on_srp_sel)

lemma srp_verify_run:
  assumes "svc_srp_session c = Some y" "svc_pending_keystore_key c = Some key"
    and "verify_server y (PHex M2)" "session_key_hex y = Inr K"
  shows "srp_verify (proof_params M2) c =
    (Inr [(lit ''authenticated'', PBool True), (lit ''session_key'', PStr K)],
     c\<lparr>svc_srp_session := None, svc_pending_password := None, svc_cached_keystore_key := Some key,
       svc_pending_keystore_key := None\<rparr>)"
  using assms by (simp add: srp_verify_def proof_params_def param_def Let_def)

lemma unlock_cached_run:
  assumes "keystore_for L pw b st (svc_world s)" "svc_cached_keystore_key s = Some (enc_key st)" "pw' \<noteq> []"
  shows "unlock_keystore H L (unlock_params pw') s =
    (Inr [(lit ''success'', PBool True)],
     s\<lparr>svc_store := Some st, svc_local_bundle := Some b, svc_cached_keystore_key := None,
       svc_world := (svc_world s)\<lparr>base_exists := True\<rparr>\<rparr>)"
proof -
  let ?w = "svc_world s"
  obtain salt d where k: "salt_file ?w = Some salt" "length salt = ARGON2_SALT_LEN"
    "to_private_bundle L b = Inr d" "load_state L st BUNDLE_KEY ?w = (Inr (PDict d), ?w)" "bundle_loadable L b"
    using assms(1) by (auto simp: keystore_for_def derives_def)
  let ?w' = "?w\<lparr>base_exists := True\<rparr>"
  have l: "load_state L st BUNDLE_KEY ?w' = (Inr (PDict d), ?w')"
    by (rule load_state_same [OF k(4)]) (simp add: load_state_eq)
  have b: "from_private_bundle L d = Inr b" using private_bundle.dec_enc [OF k(5,3)] by simp
  obtain key where st: "st = \<lparr>enc_key = key\<rparr>" by (rule StateStore.cases)
  show ?thesis
    using k(1,2) l b load_state_present [OF l] assms(2,3)
    by (simp add: st unlock_keystore_def unlock_params_def param_get_def on_disk_sel open_keystore_def
        load_with_key_def read_salt_def new_store_def tryE_def require_store_def forget_cached_key_def)
qed

text \<open>
  C3: the registered user logs in, and the login opens the keystore. After a registration,
  let the server hold the salt and the verifier of its answer, and let a process run on the
  same disk. \<open>srp_start\<close> answers; for a challenge of the server that the client need not
  refuse, \<open>srp_challenge\<close> answers with a proof that the server accepts, \<open>srp_verify\<close> with
  the server's proof answers with the key the server has, and \<open>unlock_keystore\<close> then opens
  the registered identity with the key that the login derived.
\<close>

theorem login_opens_keystore:
  assumes "registered L username pw nonce answer b st salt vb t" "pw \<noteq> []" "x25519_correct L"
    and "svc_world c = svc_world t" "server_challenge L (from_bytes_big vb) secret = Inr B"
    and "from_bytes_big B mod srp_N \<noteq> 0"
  shows "\<exists>x Ah c1. srp_start L (login_params username pw) c = (Inr [(lit ''A'', PStr Ah)], c1) \<and>
    svc_srp_session c1 = Some x \<and>
    (srp_u L (srp_A x) B \<noteq> 0 \<longrightarrow> (\<exists>M1 c2 K M2 c3 c4.
      srp_challenge L (challenge_params salt B) c1 = (Inr [(lit ''M1'', PStr M1)], c2) \<and>
      server_accept L username salt (from_bytes_big vb) secret B Ah M1 = Inr (Some (K, M2)) \<and>
      srp_verify (proof_params M2) c2 =
        (Inr [(lit ''authenticated'', PBool True), (lit ''session_key'', PHex K)], c3) \<and>
      unlock_keystore H L (unlock_params pw) c3 = (Inr [(lit ''success'', PBool True)], c4) \<and>
      svc_store c4 = Some st \<and> svc_local_bundle c4 = Some b))"
proof -
  obtain sp where sp: "\<And>u. derive_master_components L pw (Some salt) u = (Inr (sp, enc_key st, salt), u)"
    "create_srp_verifier L username (hex sp) salt = Inr vb" using assms(1) by (auto simp: registered_def)
  obtain x Ah u where st1: "srp_start L (login_params username pw) c = (Inr [(lit ''A'', PStr Ah)],
      c\<lparr>svc_srp_session := Some x, svc_pending_password := Some pw, svc_pending_keystore_key := None,
        svc_cached_keystore_key := None, svc_world := (svc_world c)\<lparr>tape := u\<rparr>\<rparr>)" (is "_ = (_, ?c1)")
    "srp_wf x" "srp_username x = username" "A_hex x = Inr Ah"
    using srp_start_run [of L username pw c] by (elim exE conjE) (rule that)
  have s: "srp_wf (set_password (hex sp) x)" "srp_username (set_password (hex sp) x) = username"
    "srp_password (set_password (hex sp) x) = hex sp" "srp_A (set_password (hex sp) x) = srp_A x"
    "A_hex (set_password (hex sp) x) = Inr Ah"
    using st1(2-4) by (simp_all add: set_password_def srp_wf_def A_hex_def)
  have later: "\<exists>M1 c2 K M2 c3 c4.
      srp_challenge L (challenge_params salt B) ?c1 = (Inr [(lit ''M1'', PStr M1)], c2) \<and>
      server_accept L username salt (from_bytes_big vb) secret B Ah M1 = Inr (Some (K, M2)) \<and>
      srp_verify (proof_params M2) c2 =
        (Inr [(lit ''authenticated'', PBool True), (lit ''session_key'', PHex K)], c3) \<and>
      unlock_keystore H L (unlock_params pw) c3 = (Inr [(lit ''success'', PBool True)], c4) \<and>
      svc_store c4 = Some st \<and> svc_local_bundle c4 = Some b" if u: "srp_u L (srp_A x) B \<noteq> 0"
  proof -
    have "srp_u L (srp_A (set_password (hex sp) x)) B \<noteq> 0" using u s(4) by simp
    from srp_exchange [OF s(1-3) verifier_server [OF sp(2)] assms(5,6) this] obtain M1 y K M2 where m:
      "process_challenge L (PHex salt) (PHex B) (set_password (hex sp) x) = (Inr M1, y)"
      "server_accept L username salt (from_bytes_big vb) secret B Ah M1 = Inr (Some (K, M2))"
      "session_key_hex y = Inr (hex K)" "\<forall>m. verify_server y m \<longleftrightarrow> fromhex_val m = Inr M2"
      using s(5) by auto
    have c1: "svc_srp_session ?c1 = Some x" "svc_pending_password ?c1 = Some pw" by simp_all
    note ch = srp_challenge_run [OF c1 sp(1) m(1)]
    let ?c2 = "?c1\<lparr>svc_pending_password := None, svc_pending_keystore_key := Some (enc_key st), svc_srp_session := Some y\<rparr>"
    let ?c3 = "?c2\<lparr>svc_srp_session := None, svc_pending_password := None, svc_cached_keystore_key := Some (enc_key st),
       svc_pending_keystore_key := None\<rparr>"
    have ve: "srp_verify (proof_params M2) ?c2 =
        (Inr [(lit ''authenticated'', PBool True), (lit ''session_key'', PHex K)], ?c3)"
      by (rule srp_verify_run) (use m(3,4) in simp_all)
    have "keystore_for L pw b st (svc_world ?c3)"
      using registered_keystore [OF assms(1-3)] assms(4) by (auto intro: keystore_writes [where I = "{}"])
    from unlock_cached_run [OF this _ assms(2), of H] ch ve m(2) show ?thesis by simp
  qed
  with st1(1) show ?thesis by auto
qed

text \<open>The library in which every SHA-256 value is 1 still has all the other laws.\<close>

lemma one_hash_laws:
  "aead_correct one_hash_lib" "x25519_correct one_hash_lib" "kem_correct one_hash_lib" "ed25519_correct one_hash_lib"
  "dsa_correct one_hash_lib" "hkdf_correct one_hash_lib" "argon2_runs one_hash_lib example_password"
proof -
  have "aead_correct one_hash_lib = aead_correct example_lib" by (simp add: aead_correct_def one_hash_lib_def)
  then show "aead_correct one_hash_lib" by simp
  have "x25519_correct one_hash_lib = x25519_correct example_lib" by (simp add: x25519_correct_def one_hash_lib_def)
  then show "x25519_correct one_hash_lib" by simp
  have "kem_correct one_hash_lib = kem_correct example_lib" by (simp add: kem_correct_def kem_pair_def one_hash_lib_def)
  then show "kem_correct one_hash_lib" by simp
  have "ed25519_correct one_hash_lib = ed25519_correct example_lib" by (simp add: ed25519_correct_def one_hash_lib_def)
  then show "ed25519_correct one_hash_lib" by simp
  have "dsa_correct one_hash_lib = dsa_correct example_lib" by (simp add: dsa_correct_def dsa_pair_def one_hash_lib_def)
  then show "dsa_correct one_hash_lib" by simp
  have h: "hkdf_sha256 one_hash_lib = hkdf_sha256 example_lib" by (simp add: one_hash_lib_def)
  have "hkdf_correct one_hash_lib = hkdf_correct example_lib" by (simp only: hkdf_correct_def h)
  then show "hkdf_correct one_hash_lib" by simp
  have a: "argon2id_raw one_hash_lib = argon2id_raw example_lib" by (simp add: one_hash_lib_def)
  have "argon2_runs one_hash_lib pw = argon2_runs example_lib pw" for pw
    by (simp only: argon2_runs_def argon2_correct_def a)
  then show "argon2_runs one_hash_lib example_password" using example_argon2_runs by simp
qed

lemma example_challenge: "\<exists>secret B. server_challenge one_hash_lib v secret = Inr B \<and> from_bytes_big B mod srp_N \<noteq> 0"
proof -
  obtain k where k: "srp_k one_hash_lib = Inr k" using srp_k_eq by blast
  define f where "f secret = (k * v + srp_g ^ secret mod srp_N) mod srp_N" for secret :: nat
  have n: "1 mod srp_N = 1" "5 mod srp_N = 5" "4 mod srp_N = 4" by (simp_all add: srp_N_def)
  have "f 0 \<noteq> 0 \<or> f 1 \<noteq> 0"
  proof (rule ccontr)
    assume "\<not> ?thesis"
    then have "(k * v + 5) mod srp_N = 0" "(k * v + 1) mod srp_N = 0" by (simp_all add: f_def srp_g_def n)
    then have "((k * v + 5) - (k * v + 1)) mod srp_N = 0" by (metis mod_diff_eq diff_self mod_0)
    then show False using n(3) by simp
  qed
  then obtain s where s: "f s \<noteq> 0" by blast
  let ?B = "be_bytes 384 (nat (f s))"
  have c: "server_challenge one_hash_lib v (int s) = Inr ?B" by (simp add: server_challenge_def k f_def)
  have "from_bytes_big ?B = f s"
  proof -
    have "srp_pad (f s) = Inr ?B" by (simp add: f_def)
    then show ?thesis unfolding srp_pad_def by (rule from_to_bytes_big)
  qed
  moreover have "f s mod srp_N = f s" by (simp add: f_def)
  ultimately have "from_bytes_big ?B mod srp_N \<noteq> 0" using s by simp
  with c show ?thesis by blast
qed

theorem login_opens_keystore_witness:
  "\<exists>(c :: toy_ratchet service) Ah c1 salt B M1 c2 M2 K c3 c4.
    srp_start one_hash_lib (login_params (lit ''u'') example_password) c = (Inr [(lit ''A'', PStr Ah)], c1) \<and>
    srp_challenge one_hash_lib (challenge_params salt B) c1 = (Inr [(lit ''M1'', PStr M1)], c2) \<and>
    srp_verify (proof_params M2) c2 =
      (Inr [(lit ''authenticated'', PBool True), (lit ''session_key'', PHex K)], c3) \<and>
    unlock_keystore example_host one_hash_lib (unlock_params example_password) c3 = (Inr [(lit ''success'', PBool True)], c4)"
proof -
  let ?s = "new_service example_world :: toy_ratchet service"
  have p: "quiet (svc_world ?s)" "encodable (lit ''u'')" "example_password \<noteq> []" "salt_file (svc_world ?s) = None"
    by (simp_all add: new_service_def quiet_def example_world_def encodable_scalar lit_scalar example_password_def)
  obtain answer t where g: "generate_identity_bundle_request example_host one_hash_lib
      (register_params (lit ''u'') example_password [1]) ?s = (Inr answer, t)"
    using registration_total [OF p(1,2) one_hash_laws(7,1-6), of example_host "[1]"] by (elim exE) (rule that)
  obtain b st salt vb where r: "registered one_hash_lib (lit ''u'') example_password [1] answer b st salt vb t"
    using registration_run [OF g p(1,2) one_hash_laws(1-6)] p(4) by blast
  obtain secret B where B: "server_challenge one_hash_lib (from_bytes_big vb) secret = Inr B" "from_bytes_big B mod srp_N \<noteq> 0"
    using example_challenge by blast
  have "srp_u one_hash_lib a B \<noteq> 0" for a by (simp add: srp_u_def)
  with login_opens_keystore [OF r p(3) one_hash_laws(2) refl B, of example_host] show ?thesis by blast
qed

section \<open>The cached key\<close>

text \<open>
  C4: the fast path of \<open>unlock_keystore\<close> is the slow one. With the key of the salt file
  cached, a request does exactly what a request with that key's password does without it:
  the same answer or exception and the same state of the service, whatever the store holds
  and whether or not there is a salt file. The password sent along with a cached key plays
  no part: any value that counts as non-empty opens the keystore.
\<close>

theorem cached_key_equivalent:
  assumes "param_get params ''password'' (PStr []) = Inr (PStr pw)" "pw \<noteq> []"
    and "param_get params' ''password'' (PStr []) = Inr v" "truthy v"
    and "case salt_file (svc_world s) of None \<Rightarrow> True | Some salt \<Rightarrow> derives L pw salt key"
  shows "unlock_keystore H L params' (s\<lparr>svc_cached_keystore_key := Some key\<rparr>) =
      unlock_keystore H L params (s\<lparr>svc_cached_keystore_key := None\<rparr>)"
proof (cases "salt_file (svc_world s)")
  case None
  with assms(1-4) show ?thesis
    by (cases s) (simp add: unlock_keystore_def load_master_salt_def open_keystore_def load_with_key_def read_salt_def new_store_def
        on_disk_def on_entropy_def on_tape_sel zoomE_def tryE_def forget_cached_key_def)
next
  case (Some salt)
  with assms(5) have "derives L pw salt key" by simp
  then obtain sp where d: "length salt = ARGON2_SALT_LEN"
    "\<forall>t. derive_master_components L pw (Some salt) t = (Inr (sp, key, salt), t)" by (auto simp: derives_def)
  from assms(1-4) Some d show ?thesis
    by (cases s) (simp add: unlock_keystore_def load_master_salt_def open_keystore_def load_with_key_def read_salt_def new_store_def
        on_disk_def on_entropy_def on_tape_sel zoomE_def tryE_def forget_cached_key_def)
qed

theorem cached_key_equivalent_witness:
  "unlock_keystore example_host example_lib (unlock_params (lit ''x''))
     ((new_service (example_world\<lparr>salt_file := Some (zeros 32)\<rparr>) :: toy_ratchet service)\<lparr>svc_cached_keystore_key := Some (zeros 32)\<rparr>) =
   unlock_keystore example_host example_lib (unlock_params example_password)
     (new_service (example_world\<lparr>salt_file := Some (zeros 32)\<rparr>))"
proof -
  let ?s = "new_service (example_world\<lparr>salt_file := Some (zeros 32)\<rparr>) :: toy_ratchet service"
  have s: "?s\<lparr>svc_cached_keystore_key := None\<rparr> = ?s" "salt_file (svc_world ?s) = Some (zeros 32)" by (simp_all add: new_service_def)
  have p: "param_get (unlock_params pw) ''password'' (PStr []) = Inr (PStr pw)" for pw by (simp add: unlock_params_def param_get_def)
  have "example_password \<noteq> []" "truthy (PStr (lit ''x''))" by (simp_all add: example_password_def lit_def)
  from cached_key_equivalent [OF p this(1) p this(2), where s = ?s and L = example_lib and key = "zeros 32", of example_host] example_derives s
  show ?thesis by simp
qed

end
