(* ===== verification/Store_Refinement.thy ===== *)
theory Store_Refinement
  imports State_Store Channel
begin

text \<open>
  What core/state_store.py promises, as an abstract store of two maps, and the simulation
  that the encrypted files implement it: on a disk that completes its writes, a client that
  only sees what the operations return cannot tell the two apart.
\<close>

section \<open>The abstract store\<close>

record spec_store =
  states :: "pystr \<Rightarrow> pyval option"
  metas :: "pystr \<Rightarrow> SessionMetadata option"

datatype store_op =
    Save pystr pyval
  | Load pystr
  | Has pystr
  | Save_meta pystr SessionMetadata
  | Load_meta pystr
  | Has_meta pystr
  | List_ids
  | Delete pystr
  | Save_count pystr int
  | Load_count pystr

datatype reply =
    Done
  | Value pyval
  | Meta SessionMetadata
  | Flag bool
  | Ids "pystr set"
  | Number int
  | Failed exn

definition reply_of :: "('a \<Rightarrow> reply) \<Rightarrow> 'a res \<Rightarrow> reply" where
  "reply_of f r = (case r of Inl e \<Rightarrow> Failed e | Inr x \<Rightarrow> f x)"

definition found :: "'a option \<Rightarrow> 'a res" where
  "found v = (case v of None \<Rightarrow> Inl FileNotFoundError | Some x \<Rightarrow> Inr x)"

text \<open>A valid identifier, or the error and no change.\<close>

definition valid_id :: "pystr \<Rightarrow> spec_store \<Rightarrow> reply \<times> spec_store \<Rightarrow> reply \<times> spec_store" where
  "valid_id i s p = (case validate_session_id i of Inl e \<Rightarrow> (Failed e, s) | Inr _ \<Rightarrow> p)"

definition spec_count :: "pystr \<Rightarrow> spec_store \<Rightarrow> pydict res" where
  "spec_count i s = (case states s i of None \<Rightarrow> Inr [] | Some v \<Rightarrow> as_dict v)"

fun spec_step :: "store_op \<Rightarrow> spec_store \<Rightarrow> reply \<times> spec_store" where
  "spec_step (Save i v) s = valid_id i s (Done, s\<lparr>states := (states s)(i \<mapsto> v)\<rparr>)"
| "spec_step (Load i) s = valid_id i s (reply_of Value (found (states s i)), s)"
| "spec_step (Has i) s = (Flag (states s i \<noteq> None), s)"
| "spec_step (Save_meta i m) s = valid_id i s (Done, s\<lparr>metas := (metas s)(i \<mapsto> m)\<rparr>)"
| "spec_step (Load_meta i) s = valid_id i s (reply_of Meta (found (metas s i)), s)"
| "spec_step (Has_meta i) s = (Flag (metas s i \<noteq> None), s)"
| "spec_step List_ids s = (Ids (dom (states s)), s)"
| "spec_step (Delete i) s = valid_id i s (Done, s\<lparr>states := (states s)(i := None), metas := (metas s)(i := None)\<rparr>)"
| "spec_step (Save_count i n) s = valid_id i s (case spec_count i s of
     Inl e \<Rightarrow> (Failed e, s)
   | Inr d \<Rightarrow> (Done, s\<lparr>states := (states s)(i \<mapsto> PDict (dict_set d ''header_counter'' (PInt n)))\<rparr>))"
| "spec_step (Load_count i) s = valid_id i s (reply_of Number (case states s i of
     None \<Rightarrow> Inr 0
   | Some v \<Rightarrow> bindR (as_mapping v) (\<lambda>d. py_int (dict_get_or d ''header_counter'' (PInt 0)))), s)"

section \<open>The same operations on the disk\<close>

definition perform_with :: "('a \<Rightarrow> reply) \<Rightarrow> (world, 'a) eff \<Rightarrow> world \<Rightarrow> reply \<times> world" where
  "perform_with f m w = (case m w of (r, w') \<Rightarrow> (reply_of f r, w'))"

fun perform :: "crypto \<Rightarrow> StateStore \<Rightarrow> store_op \<Rightarrow> world \<Rightarrow> reply \<times> world" where
  "perform L st (Save i v) = perform_with (\<lambda>_. Done) (save_state L st i v)"
| "perform L st (Load i) = perform_with Value (load_state L st i)"
| "perform L st (Has i) = perform_with Flag (getE (state_exists i))"
| "perform L st (Save_meta i m) = perform_with (\<lambda>_. Done) (save_metadata L st i m)"
| "perform L st (Load_meta i) = perform_with Meta (load_metadata L st i)"
| "perform L st (Has_meta i) = perform_with Flag (getE (metadata_exists i))"
| "perform L st List_ids = perform_with (\<lambda>is. Ids (set is)) (getE list_sessions)"
| "perform L st (Delete i) = perform_with (\<lambda>_. Done) (delete_session i)"
| "perform L st (Save_count i n) = perform_with (\<lambda>_. Done) (save_counter L st i n)"
| "perform L st (Load_count i) = perform_with Number (load_counter L st i)"

text \<open>
  The operations a client may use: identifiers that the check refuses, or whose file names
  the file system accepts (the two queries do not check), and values with a JSON form.
\<close>

definition proper_id :: "pystr \<Rightarrow> bool" where
  "proper_id i \<longleftrightarrow> storable i \<and> name_ok (meta_name i)"

definition checked_id :: "pystr \<Rightarrow> bool" where
  "checked_id i \<longleftrightarrow> proper_id i \<or> validate_session_id i \<noteq> Inr ()"

definition proper_meta :: "SessionMetadata \<Rightarrow> bool" where
  "proper_meta m \<longleftrightarrow> json_ok (PDict (md_to_dict m)) \<and> py_float (md_created_at m) = Inr (md_created_at m) \<and>
     py_float (md_last_active m) = Inr (md_last_active m)"

fun op_ok :: "store_op \<Rightarrow> bool" where
  "op_ok (Save i v) = (checked_id i \<and> json_ok v)"
| "op_ok (Save_meta i m) = (checked_id i \<and> proper_meta m)"
| "op_ok (Has i) = proper_id i"
| "op_ok (Has_meta i) = proper_id i"
| "op_ok List_ids = True"
| "op_ok (Load i) = checked_id i"
| "op_ok (Load_meta i) = checked_id i"
| "op_ok (Delete i) = checked_id i"
| "op_ok (Save_count i n) = checked_id i"
| "op_ok (Load_count i) = checked_id i"

section \<open>One file\<close>

text \<open>What an encrypted file holds, as \<open>_read_decrypt\<close> reads it.\<close>

definition holds :: "crypto \<Rightarrow> StateStore \<Rightarrow> pystr \<Rightarrow> string \<Rightarrow> pyval \<Rightarrow> bytes \<Rightarrow> bool" where
  "holds L st i ft v blob \<longleftrightarrow> \<not> length blob < NONCE_LEN + TAG_LEN \<and>
     (\<exists>ad p. make_ad i ft = Inr ad \<and> json_decode p = Inr v \<and>
       chacha_decrypt L (enc_key st) (take NONCE_LEN blob) (drop NONCE_LEN blob) ad = Inr p)"

lemma write_sealed:
  assumes "aead_correct L" "length (enc_key st) = 32" "quiet w" "name_ok n"
    and "make_ad i ft = Inr ad" "json_encode v = Inr p" "json_decode p = Inr v"
  shows "\<exists>w' blob. encrypt_write L st n p ad w = (Inr (), w') \<and> quiet w' \<and> holds L st i ft v blob \<and>
    map_of (sess_files w') = (map_of (sess_files w))(n \<mapsto> blob)"
proof -
  obtain x t where x: "urandom NONCE_LEN (tape w) = (x, t)" by force
  then have lx: "length x = 12" by (auto dest: urandom_length simp: NONCE_LEN_def)
  obtain c where c: "chacha_encrypt L (enc_key st) x p ad = Inr c"
    using aead_correct_total [OF assms(1,2) lx] by blast
  have "quiet (w\<lparr>tape := t\<rparr>)" using assms(3) by (simp add: quiet_def)
  from write_file_quiet [OF this assms(4), of "x @ c"] write_file_keeps_quiet [OF this, of n "x @ c"] obtain w' where
    w': "write_file n (x @ c) (w\<lparr>tape := t\<rparr>) = (Inr (), w')" "map_of (sess_files w') n = Some (x @ c)" "quiet w'" by auto
  have "encrypt_write L st n p ad w = (Inr (), w')"
    by (simp add: encrypt_write_def on_tape_sel drawE_def x c w'(1))
  moreover have "holds L st i ft v (x @ c)"
    using sealed_blob [OF assms(1,2) lx c] assms(5,7) by (auto simp: holds_def not_less simp del: take_append drop_append)
  moreover have "map_of (sess_files w') = (map_of (sess_files w))(n \<mapsto> x @ c)"
    using write_file_frame [OF w'(1)] w'(2) by (auto simp: fun_eq_iff)
  ultimately show ?thesis using w'(3) by blast
qed

lemma save_state_sealed:
  assumes "aead_correct L" "length (enc_key st) = 32" "quiet w" "proper_id i" "json_ok v"
  shows "\<exists>w' blob. save_state L st i v w = (Inr (), w') \<and> quiet w' \<and> holds L st i ''state'' v blob \<and>
    map_of (sess_files w') = (map_of (sess_files w))(state_name i \<mapsto> blob)"
proof -
  have i: "storable i" using assms(4) by (simp add: proper_id_def)
  obtain ad where ad: "make_ad i ''state'' = Inr ad" using make_ad_total [OF i] by blast
  obtain p where p: "json_encode v = Inr p" using json_encode_total [OF assms(5)] by blast
  have "name_ok (state_name i)" "validate_session_id i = Inr ()" using i by (simp_all add: storable_def)
  with write_sealed [OF assms(1-3) _ ad p json_bytes.dec_enc [OF assms(5) p]] ad p show ?thesis
    by (simp add: save_state_def)
qed

lemma save_metadata_sealed:
  assumes "aead_correct L" "length (enc_key st) = 32" "quiet w" "proper_id i" "proper_meta m"
  shows "\<exists>w' blob. save_metadata L st i m w = (Inr (), w') \<and> quiet w' \<and>
    holds L st i ''meta'' (PDict (md_to_dict m)) blob \<and>
    map_of (sess_files w') = (map_of (sess_files w))(meta_name i \<mapsto> blob)"
proof -
  have i: "storable i" "name_ok (meta_name i)" using assms(4) by (simp_all add: proper_id_def)
  have j: "json_ok (PDict (md_to_dict m))" using assms(5) by (simp add: proper_meta_def)
  obtain ad where ad: "make_ad i ''meta'' = Inr ad" using make_ad_total [OF i(1)] by blast
  obtain p where p: "json_encode (PDict (md_to_dict m)) = Inr p" using json_encode_total [OF j] by blast
  have "validate_session_id i = Inr ()" using i by (simp add: storable_def)
  with write_sealed [OF assms(1-3) i(2) ad p json_bytes.dec_enc [OF j p]] ad p show ?thesis
    by (simp add: save_metadata_def)
qed

lemma load_state_held:
  assumes "validate_session_id i = Inr ()"
  shows "map_of (sess_files w) (state_name i) = None \<Longrightarrow> load_state L st i w = (Inl FileNotFoundError, w)"
    and "map_of (sess_files w) (state_name i) = Some blob \<Longrightarrow> holds L st i ''state'' v blob \<Longrightarrow> load_state L st i w = (Inr v, w)"
  using assms by (auto simp: load_state_eq load_result_def holds_def)

lemma load_metadata_held:
  assumes "validate_session_id i = Inr ()"
  shows "map_of (sess_files w) (meta_name i) = None \<Longrightarrow> load_metadata L st i w = (Inl FileNotFoundError, w)"
    and "map_of (sess_files w) (meta_name i) = Some blob \<Longrightarrow> holds L st i ''meta'' (PDict (md_to_dict m)) blob \<Longrightarrow>
      proper_meta m \<Longrightarrow> load_metadata L st i w = (Inr m, w)"
proof -
  show "load_metadata L st i w = (Inl FileNotFoundError, w)" if "map_of (sess_files w) (meta_name i) = None"
    using assms that by (simp add: load_metadata_def file_exists_def bindE_def)
  show "load_metadata L st i w = (Inr m, w)" if "map_of (sess_files w) (meta_name i) = Some blob"
      "holds L st i ''meta'' (PDict (md_to_dict m)) blob" "proper_meta m"
    using assms that md_roundtrip [of m]
    by (auto simp: load_metadata_def read_decrypt_def read_file_def file_exists_def holds_def proper_meta_def)
qed

section \<open>The simulation\<close>

text \<open>One map of the abstract store against the files with one suffix.\<close>

definition slot ::
    "(pystr \<Rightarrow> bytes option) \<Rightarrow> (pystr \<Rightarrow> 'a option) \<Rightarrow> ('a \<Rightarrow> bool) \<Rightarrow> (pystr \<Rightarrow> pystr) \<Rightarrow> (pystr \<Rightarrow> 'a \<Rightarrow> bytes \<Rightarrow> bool) \<Rightarrow> pystr \<Rightarrow> bool" where
  "slot files m ok name content i = (case m i of
      None \<Rightarrow> files (name i) = None
    | Some v \<Rightarrow> proper_id i \<and> ok v \<and> (\<exists>blob. files (name i) = Some blob \<and> content i v blob))"

definition stored ::
    "(pystr \<Rightarrow> bytes option) \<Rightarrow> (pystr \<Rightarrow> 'a option) \<Rightarrow> ('a \<Rightarrow> bool) \<Rightarrow> (pystr \<Rightarrow> pystr) \<Rightarrow> (pystr \<Rightarrow> 'a \<Rightarrow> bytes \<Rightarrow> bool) \<Rightarrow> bool" where
  "stored files m ok name content \<longleftrightarrow> (\<forall>i. slot files m ok name content i)"

definition refines :: "crypto \<Rightarrow> StateStore \<Rightarrow> world \<Rightarrow> spec_store \<Rightarrow> bool" where
  "refines L st w s \<longleftrightarrow> quiet w \<and>
     stored (map_of (sess_files w)) (states s) json_ok state_name (\<lambda>i v. holds L st i ''state'' v) \<and>
     stored (map_of (sess_files w)) (metas s) proper_meta meta_name (\<lambda>i m. holds L st i ''meta'' (PDict (md_to_dict m)))"

lemma stored_cases:
  assumes "stored files m ok name content"
  obtains "m i = None" "files (name i) = None"
    | v blob where "m i = Some v" "proper_id i" "ok v" "files (name i) = Some blob" "content i v blob"
proof -
  have "slot files m ok name content i" using assms by (simp add: stored_def)
  then show ?thesis using that by (cases "m i") (auto simp: slot_def)
qed

lemma stored_write:
  assumes "stored files m ok name content" "inj name" "proper_id i" "ok v" "content i v blob"
  shows "stored (files(name i \<mapsto> blob)) (m(i \<mapsto> v)) ok name content"
  unfolding stored_def
proof
  fix j
  have "slot files m ok name content j" using assms(1) by (simp add: stored_def)
  with assms(2-5) show "slot (files(name i \<mapsto> blob)) (m(i \<mapsto> v)) ok name content j"
    by (cases "j = i") (auto simp: slot_def inj_eq split: option.splits)
qed

lemma stored_drop:
  assumes "stored files m ok name content" "inj name"
  shows "stored (files(name i := None)) (m(i := None)) ok name content"
  unfolding stored_def
proof
  fix j
  have "slot files m ok name content j" using assms(1) by (simp add: stored_def)
  with assms(2) show "slot (files(name i := None)) (m(i := None)) ok name content j"
    by (cases "j = i") (auto simp: slot_def inj_eq split: option.splits)
qed

lemma stored_other: "stored files m ok name content \<Longrightarrow> (\<And>j. name j \<noteq> n) \<Longrightarrow> stored (files(n := x)) m ok name content"
  by (simp add: stored_def slot_def cong: option.case_cong)

lemma inj_names: "inj state_name" "inj meta_name"
  by (auto simp: inj_def meta_name_def)

lemma refinesI:
  assumes "quiet w" "map_of (sess_files w) = files"
    and "stored files (states s) json_ok state_name (\<lambda>i v. holds L st i ''state'' v)"
    and "stored files (metas s) proper_meta meta_name (\<lambda>i m. holds L st i ''meta'' (PDict (md_to_dict m)))"
  shows "refines L st w s"
  using assms by (simp add: refines_def)

lemma refinesD:
  assumes "refines L st w s"
  shows "quiet w" "stored (map_of (sess_files w)) (states s) json_ok state_name (\<lambda>i v. holds L st i ''state'' v)"
    "stored (map_of (sess_files w)) (metas s) proper_meta meta_name (\<lambda>i m. holds L st i ''meta'' (PDict (md_to_dict m)))"
  using assms by (simp_all add: refines_def)

lemma refines_save_state:
  assumes "refines L st w s" "proper_id i" "json_ok v" "quiet w'" "holds L st i ''state'' v blob"
    and "map_of (sess_files w') = (map_of (sess_files w))(state_name i \<mapsto> blob)"
  shows "refines L st w' (s\<lparr>states := (states s)(i \<mapsto> v)\<rparr>)"
proof (rule refinesI [OF assms(4,6)])
  from stored_write [OF refinesD(2) [OF assms(1)], OF inj_names(1) assms(2,3,5)]
  show "stored ((map_of (sess_files w))(state_name i \<mapsto> blob)) (states (s\<lparr>states := (states s)(i \<mapsto> v)\<rparr>)) json_ok state_name
      (\<lambda>i v. holds L st i ''state'' v)" by simp
  from stored_other [OF refinesD(3) [OF assms(1)]]
  show "stored ((map_of (sess_files w))(state_name i \<mapsto> blob)) (metas (s\<lparr>states := (states s)(i \<mapsto> v)\<rparr>)) proper_meta meta_name
      (\<lambda>i m. holds L st i ''meta'' (PDict (md_to_dict m)))" by simp
qed

lemma refines_save_meta:
  assumes "refines L st w s" "proper_id i" "proper_meta m" "quiet w'" "holds L st i ''meta'' (PDict (md_to_dict m)) blob"
    and "map_of (sess_files w') = (map_of (sess_files w))(meta_name i \<mapsto> blob)"
  shows "refines L st w' (s\<lparr>metas := (metas s)(i \<mapsto> m)\<rparr>)"
proof (rule refinesI [OF assms(4,6)])
  from stored_write [OF refinesD(3) [OF assms(1)], OF inj_names(2) assms(2,3,5)]
  show "stored ((map_of (sess_files w))(meta_name i \<mapsto> blob)) (metas (s\<lparr>metas := (metas s)(i \<mapsto> m)\<rparr>)) proper_meta meta_name
      (\<lambda>i m. holds L st i ''meta'' (PDict (md_to_dict m)))" by simp
  from stored_other [OF refinesD(2) [OF assms(1)]]
  show "stored ((map_of (sess_files w))(meta_name i \<mapsto> blob)) (states (s\<lparr>metas := (metas s)(i \<mapsto> m)\<rparr>)) json_ok state_name
      (\<lambda>i v. holds L st i ''state'' v)" by simp
qed

lemma refines_delete:
  assumes "refines L st w s" "validate_session_id i = Inr ()"
  shows "\<exists>w'. delete_session i w = (Inr (), w') \<and>
    refines L st w' (s\<lparr>states := (states s)(i := None), metas := (metas s)(i := None)\<rparr>)"
proof (intro exI conjI)
  let ?w = "w\<lparr>sess_files := AList.delete (meta_name i) (AList.delete (state_name i) (sess_files w))\<rparr>"
  show "delete_session i w = (Inr (), ?w)" by (rule delete_session_eq [OF assms(2)])
  show "refines L st ?w (s\<lparr>states := (states s)(i := None), metas := (metas s)(i := None)\<rparr>)"
  proof (rule refinesI)
    show "quiet ?w" using refinesD(1) [OF assms(1)] by (simp add: quiet_def)
    show "map_of (sess_files ?w) = ((map_of (sess_files w))(state_name i := None))(meta_name i := None)"
      by (simp add: delete_conv' fun_eq_iff)
    from stored_other [OF stored_drop [OF refinesD(2) [OF assms(1)] inj_names(1)]]
    show "stored (((map_of (sess_files w))(state_name i := None))(meta_name i := None))
        (states (s\<lparr>states := (states s)(i := None), metas := (metas s)(i := None)\<rparr>)) json_ok state_name
        (\<lambda>i v. holds L st i ''state'' v)" by simp
    from stored_drop [OF stored_other [OF refinesD(3) [OF assms(1)]] inj_names(2)]
    show "stored (((map_of (sess_files w))(state_name i := None))(meta_name i := None))
        (metas (s\<lparr>states := (states s)(i := None), metas := (metas s)(i := None)\<rparr>)) proper_meta meta_name
        (\<lambda>i m. holds L st i ''meta'' (PDict (md_to_dict m)))" by simp
  qed
qed

lemma refined_load:
  assumes "refines L st w s" "validate_session_id i = Inr ()"
  shows "load_state L st i w = (found (states s i), w)" "state_exists i w \<longleftrightarrow> states s i \<noteq> None"
    and "load_metadata L st i w = (found (metas s i), w)" "metadata_exists i w \<longleftrightarrow> metas s i \<noteq> None"
proof -
  have st: "stored (map_of (sess_files w)) (states s) json_ok state_name (\<lambda>i v. holds L st i ''state'' v)"
    and mt: "stored (map_of (sess_files w)) (metas s) proper_meta meta_name (\<lambda>i m. holds L st i ''meta'' (PDict (md_to_dict m)))"
    using assms(1) by (simp_all add: refines_def)
  show "load_state L st i w = (found (states s i), w)"
    using load_state_held [OF assms(2)] by (cases rule: stored_cases [OF st, of i]) (auto simp: found_def)
  show "state_exists i w \<longleftrightarrow> states s i \<noteq> None"
    by (cases rule: stored_cases [OF st, of i]) (auto simp: state_exists_def file_exists_def)
  show "load_metadata L st i w = (found (metas s i), w)"
    using load_metadata_held [OF assms(2)] by (cases rule: stored_cases [OF mt, of i]) (auto simp: found_def)
  show "metadata_exists i w \<longleftrightarrow> metas s i \<noteq> None"
    by (cases rule: stored_cases [OF mt, of i]) (auto simp: metadata_exists_def file_exists_def)
qed

lemma list_sessions_set:
  assumes "map_of (sess_files w) (state_name []) = None"
  shows "set (list_sessions w) = {i. map_of (sess_files w) (state_name i) \<noteq> None}"
proof -
  have names: "n \<in> fst ` set (sess_files w) \<longleftrightarrow> map_of (sess_files w) n \<noteq> None" for n
    by (metis domIff dom_map_of_conv_image_fst)
  have suffix: "6 \<le> length n \<and> drop (length n - 6) n = lit ''.state'' \<longleftrightarrow> (\<exists>i. n = state_name i)" for n
  proof
    assume "6 \<le> length n \<and> drop (length n - 6) n = lit ''.state''"
    with append_take_drop_id [of "length n - 6" n] show "\<exists>i. n = state_name i" unfolding state_name_def by metis
  qed (auto simp: state_name_def lit_def)
  have stem: "length (state_name i) = length i + 6" "take (length (state_name i) - 6) (state_name i) = i"
    "take (length i) (state_name i) = i" for i
    by (simp_all add: state_name_def lit_def)
  have "i \<in> set (list_sessions w) \<longleftrightarrow> state_name i \<in> fst ` set (sess_files w)" for i
  proof
    assume "i \<in> set (list_sessions w)"
    then obtain n where n: "n \<in> fst ` set (sess_files w)" "\<exists>j. n = state_name j"
      and i: "i = (if length n = 6 then n else take (length n - 6) n)"
      unfolding list_sessions_def set_map set_filter suffix by blast
    then obtain j where j: "n = state_name j" by blast
    with n(1) assms names have "j \<noteq> []" by auto
    with i n(1) show "state_name i \<in> fst ` set (sess_files w)" by (simp add: j stem)
  next
    assume f: "state_name i \<in> fst ` set (sess_files w)"
    with assms names have "i \<noteq> []" by auto
    then have "i = (if length (state_name i) = 6 then state_name i else take (length (state_name i) - 6) (state_name i))"
      by (simp add: stem)
    with f show "i \<in> set (list_sessions w)" unfolding list_sessions_def set_map set_filter suffix by blast
  qed
  with names show ?thesis by blast
qed

lemma refused_id:
  assumes "validate_session_id i = Inl e"
  shows "save_state L st i v w = (Inl e, w)" "load_state L st i w = (Inl e, w)" "save_metadata L st i m w = (Inl e, w)"
    "load_metadata L st i w = (Inl e, w)" "delete_session i w = (Inl e, w)" "save_counter L st i n w = (Inl e, w)"
    "load_counter L st i w = (Inl e, w)"
  using assms by (simp_all add: save_state_def load_state_def save_metadata_def load_metadata_def delete_session_def
      save_counter_def load_counter_def)

lemma list_all_update: "list_all P d \<Longrightarrow> P (k, v) \<Longrightarrow> list_all P (AList.update k v d)"
  by (induction d) auto

lemma json_ok_count: "json_ok (PDict d) \<Longrightarrow> json_ok (PDict (dict_set d ''header_counter'' (PInt n)))"
  by (auto simp: dict_set_def distinct_update lit_scalar intro!: list_all_update)

lemma spec_count_ok:
  assumes "refines L st w s" "spec_count i s = Inr d"
  shows "json_ok (PDict d)"
proof (cases "states s i")
  case None
  with assms(2) show ?thesis by (simp add: spec_count_def)
next
  case (Some v)
  with assms(2) have "v = PDict d" by (cases v) (auto simp: spec_count_def)
  with Some refinesD(2) [OF assms(1)] show ?thesis by (auto elim: stored_cases [of _ _ _ _ _ i])
qed

text \<open>What the counter operations do to a state, given what the maps hold.\<close>

lemma save_counter_refined:
  assumes "refines L st w s" "validate_session_id i = Inr ()"
  shows "save_counter L st i n w = (case spec_count i s of Inl e \<Rightarrow> (Inl e, w)
    | Inr d \<Rightarrow> save_state L st i (PDict (dict_set d ''header_counter'' (PInt n))) w)"
  using refined_load [OF assms] assms(2)
  by (cases "states s i") (simp_all add: save_counter_def spec_count_def found_def bindE_def split: sum.split)

lemma load_counter_refined:
  assumes "refines L st w s" "validate_session_id i = Inr ()"
  shows "load_counter L st i w = (case states s i of None \<Rightarrow> Inr 0
    | Some v \<Rightarrow> bindR (as_mapping v) (\<lambda>d. py_int (dict_get_or d ''header_counter'' (PInt 0))), w)"
  using refined_load [OF assms] assms(2)
  by (cases "states s i") (simp_all add: load_counter_def found_def bindE_def bindR_def split: sum.split)

text \<open>One operation on both sides: the same reply, and related states again.\<close>

definition agree :: "crypto \<Rightarrow> StateStore \<Rightarrow> reply \<times> world \<Rightarrow> reply \<times> spec_store \<Rightarrow> bool" where
  "agree L st p q \<longleftrightarrow> fst p = fst q \<and> refines L st (snd p) (snd q)"

lemma agree_pair [simp]: "agree L st (r, w) (r', s) \<longleftrightarrow> r = r' \<and> refines L st w s"
  by (simp add: agree_def)

lemma perform_with_simps [simp]:
  "m w = (Inr x, w') \<Longrightarrow> perform_with f m w = (f x, w')"
  "m w = (Inl e, w') \<Longrightarrow> perform_with f m w = (Failed e, w')"
  by (simp_all add: perform_with_def reply_of_def)

lemma checked_id_cases:
  assumes "checked_id i"
  obtains "proper_id i" "validate_session_id i = Inr ()" | e where "validate_session_id i = Inl e"
  using assms that by (cases "validate_session_id i") (auto simp: checked_id_def proper_id_def storable_def)

lemma proper_id_valid: "proper_id i \<Longrightarrow> validate_session_id i = Inr ()"
  by (simp add: proper_id_def storable_def)

lemma save_agrees:
  assumes "aead_correct L" "length (enc_key st) = 32" "refines L st w s" "proper_id i" "json_ok v"
    and "m w = save_state L st i v w"
  shows "agree L st (perform_with (\<lambda>_. Done) m w) (Done, s\<lparr>states := (states s)(i \<mapsto> v)\<rparr>)"
proof -
  obtain w' blob where "save_state L st i v w = (Inr (), w')" "quiet w'" "holds L st i ''state'' v blob"
    "map_of (sess_files w') = (map_of (sess_files w))(state_name i \<mapsto> blob)"
    using save_state_sealed [OF assms(1,2) refinesD(1) [OF assms(3)] assms(4,5)] by blast
  with refines_save_state [OF assms(3-5)] assms(6) show ?thesis by simp
qed

lemma save_meta_agrees:
  assumes "aead_correct L" "length (enc_key st) = 32" "refines L st w s" "proper_id i" "proper_meta m"
  shows "agree L st (perform L st (Save_meta i m) w) (Done, s\<lparr>metas := (metas s)(i \<mapsto> m)\<rparr>)"
proof -
  obtain w' blob where "save_metadata L st i m w = (Inr (), w')" "quiet w'"
    "holds L st i ''meta'' (PDict (md_to_dict m)) blob" "map_of (sess_files w') = (map_of (sess_files w))(meta_name i \<mapsto> blob)"
    using save_metadata_sealed [OF assms(1,2) refinesD(1) [OF assms(3)] assms(4,5)] by blast
  with refines_save_meta [OF assms(3-5)] show ?thesis by simp
qed

lemma delete_agrees:
  assumes "refines L st w s" "validate_session_id i = Inr ()"
  shows "agree L st (perform L st (Delete i) w) (spec_step (Delete i) s)"
  using refines_delete [OF assms] assms(2) by (auto simp: valid_id_def)

lemma save_count_agrees:
  assumes "aead_correct L" "length (enc_key st) = 32" "refines L st w s" "proper_id i"
  shows "agree L st (perform L st (Save_count i n) w) (spec_step (Save_count i n) s)"
proof (cases "spec_count i s")
  case (Inl e)
  with assms(3) save_counter_refined [OF assms(3) proper_id_valid [OF assms(4)], of n] proper_id_valid [OF assms(4)]
  show ?thesis by (simp add: valid_id_def)
next
  case (Inr d)
  with save_agrees [OF assms(1-4) json_ok_count [OF spec_count_ok [OF assms(3) Inr]], of "save_counter L st i n" n]
    save_counter_refined [OF assms(3) proper_id_valid [OF assms(4)], of n] proper_id_valid [OF assms(4)]
  show ?thesis by (simp add: valid_id_def)
qed

lemma list_agrees:
  assumes "refines L st w s"
  shows "agree L st (perform L st List_ids w) (spec_step List_ids s)"
proof -
  have "\<not> proper_id []" by (simp add: proper_id_def storable_def validate_session_id_def)
  then have "map_of (sess_files w) (state_name []) = None"
    using refinesD(2) [OF assms] by (auto elim: stored_cases [of _ _ _ _ _ "[]"])
  moreover have "map_of (sess_files w) (state_name i) \<noteq> None \<longleftrightarrow> states s i \<noteq> None" for i
    by (cases rule: stored_cases [OF refinesD(2) [OF assms], of i]) simp_all
  ultimately have "set (list_sessions w) = dom (states s)" by (simp add: list_sessions_set dom_def)
  with assms show ?thesis by simp
qed

lemma query_agrees:
  assumes "refines L st w s" "validate_session_id i = Inr ()" "x \<in> {Load i, Load_meta i, Load_count i, Has i, Has_meta i}"
  shows "agree L st (perform L st x w) (spec_step x s)"
  using assms
  by (auto simp: refined_load [OF assms(1,2)] load_counter_refined [OF assms(1,2)] perform_with_def valid_id_def reply_of_def)

lemma refused_agrees:
  assumes "refines L st w s" "validate_session_id i = Inl e"
    and "x \<in> {Save i v, Load i, Save_meta i m, Load_meta i, Delete i, Save_count i n, Load_count i}"
  shows "agree L st (perform L st x w) (spec_step x s)"
  using assms by (auto simp: refused_id [OF assms(2)] valid_id_def)

lemma step_refines:
  assumes "aead_correct L" "length (enc_key st) = 32" "refines L st w s" "op_ok x"
  shows "agree L st (perform L st x w) (spec_step x s)"
proof (cases "\<exists>i e v m n. validate_session_id i = Inl e \<and>
    x \<in> {Save i v, Load i, Save_meta i m, Load_meta i, Delete i, Save_count i n, Load_count i}")
  case True
  then show ?thesis by (elim exE conjE) (rule refused_agrees [OF assms(3)])
next
  case False
  then have valid: "proper_id i \<and> validate_session_id i = Inr ()"
    if "checked_id i" "x \<in> {Save i v, Load i, Save_meta i m, Load_meta i, Delete i, Save_count i n, Load_count i}" for i v m n
    using that by (cases rule: checked_id_cases [OF that(1)]) blast+
  note q = query_agrees [OF assms(3)]
  show ?thesis
  proof (cases x)
    case (Save i v)
    with valid [of i v] assms(4) save_agrees [OF assms(1-3), of i v "save_state L st i v"] show ?thesis
      by (simp add: valid_id_def)
  next
    case (Save_meta i m)
    with valid [of i _ m] assms(4) save_meta_agrees [OF assms(1-3), of i m] show ?thesis by (simp add: valid_id_def)
  next
    case (Delete i)
    with valid [of i] assms(4) delete_agrees [OF assms(3), of i] show ?thesis by simp
  next
    case (Save_count i n)
    with valid [of i _ _ n] assms(4) save_count_agrees [OF assms(1-3), of i n] show ?thesis by simp
  next
    case List_ids
    with list_agrees [OF assms(3)] show ?thesis by simp
  next
    case (Load i)
    with valid [of i] assms(4) q [of i x] show ?thesis by simp
  next
    case (Load_meta i)
    with valid [of i] assms(4) q [of i x] show ?thesis by simp
  next
    case (Load_count i)
    with valid [of i] assms(4) q [of i x] show ?thesis by simp
  next
    case (Has i)
    with assms(4) q [of i x] proper_id_valid [of i] show ?thesis by simp
  next
    case (Has_meta i)
    with assms(4) q [of i x] proper_id_valid [of i] show ?thesis by simp
  qed
qed

section \<open>Runs\<close>

interpretation files_as_maps: simulation "perform L st" spec_step
  "\<lambda>w s. aead_correct L \<and> length (enc_key st) = 32 \<and> refines L st w s" op_ok for L st
  by unfold_locales (auto dest: step_refines simp: agree_def)

definition empty_spec :: spec_store where
  "empty_spec = \<lparr>states = (\<lambda>_. None), metas = (\<lambda>_. None)\<rparr>"

lemma refines_empty: "quiet w \<Longrightarrow> sess_files w = [] \<Longrightarrow> refines L st w empty_spec"
  by (simp add: refines_def empty_spec_def stored_def slot_def)

text \<open>
  C2: the encrypted store is a pair of maps. From related states, any sequence of
  operations (states, metadata, counters, queries, listing and deletion, with accepted or
  refused identifiers) gives a client the same replies, errors included, from the files as
  from the two maps, and ends in related states; an empty directory is related to the empty
  maps. So nothing of encryption, JSON or file names shows through.
\<close>

theorem store_refines_maps:
  assumes "aead_correct L" "length (enc_key st) = 32" "list_all op_ok ops"
  shows "(refines L st w s \<longrightarrow> fst (run_all (perform L st) ops w) = fst (run_all spec_step ops s) \<and>
      refines L st (snd (run_all (perform L st) ops w)) (snd (run_all spec_step ops s))) \<and>
    (quiet w \<and> sess_files w = [] \<longrightarrow> refines L st w empty_spec)"
  using files_as_maps.run [of L st w s ops] assms by (auto intro: refines_empty)

definition example_metadata :: SessionMetadata where
  "example_metadata = \<lparr>md_session_id = PStr (lit ''a''), md_remote_user = PStr (lit ''bob''),
     md_created_at = PFloat ''1.5'', md_last_active = PFloat ''2.0'', md_message_count = 3,
     md_is_initiator = False, md_opk_id_used = PNone\<rparr>"

lemma example_floats: "float_ok ''1.5''" "float_ok ''2.0''"
  by code_simp+

definition example_ops :: "store_op list" where
  "example_ops =
    [Save (lit ''a'') (PInt 1), Save_count (lit ''b'') 7, Save_meta (lit ''b'') example_metadata, List_ids, Load (lit ''../x''),
     Delete (lit ''a''), Load (lit ''a''), Load_count (lit ''b''), Load_meta (lit ''b''), Has_meta (lit ''a'')]"

lemma example_ids: "proper_id (lit ''a'')" "proper_id (lit ''b'')"
  by (simp_all add: proper_id_def storable_def validate_session_id_def forbidden_def lit_def name_ok_def state_name_def
      meta_name_def utf8_char_def)

lemma example_ops_ok: "list_all op_ok example_ops"
proof -
  have "proper_meta example_metadata"
    by (simp add: proper_meta_def md_to_dict_def example_metadata_def lit_scalar example_floats)
  moreover have "checked_id (lit ''../x'')" by (simp add: checked_id_def validate_session_id_def forbidden_def lit_def)
  ultimately show ?thesis by (simp add: example_ops_def example_ids checked_id_def)
qed

theorem store_refines_maps_witness:
  "fst (run_all (perform example_lib example_store) example_ops example_world) =
    [Done, Done, Done, Ids {lit ''a'', lit ''b''}, Failed (ValueError ''session_id contains forbidden characters''), Done,
     Failed FileNotFoundError, Number 7, Meta example_metadata, Flag False]"
proof -
  have e: "quiet example_world" "sess_files example_world = []" "length (enc_key example_store) = 32"
    by (simp_all add: example_world_def quiet_def example_store_def)
  note t = store_refines_maps [OF example_aead_correct e(3) example_ops_ok, of example_world]
  from t [of empty_spec, THEN conjunct2] e have "refines example_lib example_store example_world empty_spec" by blast
  with t [of empty_spec, THEN conjunct1] have "fst (run_all (perform example_lib example_store) example_ops example_world) =
      fst (run_all spec_step example_ops empty_spec)" by blast
  moreover have "fst (run_all spec_step example_ops empty_spec) =
    [Done, Done, Done, Ids {lit ''a'', lit ''b''}, Failed (ValueError ''session_id contains forbidden characters''), Done,
     Failed FileNotFoundError, Number 7, Meta example_metadata, Flag False]"
    by (auto simp: example_ops_def empty_spec_def valid_id_def validate_session_id_def forbidden_def lit_def reply_of_def found_def
        spec_count_def dict_get_or_def)
  ultimately show ?thesis by simp
qed

end
