(* ===== verification/Rpc_Server.thy ===== *)
theory Rpc_Server
  imports Service_Auth
begin

text \<open>
  crypto_service.py, the server loop: \<open>_process_line\<close> turns one request line into one
  response line, \<open>_serve_connection\<close> cuts the received chunks into lines, \<open>main\<close> serves
  one connection after the other. What the socket delivers and whether it accepts data is
  input of the model.
\<close>

section \<open>One line\<close>

definition TAMPERED :: pystr where
  "TAMPERED = lit ''Decryption failed '' @ dash @ lit '' wrong password or tampered data''"

definition error_response :: "host \<Rightarrow> pyval \<Rightarrow> exn \<Rightarrow> pydict" where
  "error_response H req_id e = [(lit ''id'', req_id),
     (lit ''error'', PStr (if e = InvalidTag then TAMPERED else exn_text H e))]"

definition dispatch_request :: "host \<Rightarrow> 'r ratchet_lib \<Rightarrow> crypto \<Rightarrow> pyval \<Rightarrow> ('r service, pydict) eff" where
  "dispatch_request H R L req =
     bindE (liftE (param req ''method'')) (\<lambda>m.
     bindE (liftE (param_get req ''params'' PNone)) (\<lambda>p.
     handle H R L m (if truthy p then p else PDict [])))"

text \<open>The \<open>try\<close> block: \<open>req_id\<close> is \<open>None\<close> until the request has been read.\<close>

definition respond_to :: "host \<Rightarrow> 'r ratchet_lib \<Rightarrow> crypto \<Rightarrow> bytes \<Rightarrow> ('r service, pydict) eff" where
  "respond_to H R L line =
     (case bindR (bindR (utf8_decode line) loads) (\<lambda>req.
        bindR (param_get req ''id'' PNone) (\<lambda>req_id. Inr (req, req_id))) of
        Inl e \<Rightarrow> returnE (error_response H PNone e)
      | Inr (req, req_id) \<Rightarrow>
          tryE (bindE (dispatch_request H R L req) (\<lambda>result.
                returnE (dict_merge [(lit ''id'', req_id)] result)))
            (\<lambda>e. Some (returnE (error_response H req_id e))))"

definition process_line :: "host \<Rightarrow> 'r ratchet_lib \<Rightarrow> crypto \<Rightarrow> bytes \<Rightarrow> ('r service, bytes) eff" where
  "process_line H R L line =
     bindE (respond_to H R L line) (\<lambda>resp.
     liftE (bindR (dumps (PDict resp)) (\<lambda>t. utf8_encode (t @ [10]))))"

section \<open>One connection\<close>

text \<open>
  \<open>recv\<close> gives a chunk, an empty one at the end of the stream, or raises; \<open>send_results\<close>
  says what the next calls of \<open>sendall\<close> do (an empty list: they send).
\<close>

record 'r serving =
  sv_service :: "'r service"
  sv_sent :: "bytes list"
  sv_send_results :: "exn option list"
  sv_closed :: bool

definition send_all :: "bytes \<Rightarrow> ('r serving, unit) eff" where
  "send_all data s = (case sv_send_results s of
      Some e # rs \<Rightarrow> (Inl e, s\<lparr>sv_send_results := rs\<rparr>)
    | _ \<Rightarrow> (Inr (), s\<lparr>sv_sent := sv_sent s @ [data], sv_send_results := tl (sv_send_results s)\<rparr>))"

definition on_service :: "('r service, 'a) eff \<Rightarrow> ('r serving, 'a) eff" where
  "on_service = zoomE sv_service (\<lambda>x s. s\<lparr>sv_service := x\<rparr>)"

text \<open>\<open>line.strip()\<close> is empty exactly for a line of ASCII white space.\<close>

definition is_space :: "byte \<Rightarrow> bool" where
  "is_space b \<longleftrightarrow> b = 32 \<or> (9 \<le> b \<and> b \<le> 13)"

definition serve_line :: "host \<Rightarrow> 'r ratchet_lib \<Rightarrow> crypto \<Rightarrow> bytes \<Rightarrow> ('r serving, unit) eff" where
  "serve_line H R L line =
     (if \<exists>b\<in>set line. \<not> is_space b
      then bindE (on_service (process_line H R L line)) send_all else returnE ())"

text \<open>\<open>while b"\n" in buf\<close>: the result is the buffer that is left.\<close>

function serve_buffer :: "host \<Rightarrow> 'r ratchet_lib \<Rightarrow> crypto \<Rightarrow> bytes \<Rightarrow> ('r serving, bytes) eff" where
  "serve_buffer H R L buf =
     (if (10 :: byte) \<in> set buf
      then bindE (serve_line H R L (takeWhile (\<lambda>b. b \<noteq> 10) buf)) (\<lambda>_.
        serve_buffer H R L (tl (dropWhile (\<lambda>b. b \<noteq> 10) buf)))
      else returnE buf)"
  by pat_completeness auto

lemma rest_of_line_shorter: "(10 :: byte) \<in> set buf \<Longrightarrow> length (tl (dropWhile (\<lambda>b. b \<noteq> 10) buf)) < length buf"
proof -
  assume "(10 :: byte) \<in> set buf"
  then have "dropWhile (\<lambda>b. b \<noteq> 10) buf \<noteq> []" by auto
  moreover have "length (dropWhile (\<lambda>b. b \<noteq> 10) buf) \<le> length buf" by (rule length_dropWhile_le)
  ultimately show ?thesis by (cases "dropWhile (\<lambda>b. b \<noteq> 10) buf") auto
qed

termination serve_buffer
  by (relation "measure (\<lambda>(H, R, L, buf). length buf)") (simp_all add: rest_of_line_shorter del: length_tl)

declare serve_buffer.simps [simp del]

fun serve_chunks :: "host \<Rightarrow> 'r ratchet_lib \<Rightarrow> crypto \<Rightarrow> bytes res list \<Rightarrow> bytes \<Rightarrow> ('r serving, unit) eff" where
  "serve_chunks H R L [] buf = returnE ()"
| "serve_chunks H R L (Inl e # cs) buf = raiseE e"
| "serve_chunks H R L (Inr chunk # cs) buf =
     (if chunk = [] then returnE ()
      else bindE (serve_buffer H R L (buf @ chunk)) (serve_chunks H R L cs))"

definition serve_connection :: "host \<Rightarrow> 'r ratchet_lib \<Rightarrow> crypto \<Rightarrow> bytes res list \<Rightarrow> ('r serving, unit) eff" where
  "serve_connection H R L chunks = finallyE (serve_chunks H R L chunks []) (\<lambda>s. s\<lparr>sv_closed := True\<rparr>)"

text \<open>
  \<open>main\<close> after the socket is listening: accepted connections are served in turn, and an
  exception of one ends the process. The result is what was sent on each.
\<close>

fun serve_all ::
    "host \<Rightarrow> 'r ratchet_lib \<Rightarrow> crypto \<Rightarrow> (bytes res list \<times> exn option list) list \<Rightarrow> ('r service, bytes list list) eff" where
  "serve_all H R L [] s = (Inr [], s)"
| "serve_all H R L ((chunks, sends) # conns) s =
     (case serve_connection H R L chunks \<lparr>sv_service = s, sv_sent = [], sv_send_results = sends, sv_closed = False\<rparr> of
        (Inl e, c) \<Rightarrow> (Inl e, sv_service c)
      | (Inr _, c) \<Rightarrow> bindE (serve_all H R L conns) (\<lambda>outs. returnE (sv_sent c # outs)) (sv_service c))"

section \<open>One line in, one line out\<close>

text \<open>The identifier that the response to a line has to carry.\<close>

definition request_id :: "bytes \<Rightarrow> pyval" where
  "request_id line = (case bindR (bindR (utf8_decode line) loads) (\<lambda>req. param_get req ''id'' PNone) of
      Inl _ \<Rightarrow> PNone | Inr req_id \<Rightarrow> req_id)"

definition response_ok :: "bytes \<Rightarrow> pydict \<Rightarrow> bool" where
  "response_ok line d \<longleftrightarrow> sendable (PDict d) \<and> dict_get d ''id'' = Some (request_id line)"

lemma dict_get_update_other: "lit j \<noteq> k \<Longrightarrow> dict_get (AList.update k v d) j = dict_get d j"
  by (simp add: dict_get_def update_conv')

lemma dict_get_merge_other: "\<not> dict_has e k \<Longrightarrow> dict_get (dict_merge d e) k = dict_get d k"
proof (induction e arbitrary: d)
  case (Cons p e)
  obtain j v where p: "p = (j, v)" by force
  have "lit k \<noteq> j \<and> \<not> dict_has e k" using Cons.prems by (auto simp: p dict_has_def dict_get_def split: if_splits)
  with Cons.IH show ?case by (simp add: p dict_merge_def dict_get_update_other)
qed (simp add: dict_merge_def)

lemma error_response_ok: "sendable req_id \<Longrightarrow> request_id line = req_id \<Longrightarrow> response_ok line (error_response H req_id e)"
  by (simp add: response_ok_def error_response_def)

lemma sendable_request: "bindR (utf8_decode line) loads = Inr req \<Longrightarrow> sendable req"
  by (auto simp: bindR_Inr_iff dest: sendable_loads)

lemma dispatch_answers: "sendable req \<Longrightarrow> answers (dispatch_request H R L req)"
  unfolding dispatch_request_def
  by (intro yields_bind_lift safe_handle) (auto dest!: sendable_param_get [rotated 2])

lemma respond_to_ok: "yieldsE service_ok (respond_to H R L line) (response_ok line)"
proof -
  let ?r = "bindR (bindR (utf8_decode line) loads) (\<lambda>req. bindR (param_get req ''id'' PNone) (\<lambda>req_id. Inr (req, req_id)))"
  have bad: "yieldsE service_ok (returnE (error_response H PNone e)) (response_ok line)" if "?r = Inl e" for e
  proof -
    have "request_id line = PNone" using that by (auto simp: request_id_def bindR_Inl_iff)
    then show ?thesis by (intro yieldsE_return error_response_ok) simp_all
  qed
  have good: "yieldsE service_ok (tryE (bindE (dispatch_request H R L req) (\<lambda>result.
        returnE (dict_merge [(lit ''id'', req_id)] result))) (\<lambda>e. Some (returnE (error_response H req_id e)))) (response_ok line)"
    if "?r = Inr (req, req_id)" for req req_id
  proof -
    have r: "bindR (utf8_decode line) loads = Inr req" "param_get req ''id'' PNone = Inr req_id"
      using that by (auto simp: bindR_Inr_iff)
    have id: "request_id line = req_id" by (simp add: request_id_def r)
    have "sendable req" by (rule sendable_request [OF r(1)])
    then have p: "sendable req_id" by (rule sendable_param_get [OF _ _ r(2)]) simp
    have "response_ok line (dict_merge [(lit ''id'', req_id)] result)" if "answer_ok result" for result
      using that p by (simp add: response_ok_def id dict_get_merge_other sendable_merge)
    then show ?thesis
      by (intro yieldsE_try yieldsE_bind [OF dispatch_answers [OF \<open>sendable req\<close>]] yieldsE_return)
        (auto intro!: yieldsE_return error_response_ok p id)
  qed
  show ?thesis
    unfolding respond_to_def
    by (intro yieldsE_case_sum yieldsE_case_prod) (use bad good in auto)
qed

lemma respond_to_total: "\<exists>d t. respond_to H R L line s = (Inr d, t)"
  by (auto simp: respond_to_def tryE_def split: sum.splits prod.splits)

text \<open>The line sent for a request line: one line of printable ASCII with the request's \<open>id\<close>.\<close>

definition answers_line :: "bytes \<Rightarrow> bytes \<Rightarrow> bool" where
  "answers_line line out \<longleftrightarrow> (\<exists>resp body. out = map byte_of body @ [10] \<and> dumps (PDict resp) = Inr body \<and>
     list_all printable body \<and> dict_get resp ''id'' = Some (request_id line))"

lemma process_line_answers:
  assumes "service_ok s"
  obtains out t where "process_line H R L line s = (Inr out, t)" "answers_line line out" "service_ok t"
proof -
  obtain resp t where r: "respond_to H R L line s = (Inr resp, t)"
    using respond_to_total [of H R L line s] by blast
  from yieldsED [OF respond_to_ok assms r] have ok: "response_ok line resp" "service_ok t" by simp_all
  from dumps_sendable(1) ok(1) obtain body where b: "dumps (PDict resp) = Inr body"
    unfolding dumps_def response_ok_def by blast
  have p: "list_all printable body"
    using dumps_printable(1) [of "lit '', ''" "lit '': ''" "PDict resp" body] ok(1) b
    by (simp add: dumps_def response_ok_def) (simp add: printable_def lit_def)
  have "utf8_encode (body @ [10]) = Inr (map byte_of body @ [10])"
    using utf8_encode_ascii [of "body @ [10]"] p by (force simp: list_all_iff printable_def byte_of_def)
  with r b p ok show ?thesis
    by (intro that [of "map byte_of body @ [10]" t]) (auto simp: process_line_def response_ok_def answers_line_def)
qed

text \<open>
  C13: every request line is answered by exactly one response line, whatever the line holds.
  From a well-formed state \<open>_process_line\<close> never raises: on any bytes it returns the JSON
  text of a dictionary that carries the request's \<open>id\<close> (null if the line is not a
  request), followed by the only line feed in it and all in printable ASCII, so that the
  client's framing cannot be broken by what a request or an error message contains; and
  the service is well formed again.
\<close>

theorem every_line_is_answered:
  assumes "service_ok s"
  shows "\<exists>resp body t. process_line H R L line s = (Inr (map byte_of body @ [10]), t) \<and>
    dumps (PDict resp) = Inr body \<and> list_all printable body \<and>
    dict_get resp ''id'' = Some (request_id line) \<and> service_ok t"
  using process_line_answers [OF assms, of H R L line] unfolding answers_line_def by metis

theorem every_line_is_answered_witness:
  "\<exists>resp body t. process_line example_host toy_ratchet_lib example_lib [255, 10] (new_service example_world) =
      (Inr (map byte_of body @ [10]), t) \<and>
    dumps (PDict resp) = Inr body \<and> list_all printable body \<and>
    dict_get resp ''id'' = Some (request_id [255, 10]) \<and> service_ok t"
proof (rule every_line_is_answered)
  show "service_ok (new_service example_world)"
    by (rule new_service_ok) (simp add: names_ok_def example_world_def)
qed

section \<open>The stream and its chunks\<close>

text \<open>
  Reference: the lines of a stream that a line feed completes, and what is left, given what
  of the current line has been seen.
\<close>

fun complete_lines :: "bytes \<Rightarrow> bytes \<Rightarrow> bytes list \<times> bytes" where
  "complete_lines line [] = ([], line)"
| "complete_lines line (b # bs) =
     (if b = 10 then (line # fst (complete_lines [] bs), snd (complete_lines [] bs))
      else complete_lines (line @ [b]) bs)"

fun serve_lines :: "host \<Rightarrow> 'r ratchet_lib \<Rightarrow> crypto \<Rightarrow> bytes list \<Rightarrow> ('r serving, unit) eff" where
  "serve_lines H R L [] = returnE ()"
| "serve_lines H R L (line # ls) = bindE (serve_line H R L line) (\<lambda>_. serve_lines H R L ls)"

lemma complete_lines_append:
  "complete_lines line (xs @ ys) =
     (fst (complete_lines line xs) @ fst (complete_lines (snd (complete_lines line xs)) ys),
      snd (complete_lines (snd (complete_lines line xs)) ys))"
  by (induction line xs rule: complete_lines.induct) auto

lemma complete_lines_unfinished: "(10 :: byte) \<notin> set bs \<Longrightarrow> complete_lines line bs = ([], line @ bs)"
  by (induction bs arbitrary: line) auto

lemma complete_lines_resume: "(10 :: byte) \<notin> set line \<Longrightarrow> complete_lines [] (line @ bs) = complete_lines line bs"
  by (simp add: complete_lines_append complete_lines_unfinished)

lemma complete_lines_rest: "(10 :: byte) \<notin> set line \<Longrightarrow> 10 \<notin> set (snd (complete_lines line bs))"
  by (induction line bs rule: complete_lines.induct) auto

lemma complete_lines_first:
  assumes "(10 :: byte) \<in> set buf"
  shows "complete_lines [] buf = (takeWhile (\<lambda>b. b \<noteq> 10) buf # fst (complete_lines [] (tl (dropWhile (\<lambda>b. b \<noteq> 10) buf))),
    snd (complete_lines [] (tl (dropWhile (\<lambda>b. b \<noteq> 10) buf))))"
proof -
  have "dropWhile (\<lambda>b. b \<noteq> 10) buf \<noteq> []" using assms by auto
  then obtain bs where d: "dropWhile (\<lambda>b. b \<noteq> 10) buf = 10 # bs"
    using hd_dropWhile [of "\<lambda>b. b \<noteq> 10" buf] by (cases "dropWhile (\<lambda>b. b \<noteq> 10) buf") auto
  have "(10 :: byte) \<notin> set (takeWhile (\<lambda>b. b \<noteq> 10) buf)" by (auto dest: set_takeWhileD)
  then have "complete_lines [] (takeWhile (\<lambda>b. b \<noteq> 10) buf @ 10 # bs) = (takeWhile (\<lambda>b. b \<noteq> 10) buf # fst (complete_lines [] bs), snd (complete_lines [] bs))"
    by (simp add: complete_lines_resume)
  with d show ?thesis by (metis list.sel(3) takeWhile_dropWhile_id)
qed

lemma bindE_return: "bindE (returnE x) f = f x"
  by (simp add: fun_eq_iff)

lemma serve_lines_append:
  "serve_lines H R L (xs @ ys) = bindE (serve_lines H R L xs) (\<lambda>_. serve_lines H R L ys)"
  by (induction xs) (auto simp: bindE_assoc bindE_def fun_eq_iff split: prod.split sum.split)

lemma serve_buffer_lines:
  "serve_buffer H R L buf =
     bindE (serve_lines H R L (fst (complete_lines [] buf))) (\<lambda>_. returnE (snd (complete_lines [] buf)))"
proof (induction H R L buf rule: serve_buffer.induct)
  case (1 H R L buf)
  show ?case
  proof (cases "(10 :: byte) \<in> set buf")
    case True
    show ?thesis
      unfolding serve_buffer.simps [of H R L buf] complete_lines_first [OF True] if_P [OF True] "1.IH" [OF True]
        fst_conv snd_conv serve_lines.simps bindE_assoc ..
  next
    case False
    then show ?thesis
      by (simp add: serve_buffer.simps complete_lines_unfinished bindE_return)
  qed
qed

definition stream_end :: "exn option \<Rightarrow> bytes res" where
  "stream_end e = (case e of None \<Rightarrow> Inr [] | Some x \<Rightarrow> Inl x)"

definition then_end :: "exn option \<Rightarrow> ('s, unit) eff" where
  "then_end e = (case e of None \<Rightarrow> returnE () | Some x \<Rightarrow> raiseE x)"

lemma serve_chunks_lines:
  "\<forall>c\<in>set chunks. c \<noteq> [] \<Longrightarrow> (10 :: byte) \<notin> set buf \<Longrightarrow>
     serve_chunks H R L (map Inr chunks @ [stream_end e]) buf =
       bindE (serve_lines H R L (fst (complete_lines buf (concat chunks)))) (\<lambda>_. then_end e)"
proof (induction chunks arbitrary: buf)
  case Nil
  then show ?case by (cases e) (auto simp: stream_end_def then_end_def fun_eq_iff bindE_def)
next
  case (Cons c cs)
  let ?l = "fst (complete_lines buf c)" and ?r = "snd (complete_lines buf c)"
  have n: "(10 :: byte) \<notin> set ?r" using Cons.prems(2) by (rule complete_lines_rest)
  have "serve_chunks H R L (map Inr (c # cs) @ [stream_end e]) buf =
      bindE (bindE (serve_lines H R L ?l) (\<lambda>_. returnE ?r)) (serve_chunks H R L (map Inr cs @ [stream_end e]))"
    using Cons.prems by (simp add: serve_buffer_lines complete_lines_resume)
  also have "\<dots> = bindE (serve_lines H R L ?l) (\<lambda>_. serve_chunks H R L (map Inr cs @ [stream_end e]) ?r)"
    unfolding bindE_assoc bindE_return ..
  also have "\<dots> = bindE (serve_lines H R L ?l) (\<lambda>_.
      bindE (serve_lines H R L (fst (complete_lines ?r (concat cs)))) (\<lambda>_. then_end e))"
    using Cons.IH [of ?r] Cons.prems(1) n by simp
  finally show ?case by (simp add: complete_lines_append serve_lines_append bindE_assoc)
qed

text \<open>
  C14: the received chunks do not matter, only the stream. For any cutting of a stream into
  non-empty chunks, \<open>_serve_connection\<close> terminates, having served exactly the lines that
  a line feed completes, in order, each once, and nothing of an unfinished last line; then
  it returns at the end of the stream, or raises what \<open>recv\<close> raised, with the connection
  closed in both cases.
\<close>

theorem stream_served_in_lines:
  assumes "\<forall>c\<in>set chunks. c \<noteq> []"
  shows "serve_connection H R L (map Inr chunks @ [stream_end e]) =
    finallyE (bindE (serve_lines H R L (fst (complete_lines [] (concat chunks)))) (\<lambda>_. then_end e))
      (\<lambda>s. s\<lparr>sv_closed := True\<rparr>)"
  unfolding serve_connection_def using serve_chunks_lines [OF assms, of "[]" H R L e] by simp

theorem stream_served_in_lines_witness:
  "serve_connection example_host toy_ratchet_lib example_lib
     (map Inr [[123], [125, 10, 32, 10, 91], [10, 93]] @ [stream_end None]) =
   serve_connection example_host toy_ratchet_lib example_lib
     (map Inr [[123, 125, 10], [32], [10, 91, 10], [93]] @ [stream_end None])"
proof -
  have a: "\<forall>c\<in>set [[123], [125, 10, 32, 10, 91], [10, 93 :: byte]]. c \<noteq> []" by simp
  have b: "\<forall>c\<in>set [[123, 125, 10], [32], [10, 91, 10], [93 :: byte]]. c \<noteq> []" by simp
  show ?thesis unfolding stream_served_in_lines [OF a] stream_served_in_lines [OF b] by simp
qed

section \<open>The accept loop\<close>

definition requests :: "bytes \<Rightarrow> bytes list" where
  "requests stream = filter (\<lambda>line. \<exists>b\<in>set line. \<not> is_space b) (fst (complete_lines [] stream))"

lemma serve_line_blank: "\<not> (\<exists>b\<in>set line. \<not> is_space b) \<Longrightarrow> serve_line H R L line = returnE ()"
  by (auto simp: serve_line_def)

lemma serve_line_sends:
  assumes "process_line H R L line (sv_service s) = (Inr out, t)" "\<exists>b\<in>set line. \<not> is_space b"
  shows "serve_line H R L line s = send_all out (s\<lparr>sv_service := t\<rparr>)"
  using assms by (auto simp: serve_line_def on_service_def zoomE_def bindE_def)

text \<open>The first of the next \<open>n\<close> calls of \<open>sendall\<close> that raises.\<close>

definition send_failure :: "nat \<Rightarrow> exn option list \<Rightarrow> exn option" where
  "send_failure n sends = (case List.find (\<lambda>r. r \<noteq> None) (take n sends) of None \<Rightarrow> None | Some r \<Rightarrow> r)"

lemma send_failure_simps [simp]:
  "send_failure 0 sends = None" "send_failure n [] = None"
  "send_failure (Suc n) (r # sends) = (if r = None then send_failure n sends else r)"
  by (simp_all add: send_failure_def)

lemma serve_lines_run:
  assumes "service_ok (sv_service s)"
  shows "case send_failure (length (filter (\<lambda>line. \<exists>b\<in>set line. \<not> is_space b) ls)) (sv_send_results s) of
      None \<Rightarrow> \<exists>outs t. serve_lines H R L ls s = (Inr (), t) \<and> service_ok (sv_service t) \<and> sv_sent t = sv_sent s @ outs \<and>
        list_all2 answers_line (filter (\<lambda>line. \<exists>b\<in>set line. \<not> is_space b) ls) outs
    | Some e \<Rightarrow> \<exists>t. serve_lines H R L ls s = (Inl e, t) \<and> service_ok (sv_service t)"
  using assms
proof (induction ls arbitrary: s)
  case (Cons line ls)
  show ?case
  proof (cases "\<exists>b\<in>set line. \<not> is_space b")
    case False
    have "serve_lines H R L (line # ls) s = serve_lines H R L ls s" by (simp add: serve_line_blank [OF False] bindE_return)
    moreover have "filter (\<lambda>line. \<exists>b\<in>set line. \<not> is_space b) (line # ls) = filter (\<lambda>line. \<exists>b\<in>set line. \<not> is_space b) ls"
      using False by simp
    ultimately show ?thesis using Cons.IH [OF Cons.prems] by (simp only:)
  next
    case True
    obtain out u where p: "process_line H R L line (sv_service s) = (Inr out, u)" "answers_line line out" "service_ok u"
      using process_line_answers [OF Cons.prems] by blast
    let ?n = "length (filter (\<lambda>line. \<exists>b\<in>set line. \<not> is_space b) ls)"
    have sent: ?thesis if rs: "sv_send_results s = [] \<or> hd (sv_send_results s) = None"
    proof -
      let ?s = "s\<lparr>sv_service := u, sv_sent := sv_sent s @ [out], sv_send_results := tl (sv_send_results s)\<rparr>"
      have "serve_line H R L line s = (Inr (), ?s)"
        using rs by (cases "sv_send_results s") (simp_all add: serve_line_sends [OF p(1) True] send_all_def)
      then have run: "serve_lines H R L (line # ls) s = serve_lines H R L ls ?s" by simp
      have f: "send_failure (Suc ?n) (sv_send_results s) = send_failure ?n (sv_send_results ?s)"
        using rs by (cases "sv_send_results s") simp_all
      have "service_ok (sv_service ?s)" using p(3) by simp
      from Cons.IH [OF this] f run True p(2) show ?thesis
        by (auto split: option.splits)
    qed
    show ?thesis
    proof (cases "sv_send_results s")
      case (Cons r rs)
      with sent True p show ?thesis by (cases r) (simp_all add: serve_line_sends [OF p(1) True] send_all_def bindE_def)
    qed (use sent in simp)
  qed
qed simp

text \<open>
  A connection as its client and the network make it: the chunks, what ends the stream (its
  end, or an exception of \<open>recv\<close>) and the results of \<open>sendall\<close>. The exception that it raises:
  of the first \<open>sendall\<close> that fails while one line is sent for each request, and if none does
  the one of \<open>recv\<close>.
\<close>

type_synonym connection = "bytes list \<times> exn option \<times> exn option list"

definition traffic :: "connection \<Rightarrow> bytes res list \<times> exn option list" where
  "traffic = (\<lambda>(chunks, e, sends). (map Inr chunks @ [stream_end e], sends))"

definition connection_failure :: "connection \<Rightarrow> exn option" where
  "connection_failure = (\<lambda>(chunks, e, sends). case send_failure (length (requests (concat chunks))) sends of
      None \<Rightarrow> e
    | Some x \<Rightarrow> Some x)"

lemma serve_connection_run:
  assumes "service_ok s" "\<forall>c\<in>set chunks. c \<noteq> []" "start = \<lparr>sv_service = s, sv_sent = [], sv_send_results = sends, sv_closed = False\<rparr>"
  shows "case connection_failure (chunks, e, sends) of
      None \<Rightarrow> \<exists>t. serve_connection H R L (map Inr chunks @ [stream_end e]) start = (Inr (), t) \<and>
        service_ok (sv_service t) \<and> list_all2 answers_line (requests (concat chunks)) (sv_sent t)
    | Some x \<Rightarrow> \<exists>t. serve_connection H R L (map Inr chunks @ [stream_end e]) start = (Inl x, t) \<and> service_ok (sv_service t)"
proof -
  have "serve_connection H R L (map Inr chunks @ [stream_end e]) start = finallyE
      (bindE (serve_lines H R L (fst (complete_lines [] (concat chunks)))) (\<lambda>_. then_end e)) (\<lambda>s. s\<lparr>sv_closed := True\<rparr>) start"
    using serve_chunks_lines [OF assms(2), of "[]" H R L e] by (simp add: serve_connection_def)
  moreover have "service_ok (sv_service start)" "sv_sent start = []" "sv_send_results start = sends" using assms(1,3) by simp_all
  ultimately show ?thesis
    using serve_lines_run [of start, where ls = "fst (complete_lines [] (concat chunks))" and H = H and R = R and L = L]
    by (cases e) (auto simp: connection_failure_def requests_def then_end_def finallyE_def bindE_def split: option.splits)
qed

text \<open>
  C12: the service answers every request line until a connection fails. Started well formed,
  and for any number of connections, each cut into chunks in any way: when neither \<open>recv\<close> nor
  \<open>sendall\<close> raises on any of them, the accept loop serves them one after the other without an
  exception and sends on each, in order, exactly one response line per completed line of that
  connection that is not blank (blank lines are skipped). Otherwise the first connection on
  which one of the two raises ends the loop with that exception, and no later one is served.
  In both cases the service is well formed.
\<close>

theorem every_client_is_answered:
  assumes "service_ok s" "\<forall>chunks\<in>fst ` set conns. \<forall>c\<in>set chunks. c \<noteq> []"
  shows "case List.find (\<lambda>c. connection_failure c \<noteq> None) conns of
      None \<Rightarrow> \<exists>outs t. serve_all H R L (map traffic conns) s = (Inr outs, t) \<and> service_ok t \<and>
        list_all2 (\<lambda>(chunks, _) sent. list_all2 answers_line (requests (concat chunks)) sent) conns outs
    | Some c \<Rightarrow> \<exists>e t. connection_failure c = Some e \<and> serve_all H R L (map traffic conns) s = (Inl e, t) \<and> service_ok t"
  using assms
proof (induction conns arbitrary: s)
  case (Cons c conns)
  obtain chunks e sends where c: "c = (chunks, e, sends)" by (rule prod_cases3)
  have ne: "\<forall>x\<in>set chunks. x \<noteq> []" using Cons.prems(2) by (simp add: c)
  note run = serve_connection_run [OF Cons.prems(1) ne refl, where e = e and sends = sends and H = H and R = R and L = L]
  show ?case
  proof (cases "connection_failure c")
    case (Some x)
    with run show ?thesis by (auto simp: c traffic_def)
  next
    case None
    with run obtain t where t: "serve_connection H R L (map Inr chunks @ [stream_end e])
        \<lparr>sv_service = s, sv_sent = [], sv_send_results = sends, sv_closed = False\<rparr> = (Inr (), t)"
      "service_ok (sv_service t)" "list_all2 answers_line (requests (concat chunks)) (sv_sent t)" by (auto simp: c)
    from Cons.IH [OF t(2)] Cons.prems(2) t(1,3) None show ?thesis
      by (fastforce simp: c traffic_def split: option.splits)
  qed
qed simp

theorem every_client_is_answered_witness:
  "(\<exists>outs t. serve_all example_host toy_ratchet_lib example_lib
      (map traffic [([[123], [125, 10, 10, 91, 10]], None, [None]), ([], None, []), ([[0, 10]], None, [])])
      (new_service example_world) = (Inr outs, t) \<and> map length outs = [2, 0, 1]) \<and>
   (\<exists>t. serve_all example_host toy_ratchet_lib example_lib
      (map traffic [([[123, 10, 91, 10]], None, [None, Some OSError]), ([[0, 10]], None, [])])
      (new_service example_world) = (Inl OSError, t))"
proof -
  have ok: "service_ok (new_service example_world)"
    by (rule new_service_ok) (simp add: names_ok_def example_world_def)
  have q: "requests [123, 125, 10, 10, 91, 10] = [[123, 125], [91]]" "requests [] = []" "requests [0, 10] = [[0]]"
    "requests [123, 10, 91, 10] = [[123], [91]]"
    by (simp_all add: requests_def is_space_def)
  let ?good = "[([[123], [125, 10, 10, 91, 10]], None, [None]), ([], None, []), ([[0, 10]], None, [])] :: connection list"
  let ?bad = "[([[123, 10, 91, 10]], None, [None, Some OSError]), ([[0, 10]], None, [])] :: connection list"
  have g: "List.find (\<lambda>c. connection_failure c \<noteq> None) ?good = None" "\<forall>chunks\<in>fst ` set ?good. \<forall>c\<in>set chunks. c \<noteq> []"
    by (simp_all add: connection_failure_def q eval_nat_numeral)
  have b: "connection_failure (hd ?bad) = Some OSError" "\<forall>chunks\<in>fst ` set ?bad. \<forall>c\<in>set chunks. c \<noteq> []"
    by (simp_all add: connection_failure_def q eval_nat_numeral)
  obtain outs t where r: "serve_all example_host toy_ratchet_lib example_lib (map traffic ?good) (new_service example_world) = (Inr outs, t)"
    and l: "list_all2 (\<lambda>(chunks, _) sent. list_all2 answers_line (requests (concat chunks)) sent) ?good outs"
    using every_client_is_answered [OF ok g(2), of example_host toy_ratchet_lib example_lib] g(1) by auto
  have "map length outs = map (\<lambda>(chunks, _). length (requests (concat chunks))) ?good"
    using l by (auto simp: list_all2_Cons1 dest!: list_all2_lengthD)
  then have n: "map length outs = [2, 0, 1]" by (simp add: q)
  have "List.find (\<lambda>c. connection_failure c \<noteq> None) ?bad = Some (hd ?bad)" using b(1) by simp
  then have "\<exists>t. serve_all example_host toy_ratchet_lib example_lib (map traffic ?bad) (new_service example_world) = (Inl OSError, t)"
    using every_client_is_answered [OF ok b(2), of example_host toy_ratchet_lib example_lib] b(1) by auto
  then obtain u where u: "serve_all example_host toy_ratchet_lib example_lib (map traffic ?bad) (new_service example_world) = (Inl OSError, u)" by blast
  show ?thesis by (rule conjI, rule exI [of _ outs], rule exI [of _ t], rule conjI [OF r n], rule exI [of _ u], rule u)
qed

end
