(* ===== verification/Peer_Check.thy ===== *)
theory Peer_Check
  imports Py_Json
begin

text \<open>
  \<open>_check_peer_uid\<close> of crypto_service.py: whether the process at the other end of a connection
  runs under the service's user. What the operating system answers is a record of parameters.
  The function is called by no other code of the repository.
\<close>

section \<open>Texts\<close>

text \<open>\<open>str.splitlines()\<close>: the line boundaries of Python, a carriage return with its line feed as one.\<close>

definition line_end :: "nat \<Rightarrow> bool" where
  "line_end c \<longleftrightarrow> 10 \<le> c \<and> c \<le> 13 \<or> 28 \<le> c \<and> c \<le> 30 \<or> c = 133 \<or> c = 8232 \<or> c = 8233"

function lines_from :: "pystr \<Rightarrow> pystr \<Rightarrow> pystr list" where
  "lines_from line [] = (if line = [] then [] else [line])"
| "lines_from line (c # s) =
     (if line_end c then line # lines_from [] (if c = 13 \<and> take 1 s = [10] then drop 1 s else s)
      else lines_from (line @ [c]) s)"
  by pat_completeness auto
termination by (relation "measure (\<lambda>(line, s). length s)") auto

definition splitlines :: "pystr \<Rightarrow> pystr list" where "splitlines s = lines_from [] s"

text \<open>\<open>str.split()\<close>: runs of white space separate the words.\<close>

fun words_from :: "pystr \<Rightarrow> pystr \<Rightarrow> pystr list" where
  "words_from word [] = (if word = [] then [] else [word])"
| "words_from word (c # s) =
     (if white c then (if word = [] then words_from [] s else word # words_from [] s)
      else words_from (word @ [c]) s)"

definition split_words :: "pystr \<Rightarrow> pystr list" where "split_words s = words_from [] s"

section \<open>The check\<close>

text \<open>
  \<open>os.getuid()\<close>; the bytes of \<open>SO_PEERCRED\<close> and the machine's byte order; the peer's process
  from \<open>LOCAL_PEERPID\<close> through \<open>ctypes\<close>, None when the call reports an error; the text of
  \<open>/proc/<pid>/status\<close>.
\<close>

record peer_env =
  pe_getuid :: "int res"
  pe_peercred :: "bytes res"
  pe_big_endian :: bool
  pe_peerpid :: "int option res"
  pe_status :: "int \<Rightarrow> pystr res"

definition native_uint :: "bool \<Rightarrow> bytes \<Rightarrow> int" where
  "native_uint big bs = int (if big then be_nat bs else le_nat bs)"

text \<open>The second field of \<open>struct.unpack("III", cred)\<close>\<close>

definition unpack_uid :: "bool \<Rightarrow> bytes \<Rightarrow> int res" where
  "unpack_uid big cred =
     (if length cred = 12 then Inr (native_uint big (take 4 (drop 4 cred))) else Inl StructError)"

text \<open>The loop over the lines of the status file; its \<open>IndexError\<close> is caught with everything else.\<close>

fun status_uid :: "pystr list \<Rightarrow> int option res" where
  "status_uid [] = Inr None"
| "status_uid (line # lines) =
     (if take 4 line = lit ''Uid:''
      then (case split_words line of
          _ # word # _ \<Rightarrow> bindR (int_word word) (\<lambda>n. Inr (Some n))
        | _ \<Rightarrow> Inl (LibraryError ''IndexError''))
      else status_uid lines)"

text \<open>The second attempt: the user of the process that the socket names.\<close>

definition proc_uid :: "peer_env \<Rightarrow> int option res" where
  "proc_uid E =
     bindR (pe_peerpid E) (\<lambda>found. case found of
       None \<Rightarrow> Inr None
     | Some pid \<Rightarrow> bindR (pe_status E pid) (\<lambda>uid_str. status_uid (splitlines uid_str)))"

definition check_peer_uid :: "peer_env \<Rightarrow> bool res" where
  "check_peer_uid E =
     bindR (pe_getuid E) (\<lambda>own_uid.
     case bindR (pe_peercred E) (unpack_uid (pe_big_endian E)) of
       Inr peer_uid \<Rightarrow> Inr (peer_uid = own_uid)
     | Inl e \<Rightarrow>
         if \<not> (is_os_error e \<or> e = AttributeError) then Inl e
         else (case proc_uid E of
             Inr (Some peer_uid) \<Rightarrow> Inr (peer_uid = own_uid)
           | _ \<Rightarrow> Inr True))"

section \<open>What it decides\<close>

lemma int_word_dec_nat: "int_word (dec_nat n) = Inr (int n)"
proof -
  have ok: "numeral_ok d s \<longleftrightarrow> d \<or> s \<noteq> []" if "\<forall>c\<in>set s. is_digit c" for d s
    using that by (induction s arbitrary: d) auto
  have d: "\<forall>c\<in>set (dec_nat n). is_digit c" using dec_nat_digits by blast
  have ne: "dec_nat n \<noteq> []" by (subst dec_nat.simps) simp
  with d have "take 1 (dec_nat n) \<noteq> [43]" "take 1 (dec_nat n) \<noteq> [45]"
    by (cases "dec_nat n"; force simp: is_digit_def)+
  moreover have "filter is_digit (dec_nat n) = dec_nat n" using d by (simp add: filter_id_conv)
  ultimately show ?thesis using ok [OF d] ne by (simp add: int_word_def)
qed

lemma words_from_word: "\<forall>c\<in>set s. \<not> white c \<Longrightarrow> words_from w (s @ r) = words_from (w @ s) r"
  by (induction s arbitrary: w) auto

text \<open>A line of the status file, as the kernel prints it, gives the user that it names.\<close>

lemma status_line:
  assumes "r = [] \<or> white (hd r)"
  shows "status_uid ((lit ''Uid:'' @ 9 # dec_nat n @ r) # lines) = Inr (Some (int n))"
proof -
  have "\<not> white c" if "is_digit c" for c using that by (auto simp: is_digit_def white_def)
  then have w: "\<forall>c\<in>set (dec_nat n). \<not> white c" using dec_nat_digits by blast
  have u: "\<forall>c\<in>set (lit ''Uid:''). \<not> white c" "length (lit ''Uid:'') = 4" "lit ''Uid:'' \<noteq> []" by (simp_all add: lit_def white_def)
  have ne: "dec_nat n \<noteq> []" by (subst dec_nat.simps) simp
  have "white 9" by (simp add: white_def)
  with ne have "split_words (lit ''Uid:'' @ 9 # dec_nat n @ r) = lit ''Uid:'' # words_from (dec_nat n) r"
    using words_from_word [OF u(1), of "[]"] words_from_word [OF w, of "[]" r] u(3) by (simp add: split_words_def)
  moreover have "\<exists>ws. words_from (dec_nat n) r = dec_nat n # ws" using assms ne by (cases r) auto
  ultimately show ?thesis using int_word_dec_nat u(2) by auto
qed

lemma status_skip: "take 4 line \<noteq> lit ''Uid:'' \<Longrightarrow> status_uid (line # lines) = status_uid lines"
  by simp

text \<open>With the credentials of the socket the answer is the comparison of the two users.\<close>

lemma peer_check_by_credentials:
  assumes "pe_getuid E = Inr own" "length pid = 4" "length gid = 4" "0 \<le> uid" "uid < 2 ^ 32"
    and "pe_peercred E = Inr (pid @ (if pe_big_endian E then be_bytes 4 (nat uid) else le_bytes 4 (nat uid)) @ gid)"
  shows "check_peer_uid E = Inr (uid = own)"
proof -
  have "nat uid < 256 ^ 4" using assms(4,5) by simp
  then have "native_uint True (be_bytes 4 (nat uid)) = uid" "native_uint False (le_bytes 4 (nat uid)) = uid"
    using assms(4) by (simp_all add: native_uint_def be_nat_be_bytes le_nat_le_bytes)
  then show ?thesis using assms by (simp add: check_peer_uid_def unpack_uid_def)
qed

text \<open>
  A connection is refused only when the system names a user, in the credentials or in the
  status file, and it is another one. Without an answer of the system it is accepted. The
  only exceptions are those of \<open>os.getuid\<close>, \<open>struct.error\<close> for credentials of another length,
  and what \<open>getsockopt\<close> raises beside \<open>OSError\<close> and \<open>AttributeError\<close>.
\<close>

lemma peer_check_refuses:
  "check_peer_uid E = Inr False \<longleftrightarrow> (\<exists>own peer. pe_getuid E = Inr own \<and> peer \<noteq> own \<and>
     (bindR (pe_peercred E) (unpack_uid (pe_big_endian E)) = Inr peer \<or>
      (\<exists>e. pe_peercred E = Inl e \<and> (is_os_error e \<or> e = AttributeError) \<and> proc_uid E = Inr (Some peer))))"
proof (cases "pe_getuid E")
  case own: (Inr own)
  show ?thesis
  proof (cases "pe_peercred E")
    case (Inl e)
    with own show ?thesis by (auto simp: check_peer_uid_def split: sum.split option.split)
  next
    case (Inr cred)
    with own show ?thesis by (simp add: check_peer_uid_def unpack_uid_def)
  qed
qed (simp add: check_peer_uid_def)

lemma peer_check_fails_open:
  assumes "pe_getuid E = Inr own" "pe_peercred E = Inl e" "is_os_error e \<or> e = AttributeError" "\<forall>peer. proc_uid E \<noteq> Inr (Some peer)"
  shows "check_peer_uid E = Inr True"
  using assms by (auto simp: check_peer_uid_def split: sum.split option.split)

lemma peer_check_raises:
  assumes "check_peer_uid E = Inl e"
  shows "pe_getuid E = Inl e \<or> e = StructError \<or> pe_peercred E = Inl e \<and> \<not> is_os_error e \<and> e \<noteq> AttributeError"
proof (cases "pe_getuid E")
  case own: (Inr own)
  show ?thesis
  proof (cases "pe_peercred E")
    case (Inl e')
    with own assms show ?thesis by (auto simp: check_peer_uid_def split: sum.splits option.splits if_splits)
  next
    case (Inr cred)
    with own assms show ?thesis by (simp add: check_peer_uid_def unpack_uid_def split: if_splits)
  qed
qed (use assms in \<open>simp add: check_peer_uid_def\<close>)

end
