(* ===== verification/Main_Service.thy ===== *)
theory Main_Service
  imports Service_Login
begin

text \<open>
  main.py, the asyncio variant of the service: one symmetric key per conversation from
  PQXDH, without a ratchet and without signatures on messages. The module globals are the
  record \<open>main_state\<close> with the disk (KEYSTORE_DIR), each \<open>handle_\<close> coroutine is a definition
  of its own, and \<open>main_dispatch\<close> is the table \<open>HANDLERS\<close>. The three handlers that set up a
  conversation are cut where they wait for a handshake in another thread: \<open>begin_\<close> is the
  part before, \<open>run_job\<close> the handshake and the rest. Names, passwords and plaintexts are strings; another type there
  raises \<open>TypeError\<close> at the first use. Removing the keystore directory succeeds.
\<close>

section \<open>State\<close>

text \<open>
  Supplied by the host: the text of exceptions, \<open>repr\<close> of a value, and what a line that is
  not plain UTF-8 decodes to (\<open>json.loads\<close> on bytes also detects UTF-16 and UTF-32).
\<close>

record main_host =
  mh_exn_text :: "exn \<Rightarrow> pystr"
  mh_repr :: "pyval \<Rightarrow> pystr"
  mh_decode :: "bytes \<Rightarrow> pystr res"

record main_state =
  ms_store :: "StateStore option"
  ms_password :: pyval
  ms_srp_session :: "srp_session option"
  ms_session_keys :: "pyval \<Rightarrow> bytes option"
  ms_pending_bundles :: "pyval \<Rightarrow> pydict option"
  ms_world :: world

definition new_main :: "world \<Rightarrow> main_state" where
  "new_main w = \<lparr>ms_store = None, ms_password = PNone, ms_srp_session = None,
     ms_session_keys = (\<lambda>_. None), ms_pending_bundles = (\<lambda>_. None), ms_world = w\<rparr>"

definition on_home :: "(world, 'a) eff \<Rightarrow> (main_state, 'a) eff" where
  "on_home = zoomE ms_world (\<lambda>w s. s\<lparr>ms_world := w\<rparr>)"

definition on_random :: "(entropy, 'a) eff \<Rightarrow> (main_state, 'a) eff" where
  "on_random m = on_home (on_tape m)"

definition on_login :: "(srp_session, 'a) eff \<Rightarrow> (main_state, 'a) eff" where
  "on_login = zoomE (\<lambda>s. the (ms_srp_session s)) (\<lambda>x s. s\<lparr>ms_srp_session := Some x\<rparr>)"

definition IDENTITY :: pystr where "IDENTITY = lit ''identity''"

text \<open>
  A value as a key of a dictionary: lists and dictionaries are not hashable, a boolean
  is the same key as 0 or 1, and a float that is a whole number the same as the integer.
\<close>

fun hash_key :: "pyval \<Rightarrow> pyval res" where
  "hash_key (PList vs) = Inl TypeError"
| "hash_key (PDict d) = Inl TypeError"
| "hash_key (PBool b) = Inr (PInt (if b then 1 else 0))"
| "hash_key (PFloat t) = Inr (case float_whole t of Some n \<Rightarrow> PInt n | None \<Rightarrow> PFloat t)"
| "hash_key v = Inr v"

section \<open>Answers\<close>

definition error_answer :: "pystr \<Rightarrow> pydict" where
  "error_answer msg = [(lit ''error'', PStr msg)]"

definition not_authenticated :: "pystr \<Rightarrow> pydict" where
  "not_authenticated msg = [(lit ''authenticated'', PBool False), (lit ''error'', PStr msg)]"

definition success_answer :: pydict where
  "success_answer = [(lit ''success'', PBool True)]"

definition already_established :: pydict where
  "already_established = [(lit ''success'', PBool True), (lit ''already_established'', PBool True)]"

text \<open>\<open>except Exception: log.exception(...); return a\<close>\<close>

definition or_answer :: "pydict \<Rightarrow> (main_state, pydict) eff \<Rightarrow> (main_state, pydict) eff" where
  "or_answer a m = tryE m (\<lambda>_. Some (returnE a))"

section \<open>Helpers\<close>

definition load_identity :: "crypto \<Rightarrow> (main_state, IdentityBundle option) eff" where
  "load_identity L =
     bindE (getE ms_store) (\<lambda>found. case found of
       None \<Rightarrow> returnE None
     | Some st \<Rightarrow>
         tryE (bindE (on_home (load_state L st IDENTITY)) (\<lambda>private_data.
               bindE (liftE (bindR (as_dict private_data) (from_private_bundle L))) (\<lambda>b. returnE (Some b))))
           (\<lambda>_. Some (returnE None)))"

definition open_home :: "crypto \<Rightarrow> pyval \<Rightarrow> (main_state, StateStore option) eff" where
  "open_home L password =
     tryE (bindE (liftE (as_str password)) (\<lambda>pw.
           bindE (on_home (load_store L pw)) (\<lambda>st.
           bindE (on_home (load_state L st IDENTITY)) (\<lambda>_.
           bindE (modifyE (\<lambda>s. s\<lparr>ms_store := Some st, ms_password := password\<rparr>)) (\<lambda>_.
           returnE (Some st))))))
       (\<lambda>_. Some (returnE None))"

definition ensure_keystore :: "crypto \<Rightarrow> pyval \<Rightarrow> (main_state, StateStore option) eff" where
  "ensure_keystore L password =
     bindE (getE (\<lambda>s. (ms_store s, ms_password s))) (\<lambda>(found, cached). case found of
       Some st \<Rightarrow> if py_eq password cached then returnE (Some st) else open_home L password
     | None \<Rightarrow> open_home L password)"

text \<open>\<open>params.get(k) or params.get(j, v)\<close>\<close>

definition param_or :: "pyval \<Rightarrow> string \<Rightarrow> string \<Rightarrow> pyval \<Rightarrow> pyval res" where
  "param_or params k j v = bindR (param_get params k PNone) (\<lambda>x. if truthy x then Inr x else param_get params j v)"

section \<open>Keystore and registration\<close>

definition handle_unlock_keystore :: "crypto \<Rightarrow> pyval \<Rightarrow> (main_state, pydict) eff" where
  "handle_unlock_keystore L params =
     bindE (liftE (param_or params ''keystore_password'' ''password'' (PStr []))) (\<lambda>password.
     if \<not> truthy password then returnE (failure (lit ''keystore_password is required.''))
     else or_answer (failure (lit ''Internal server error.''))
       (bindE (ensure_keystore L password) (\<lambda>found. returnE (case found of
          None \<Rightarrow> failure (lit ''Invalid password or no keystore found. Register first.'')
        | Some st \<Rightarrow> success_answer))))"

text \<open>\<open>shutil.rmtree(KEYSTORE_DIR)\<close>\<close>

definition remove_home :: "world \<Rightarrow> world" where
  "remove_home w = w\<lparr>base_exists := False, salt_file := None, sess_files := []\<rparr>"

text \<open>An existing keystore has to open with the password and is then removed; \<open>Some\<close> is an early return.\<close>

definition clear_home :: "crypto \<Rightarrow> pystr \<Rightarrow> (main_state, pydict option) eff" where
  "clear_home L password =
     bindE (getE (\<lambda>s. base_exists (ms_world s))) (\<lambda>there.
     if \<not> there then returnE None
     else
       bindE (tryE (bindE (on_home (load_store L password)) (\<lambda>existing.
                    bindE (on_home (load_state L existing IDENTITY)) (\<lambda>_. returnE None)))
           (\<lambda>e. if e = InvalidTag then Some (returnE (Some (error_answer
              (lit ''Wrong password '' @ dash @ lit '' cannot overwrite existing keystore.'')))) else None)) (\<lambda>refusal.
       case refusal of
         Some a \<Rightarrow> returnE (Some a)
       | None \<Rightarrow> bindE (on_home (modifyE remove_home)) (\<lambda>_. returnE None)))"

definition new_home :: "crypto \<Rightarrow> pystr \<Rightarrow> pystr \<Rightarrow> (main_state, IdentityBundle) eff" where
  "new_home L username password =
     bindE (on_random (generate_identity_bundle L username OPK_COUNT)) (\<lambda>bundle.
     bindE (on_home (create_store L password)) (\<lambda>st.
     bindE (liftE (to_private_bundle L bundle)) (\<lambda>d.
     bindE (on_home (save_state L st IDENTITY (PDict d))) (\<lambda>_.
     bindE (modifyE (\<lambda>s. s\<lparr>ms_store := Some st, ms_password := PStr password\<rparr>)) (\<lambda>_.
     returnE bundle)))))"

text \<open>What the server gets: the nonce is looked at only here, after the keystore is written.\<close>

definition registration_answer ::
    "crypto \<Rightarrow> pystr \<Rightarrow> pystr \<Rightarrow> pyval \<Rightarrow> IdentityBundle \<Rightarrow> (main_state, pydict) eff" where
  "registration_answer L username password nonce bundle =
     bindE (on_random (drawE (urandom 32))) (\<lambda>salt.
     bindE (liftE (create_srp_verifier L username password salt)) (\<lambda>verifier.
     bindE (liftE (if truthy nonce then py_len nonce else Inr 0)) (\<lambda>n.
     if n \<noteq> 64 then returnE (error_answer (lit ''nonce must be exactly 64 hex chars, got '' @ dec_int (int n)))
     else
       bindE (liftE (fromhex_val nonce)) (\<lambda>nonce_bytes.
       bindE (on_random (hybrid_sign L (ik_sig bundle) nonce_bytes)) (\<lambda>nonce_signature.
       bindE (liftE (to_public_bundle L bundle)) (\<lambda>pub_bundle.
       returnE (dict_merge pub_bundle
         [(lit ''srp_salt'', PHex salt), (lit ''srp_verifier'', PHex verifier),
          (lit ''idk_classical_pub'', PHex (public_key_bytes L (ik_classical bundle))),
          (lit ''idk_pq_pub'', PHex (kem_public_key (ik_kem bundle))),
          (lit ''identity_signing_pub'', PHex (sig_public_key (ik_sig bundle))),
          (lit ''signed_prekey_pub'', PHex (public_key_bytes L (spk_keypair (spk bundle)))),
          (lit ''signed_prekey_signature'', PHex (spk_signature (spk bundle))),
          (lit ''device_name'', PNone),
          (lit ''nonce'', nonce), (lit ''nonce_signature'', PHex nonce_signature)])))))))"

definition handle_generate_identity_bundle :: "crypto \<Rightarrow> pyval \<Rightarrow> (main_state, pydict) eff" where
  "handle_generate_identity_bundle L params =
     bindE (liftE (param_or params ''keystore_password'' ''password'' (PStr []))) (\<lambda>password.
     bindE (liftE (param_or params ''user_id'' ''username'' (PStr (lit ''local'')))) (\<lambda>username.
     bindE (liftE (param_get params ''nonce'' (PStr []))) (\<lambda>nonce.
     if \<not> truthy password then returnE (error_answer (lit ''keystore_password is required.''))
     else or_answer (error_answer (lit ''Internal server error.''))
       (bindE (liftE (as_str password)) (\<lambda>pw.
        bindE (clear_home L pw) (\<lambda>early. case early of
          Some answer \<Rightarrow> returnE answer
        | None \<Rightarrow>
            bindE (liftE (as_str username)) (\<lambda>user.
            bindE (new_home L user pw) (\<lambda>bundle.
            registration_answer L user pw nonce bundle))))))))"

section \<open>SRP login\<close>

definition handle_srp_start :: "pyval \<Rightarrow> (main_state, pydict) eff" where
  "handle_srp_start params =
     bindE (liftE (param_get params ''username'' (PStr []))) (\<lambda>username.
     bindE (liftE (param_get params ''password'' (PStr []))) (\<lambda>password.
     if \<not> truthy username \<or> \<not> truthy password
     then returnE (error_answer (lit ''username and password required.''))
     else or_answer (error_answer (lit ''SRP initialisation failed.''))
       (bindE (liftE (as_str username)) (\<lambda>user. bindE (liftE (as_str password)) (\<lambda>pw.
        bindE (on_random (new_srp_session user pw)) (\<lambda>session.
        bindE (modifyE (\<lambda>s. s\<lparr>ms_srp_session := Some session\<rparr>)) (\<lambda>_.
        bindE (liftE (A_hex session)) (\<lambda>a.
        returnE [(lit ''A'', PStr a)]))))))))"

definition handle_srp_challenge :: "main_host \<Rightarrow> crypto \<Rightarrow> pyval \<Rightarrow> (main_state, pydict) eff" where
  "handle_srp_challenge H L params =
     bindE (getE ms_srp_session) (\<lambda>session.
     if session = None then returnE (error_answer (lit ''Call srp_start first.''))
     else
       bindE (liftE (param_get params ''salt'' (PStr []))) (\<lambda>salt.
       bindE (liftE (param_get params ''B'' (PStr []))) (\<lambda>B.
       if \<not> truthy salt \<or> \<not> truthy B then returnE (error_answer (lit ''salt and B required.''))
       else tryE (bindE (on_login (process_challenge L salt B)) (\<lambda>M1. returnE [(lit ''M1'', PStr M1)]))
         (\<lambda>e. Some (returnE (error_answer (mh_exn_text H e)))))))"

definition handle_srp_verify :: "pyval \<Rightarrow> (main_state, pydict) eff" where
  "handle_srp_verify params =
     bindE (getE ms_srp_session) (\<lambda>session. case session of
       None \<Rightarrow> returnE (not_authenticated (lit ''Call srp_start first.''))
     | Some srp \<Rightarrow>
         bindE (liftE (param_get params ''M2'' (PStr []))) (\<lambda>M2.
         if \<not> truthy M2 then returnE (not_authenticated (lit ''M2 required.''))
         else or_answer (not_authenticated (lit ''Verification failed.''))
           (if verify_server srp M2
            then bindE (liftE (session_key_hex srp)) (\<lambda>k.
              returnE [(lit ''authenticated'', PBool True), (lit ''session_key'', PStr k)])
            else returnE (not_authenticated (lit ''Server authentication failed.'')))))"

section \<open>Conversations\<close>

text \<open>
  What a handler hands to its thread: the conversation, the loaded identity and the remote
  bundle or initiation bundle; for a received message also the envelope's other fields. Parsing
  the bundle, which comes before the wait and reads no global, is part of the job.
\<close>

datatype job =
    Initiate (job_key: pyval) IdentityBundle pyval
  | Respond (job_key: pyval) IdentityBundle pyval
  | Receive (job_key: pyval) IdentityBundle pyval pyval pyval pyval

definition begin_initiate :: "crypto \<Rightarrow> pyval \<Rightarrow> (main_state, pydict + job) eff" where
  "begin_initiate L params =
     bindE (liftE (param_get params ''conversation_id'' (PStr []))) (\<lambda>conversation_id.
     bindE (liftE (param_get params ''remote_bundle'' (PStr []))) (\<lambda>remote_bundle_str.
     if \<not> truthy conversation_id \<or> \<not> truthy remote_bundle_str
     then returnE (Inl (failure (lit ''conversation_id and remote_bundle required.'')))
     else
       bindE (liftE (hash_key conversation_id)) (\<lambda>k.
       bindE (getE (\<lambda>s. ms_session_keys s k)) (\<lambda>live.
       if live \<noteq> None then returnE (Inl already_established)
       else
         bindE (load_identity L) (\<lambda>found. returnE (case found of
           None \<Rightarrow> Inl (failure (lit ''Keystore not unlocked. Call unlock_keystore first.''))
         | Some local_bundle \<Rightarrow> Inr (Initiate k local_bundle remote_bundle_str)))))))"

definition initiate_job :: "crypto \<Rightarrow> pyval \<Rightarrow> IdentityBundle \<Rightarrow> pyval \<Rightarrow> (main_state, pydict) eff" where
  "initiate_job L k local_bundle remote_bundle_str =
     or_answer (failure (lit ''PQXDH initiation failed.''))
       (bindE (liftE (case remote_bundle_str of PStr t \<Rightarrow> loads t | v \<Rightarrow> Inr v)) (\<lambda>rb.
        bindE (liftE (as_dict rb)) (\<lambda>remote_bundle.
        bindE (on_random (initiate L local_bundle remote_bundle True)) (\<lambda>(SK, ib).
        bindE (modifyE (\<lambda>s. s\<lparr>ms_session_keys := (ms_session_keys s)(k \<mapsto> SK),
          ms_pending_bundles := (ms_pending_bundles s)(k \<mapsto> ib_to_dict ib)\<rparr>)) (\<lambda>_.
        returnE success_answer)))))"

text \<open>The responder's half, with no prekey secrets: \<open>pqxdh_respond(local_bundle, initiation, {}, {})\<close>.\<close>

definition establish :: "crypto \<Rightarrow> IdentityBundle \<Rightarrow> pyval \<Rightarrow> pyval \<Rightarrow> (main_state, unit) eff" where
  "establish L local_bundle k initiation_bundle =
     bindE (liftE (bindR (as_dict initiation_bundle) ib_from_dict)) (\<lambda>initiation.
     bindE (liftE (respond L local_bundle initiation (\<lambda>_. None) (\<lambda>_. None))) (\<lambda>SK.
     modifyE (\<lambda>s. s\<lparr>ms_session_keys := (ms_session_keys s)(k \<mapsto> SK)\<rparr>)))"

definition begin_respond :: "crypto \<Rightarrow> pyval \<Rightarrow> (main_state, pydict + job) eff" where
  "begin_respond L params =
     bindE (liftE (param_get params ''conversation_id'' (PStr []))) (\<lambda>conversation_id.
     bindE (liftE (param_get params ''initiation_bundle'' (PDict []))) (\<lambda>initiation_bundle.
     if \<not> truthy conversation_id \<or> \<not> truthy initiation_bundle
     then returnE (Inl (failure (lit ''conversation_id and initiation_bundle required.'')))
     else
       bindE (liftE (hash_key conversation_id)) (\<lambda>k.
       bindE (getE (\<lambda>s. ms_session_keys s k)) (\<lambda>live.
       if live \<noteq> None then returnE (Inl already_established)
       else
         bindE (load_identity L) (\<lambda>found. returnE (case found of
           None \<Rightarrow> Inl (failure (lit ''Keystore not unlocked.''))
         | Some local_bundle \<Rightarrow> Inr (Respond k local_bundle initiation_bundle)))))))"

definition respond_job :: "crypto \<Rightarrow> pyval \<Rightarrow> IdentityBundle \<Rightarrow> pyval \<Rightarrow> (main_state, pydict) eff" where
  "respond_job L k local_bundle initiation_bundle =
     or_answer (failure (lit ''PQXDH response failed.''))
       (bindE (establish L local_bundle k initiation_bundle) (\<lambda>_. returnE success_answer))"

definition handle_encrypt_message :: "crypto \<Rightarrow> pyval \<Rightarrow> (main_state, pydict) eff" where
  "handle_encrypt_message L params =
     bindE (liftE (param_get params ''conversation_id'' (PStr []))) (\<lambda>conversation_id.
     bindE (liftE (param_get params ''plaintext'' (PStr []))) (\<lambda>plaintext.
     if \<not> truthy conversation_id then returnE (error_answer (lit ''conversation_id required.''))
     else if \<not> truthy plaintext then returnE (error_answer (lit ''plaintext required.''))
     else
       bindE (liftE (hash_key conversation_id)) (\<lambda>k.
       bindE (getE (\<lambda>s. ms_session_keys s k)) (\<lambda>found. case found of
         None \<Rightarrow> returnE (error_answer (lit ''NO_SESSION: call initiate_session first for this conversation.''))
       | Some sk \<Rightarrow>
           or_answer (error_answer (lit ''Encryption failed.''))
             (bindE (on_random (drawE (urandom 12))) (\<lambda>nonce.
              bindE (liftE (bindR (as_str conversation_id) utf8_encode)) (\<lambda>aad.
              bindE (liftE (bindR (as_str plaintext) utf8_encode)) (\<lambda>p.
              bindE (liftE (chacha_encrypt L sk nonce p aad)) (\<lambda>ct.
              bindE (getE (\<lambda>s. ms_pending_bundles s k)) (\<lambda>pending.
              bindE (modifyE (\<lambda>s. s\<lparr>ms_pending_bundles := (ms_pending_bundles s)(k := None)\<rparr>)) (\<lambda>_.
              returnE [(lit ''ciphertext'', PHex ct), (lit ''nonce'', PHex nonce),
                (lit ''conversation_id'', conversation_id),
                (lit ''initiation_bundle'', case pending of None \<Rightarrow> PNone | Some d \<Rightarrow> PDict d)])))))))))))"

definition decrypt_envelope :: "crypto \<Rightarrow> bytes \<Rightarrow> pyval \<Rightarrow> pyval \<Rightarrow> pyval \<Rightarrow> pydict" where
  "decrypt_envelope L sk conversation_id ciphertext_hex nonce_hex =
     (case bindR (fromhex_val nonce_hex) (\<lambda>nonce. bindR (fromhex_val ciphertext_hex) (\<lambda>ct.
        bindR (bindR (as_str conversation_id) utf8_encode) (\<lambda>aad. chacha_decrypt L sk nonce ct aad))) of
        Inr plaintext \<Rightarrow> [(lit ''plaintext'', PStr (utf8_decode_replace plaintext))]
      | Inl e \<Rightarrow> if e = InvalidTag then error_answer (lit ''Decryption failed: authentication tag mismatch.'')
          else error_answer (lit ''Decryption failed.''))"

definition SESSION_FAILED :: pystr where
  "SESSION_FAILED = lit ''Session establishment failed '' @ dash @ lit '' cannot decrypt.''"

text \<open>Decryption with the conversation's key, if there is one.\<close>

definition decrypt_now :: "crypto \<Rightarrow> pyval \<Rightarrow> pyval \<Rightarrow> pyval \<Rightarrow> pyval \<Rightarrow> (main_state, pydict) eff" where
  "decrypt_now L k conversation_id ciphertext_hex nonce_hex =
     bindE (getE (\<lambda>s. ms_session_keys s k)) (\<lambda>found. returnE (case found of
       None \<Rightarrow> error_answer (lit ''NO_SESSION: no established session for this conversation.'')
     | Some sk \<Rightarrow> decrypt_envelope L sk conversation_id ciphertext_hex nonce_hex))"

text \<open>The automatic response to a first message of the conversation is the job \<open>Receive\<close>.\<close>

definition begin_decrypt :: "crypto \<Rightarrow> pyval \<Rightarrow> (main_state, pydict + job) eff" where
  "begin_decrypt L params =
     bindE (liftE (param_get params ''envelope'' (PDict []))) (\<lambda>envelope.
     bindE (liftE (param_get envelope ''conversation_id'' (PStr []))) (\<lambda>conversation_id.
     bindE (liftE (param_get envelope ''ciphertext'' (PStr []))) (\<lambda>ciphertext_hex.
     bindE (liftE (param_get envelope ''nonce'' (PStr []))) (\<lambda>nonce_hex.
     bindE (liftE (param_get envelope ''initiation_bundle'' PNone)) (\<lambda>initiation_bundle.
     if \<not> truthy conversation_id \<or> \<not> truthy ciphertext_hex \<or> \<not> truthy nonce_hex
     then returnE (Inl (error_answer (lit ''envelope must contain conversation_id, ciphertext, and nonce.'')))
     else
       bindE (liftE (hash_key conversation_id)) (\<lambda>k.
       bindE (getE (\<lambda>s. ms_session_keys s k)) (\<lambda>live.
       if live = None \<and> truthy initiation_bundle
       then bindE (load_identity L) (\<lambda>found. returnE (case found of
           None \<Rightarrow> Inl (error_answer (lit ''Keystore not unlocked.''))
         | Some local_bundle \<Rightarrow> Inr (Receive k local_bundle initiation_bundle conversation_id ciphertext_hex nonce_hex)))
       else bindE (decrypt_now L k conversation_id ciphertext_hex nonce_hex) (\<lambda>a. returnE (Inl a)))))))))"

definition receive_job ::
    "crypto \<Rightarrow> pyval \<Rightarrow> IdentityBundle \<Rightarrow> pyval \<Rightarrow> pyval \<Rightarrow> pyval \<Rightarrow> pyval \<Rightarrow> (main_state, pydict) eff" where
  "receive_job L k local_bundle initiation_bundle conversation_id ciphertext_hex nonce_hex =
     bindE (tryE (bindE (establish L local_bundle k initiation_bundle) (\<lambda>_. returnE None))
       (\<lambda>_. Some (returnE (Some (error_answer SESSION_FAILED))))) (\<lambda>early. case early of
       Some answer \<Rightarrow> returnE answer
     | None \<Rightarrow> decrypt_now L k conversation_id ciphertext_hex nonce_hex)"

subsection \<open>The handlers\<close>

fun run_job :: "crypto \<Rightarrow> job \<Rightarrow> (main_state, pydict) eff" where
  "run_job L (Initiate k b v) = initiate_job L k b v"
| "run_job L (Respond k b ib) = respond_job L k b ib"
| "run_job L (Receive k b ib conversation_id ct nonce) = receive_job L k b ib conversation_id ct nonce"

definition and_wait :: "crypto \<Rightarrow> (main_state, pydict + job) eff \<Rightarrow> (main_state, pydict) eff" where
  "and_wait L m = bindE m (\<lambda>r. case r of Inl answer \<Rightarrow> returnE answer | Inr j \<Rightarrow> run_job L j)"

definition handle_initiate_session :: "crypto \<Rightarrow> pyval \<Rightarrow> (main_state, pydict) eff" where
  "handle_initiate_session L params = and_wait L (begin_initiate L params)"

definition handle_respond_session :: "crypto \<Rightarrow> pyval \<Rightarrow> (main_state, pydict) eff" where
  "handle_respond_session L params = and_wait L (begin_respond L params)"

definition handle_decrypt_message :: "crypto \<Rightarrow> pyval \<Rightarrow> (main_state, pydict) eff" where
  "handle_decrypt_message L params = and_wait L (begin_decrypt L params)"

section \<open>Dispatch and connections\<close>

text \<open>\<open>HANDLERS.get(method)\<close>: an unhashable method raises.\<close>

definition main_dispatch :: "main_host \<Rightarrow> crypto \<Rightarrow> pyval \<Rightarrow> pyval \<Rightarrow> (main_state, pydict) eff" where
  "main_dispatch H L m params =
     bindE (liftE (hash_key m)) (\<lambda>_.
     if m = PStr (lit ''unlock_keystore'') then handle_unlock_keystore L params
     else if m = PStr (lit ''generate_identity_bundle'') then handle_generate_identity_bundle L params
     else if m = PStr (lit ''srp_start'') then handle_srp_start params
     else if m = PStr (lit ''srp_challenge'') then handle_srp_challenge H L params
     else if m = PStr (lit ''srp_verify'') then handle_srp_verify params
     else if m = PStr (lit ''initiate_session'') then handle_initiate_session L params
     else if m = PStr (lit ''respond_session'') then handle_respond_session L params
     else if m = PStr (lit ''encrypt_message'') then handle_encrypt_message L params
     else if m = PStr (lit ''decrypt_message'') then handle_decrypt_message L params
     else returnE (error_answer (lit ''Unknown method: '' @ mh_repr H m)))"

text \<open>\<open>line.strip()\<close> on bytes\<close>

definition is_blank :: "byte \<Rightarrow> bool" where
  "is_blank b \<longleftrightarrow> b = 32 \<or> (9 \<le> b \<and> b \<le> 13)"

definition strip :: "bytes \<Rightarrow> bytes" where
  "strip line = rev (dropWhile is_blank (rev (dropWhile is_blank line)))"

text \<open>
  \<open>json.loads\<close> on bytes: UTF-8 unless a byte-order mark or a zero in the first two bytes says
  otherwise; the decoder lets encoded surrogates pass, which is also left to the host.
\<close>

definition plain_utf8 :: "bytes \<Rightarrow> bool" where
  "plain_utf8 line \<longleftrightarrow> take 3 line \<noteq> [0xEF, 0xBB, 0xBF] \<and> take 2 line \<noteq> [0xFF, 0xFE] \<and>
     take 2 line \<noteq> [0xFE, 0xFF] \<and> \<not> ((4 \<le> length line \<or> length line = 2) \<and> 0 \<in> set (take 2 line))"

definition loads_bytes :: "main_host \<Rightarrow> bytes \<Rightarrow> pyval res" where
  "loads_bytes H line = bindR (case utf8_decode line of
       Inr s \<Rightarrow> if plain_utf8 line then Inr s else mh_decode H line
     | Inl e \<Rightarrow> mh_decode H line) loads"

text \<open>One line of the reader: nothing, or the line to write.\<close>

definition client_line :: "main_host \<Rightarrow> crypto \<Rightarrow> bytes \<Rightarrow> (main_state, bytes option) eff" where
  "client_line H L raw =
     (let line = strip raw in
      if line = [] then returnE None
      else case loads_bytes H line of
        Inl e \<Rightarrow> if e = JSONDecodeError
          then liftE (bindR (dumps (PDict (error_answer (lit ''Invalid JSON'')))) (\<lambda>t.
            bindR (utf8_encode t) (\<lambda>b. Inr (Some (b @ [10])))))
          else raiseE e
      | Inr request \<Rightarrow>
          bindE (liftE (param_get request ''id'' PNone)) (\<lambda>req_id.
          bindE (liftE (param_get request ''method'' (PStr []))) (\<lambda>m.
          bindE (liftE (param_get request ''params'' (PDict []))) (\<lambda>params.
          bindE (main_dispatch H L m params) (\<lambda>response.
          liftE (bindR (dumps_compact (PDict (dict_set response ''id'' req_id))) (\<lambda>t.
            bindR (utf8_encode t) (\<lambda>b. Inr (Some (b @ [10]))))))))))"

text \<open>
  The loop of \<open>handle_client\<close>: the reader gives lines or raises (a line above its limit, a
  lost connection), \<open>drain\<close> may raise; the state carries what was written.
\<close>

definition on_main :: "(main_state, 'a) eff \<Rightarrow> (main_state \<times> bytes list, 'a) eff" where
  "on_main = zoomE fst (\<lambda>s (_, written). (s, written))"

fun client_loop ::
    "main_host \<Rightarrow> crypto \<Rightarrow> bytes res list \<Rightarrow> unit res list \<Rightarrow> (main_state \<times> bytes list, unit) eff" where
  "client_loop H L [] drains = returnE ()"
| "client_loop H L (Inl e # ls) drains = raiseE e"
| "client_loop H L (Inr line # ls) drains =
     bindE (on_main (client_line H L line)) (\<lambda>out. case out of
       None \<Rightarrow> client_loop H L ls drains
     | Some b \<Rightarrow>
         bindE (modifyE (\<lambda>(s, written). (s, written @ [b]))) (\<lambda>_.
         bindE (liftE (case drains of [] \<Rightarrow> Inr () | r # rs \<Rightarrow> r)) (\<lambda>_.
         client_loop H L ls (tl drains))))"

text \<open>Every exception ends this connection only.\<close>

definition handle_client ::
    "main_host \<Rightarrow> crypto \<Rightarrow> bytes res list \<Rightarrow> unit res list \<Rightarrow> (main_state \<times> bytes list, unit) eff" where
  "handle_client H L ls drains = tryE (client_loop H L ls drains) (\<lambda>_. Some (returnE ()))"

end
