(* ===== verification/Main_Requests.thy ===== *)
theory Main_Requests
  imports Main_Service Service_Conversation
begin

text \<open>
  The requests of main.py one by one: the invariant of its globals, which exceptions can
  leave a handler, and registration.
\<close>

section \<open>Exceptions that leave an effect\<close>

definition raises_only :: "exn set \<Rightarrow> ('s, 'a) eff \<Rightarrow> bool" where
  "raises_only E m \<longleftrightarrow> (\<forall>s e t. m s = (Inl e, t) \<longrightarrow> e \<in> E)"

named_theorems raises_intros \<open>composition rules for the exceptions of effects\<close>

lemma raises_leaf [raises_intros]:
  "raises_only E (returnE x)" "raises_only E (getE f)" "raises_only E (modifyE g)"
  by (simp_all add: raises_only_def)

lemma raises_bind_lift [raises_intros]:
  "(\<And>e. r = Inl e \<Longrightarrow> e \<in> E) \<Longrightarrow> (\<And>x. r = Inr x \<Longrightarrow> raises_only E (f x)) \<Longrightarrow> raises_only E (bindE (liftE r) f)"
  by (cases r) (auto simp: raises_only_def bindE_def)

lemma raises_bind [raises_intros]:
  assumes "raises_only E m" "\<And>x. raises_only E (f x)"
  shows "raises_only E (bindE m f)"
  using assms unfolding raises_only_def by (metis bindE_eq_Inl)

lemma raises_if [raises_intros]: "raises_only E m \<Longrightarrow> raises_only E n \<Longrightarrow> raises_only E (if b then m else n)"
  by simp

lemma raises_case_option [raises_intros]:
  "raises_only E m \<Longrightarrow> (\<And>y. raises_only E (f y)) \<Longrightarrow> raises_only E (case x of None \<Rightarrow> m | Some y \<Rightarrow> f y)"
  by (cases x) auto

lemma raises_case_prod [raises_intros]:
  "(\<And>a b. raises_only E (f a b)) \<Longrightarrow> raises_only E (case x of (a, b) \<Rightarrow> f a b)"
  by (cases x) auto

lemma raises_try [raises_intros]: "(\<And>e. raises_only E (k e)) \<Longrightarrow> raises_only E (tryE m (\<lambda>e. Some (k e)))"
  by (auto simp: raises_only_def tryE_def split: prod.splits sum.splits)

lemma raises_or_answer [raises_intros]: "raises_only E (or_answer a m)"
  unfolding or_answer_def by (intro raises_intros)

lemma raises_identity [raises_intros]: "raises_only E (load_identity L)"
  unfolding load_identity_def by (intro raises_intros)

lemma raises_job [raises_intros]: "raises_only E (run_job L j)"
  by (cases j) (simp; unfold initiate_job_def respond_job_def receive_job_def decrypt_now_def, intro raises_intros)+

lemma raises_and_wait: "raises_only E m \<Longrightarrow> raises_only E (and_wait L m)"
  unfolding and_wait_def by (intro raises_bind) (auto intro: raises_intros split: sum.split)

lemma raises_decrypt_now [raises_intros]: "raises_only E (decrypt_now L k c t n)"
  unfolding decrypt_now_def by (intro raises_intros)

text \<open>A request whose parameters have the shape its handler takes for granted.\<close>

definition hashable :: "pyval \<Rightarrow> bool" where
  "hashable v \<longleftrightarrow> (\<forall>e. hash_key v \<noteq> Inl e)"

definition well_shaped :: "pyval \<Rightarrow> pyval \<Rightarrow> bool" where
  "well_shaped m params \<longleftrightarrow> hashable m \<and>
     (\<exists>d e. params = PDict d \<and> hashable (dict_get_or d ''conversation_id'' (PStr [])) \<and>
       dict_get_or d ''envelope'' (PDict []) = PDict e \<and> hashable (dict_get_or e ''conversation_id'' (PStr [])))"

definition escapes :: "pyval \<Rightarrow> pyval \<Rightarrow> exn set" where
  "escapes m params = (if well_shaped m params then {} else {TypeError, AttributeError})"

lemma param_get_Inl: "param_get v k w = Inl e \<Longrightarrow> e = AttributeError \<and> (\<forall>d. v \<noteq> PDict d)"
  by (cases v) (simp_all add: param_get_def)

lemma param_or_Inl: "param_or v k j w = Inl e \<Longrightarrow> e = AttributeError \<and> (\<forall>d. v \<noteq> PDict d)"
  by (auto simp: param_or_def bindR_Inl_iff dest: param_get_Inl split: if_splits)

lemma hash_key_Inl: "hash_key v = Inl e \<Longrightarrow> e = TypeError"
  by (cases v) simp_all

lemma escapes_params:
  "param_get params k w = Inl e \<Longrightarrow> e \<in> escapes m params"
  "param_or params k j w = Inl e \<Longrightarrow> e \<in> escapes m params"
  by (auto simp: escapes_def well_shaped_def dest: param_get_Inl param_or_Inl)

lemma escapes_hash:
  "hash_key m = Inl e \<Longrightarrow> e \<in> escapes m params"
  "param_get params ''conversation_id'' (PStr []) = Inr v \<Longrightarrow> hash_key v = Inl e \<Longrightarrow> e \<in> escapes m params"
  by (auto simp: escapes_def well_shaped_def hashable_def param_get_def dest: hash_key_Inl)

lemma escapes_envelope:
  assumes "param_get params ''envelope'' (PDict []) = Inr v"
  shows "param_get v k w = Inl e \<Longrightarrow> e \<in> escapes m params"
    and "param_get v ''conversation_id'' (PStr []) = Inr u \<Longrightarrow> hash_key u = Inl e \<Longrightarrow> e \<in> escapes m params"
  using assms
  by (auto simp: escapes_def well_shaped_def hashable_def param_get_def dest: hash_key_Inl split: pyval.splits)

lemma raises_handlers:
  "raises_only (escapes m params) (handle_unlock_keystore L params)"
  "raises_only (escapes m params) (handle_generate_identity_bundle L params)"
  "raises_only (escapes m params) (handle_srp_start params)"
  "raises_only (escapes m params) (handle_srp_challenge H L params)"
  "raises_only (escapes m params) (handle_srp_verify params)"
  "raises_only (escapes m params) (handle_encrypt_message L params)"
  "raises_only (escapes m params) (begin_initiate L params)"
  "raises_only (escapes m params) (begin_respond L params)"
  unfolding handle_unlock_keystore_def handle_generate_identity_bundle_def handle_srp_start_def handle_srp_challenge_def
    handle_srp_verify_def handle_encrypt_message_def begin_initiate_def begin_respond_def
  by (intro raises_intros; (erule escapes_params escapes_hash; assumption?))+

lemma raises_decrypt: "raises_only (escapes m params) (begin_decrypt L params)"
  unfolding begin_decrypt_def
  by (intro raises_intros) (auto dest: escapes_params escapes_envelope)

lemmas raises_waiting = raises_handlers(7,8) [THEN raises_and_wait] raises_decrypt [THEN raises_and_wait]

lemma raises_dispatch: "raises_only (escapes m params) (main_dispatch H L m params)"
  unfolding main_dispatch_def
  unfolding handle_initiate_session_def handle_respond_session_def handle_decrypt_message_def
  by (intro raises_intros raises_handlers raises_waiting) (rule escapes_hash)

section \<open>The invariant\<close>

definition main_ok :: "main_state \<Rightarrow> bool" where
  "main_ok s \<longleftrightarrow> names_ok (ms_world s) \<and> (\<forall>k sk. ms_session_keys s k = Some sk \<longrightarrow> length sk = PQXDH_SK_LEN) \<and>
     (\<forall>k d. ms_pending_bundles s k = Some d \<longrightarrow> sendable (PDict d))"

lemma new_main_ok: "names_ok w \<Longrightarrow> main_ok (new_main w)"
  by (simp add: main_ok_def new_main_def)

text \<open>A process, unlocked or not, before its first conversation.\<close>

definition no_conversation :: "main_state \<Rightarrow> bool" where
  "no_conversation s \<longleftrightarrow> main_ok s \<and> ms_session_keys s = (\<lambda>_. None) \<and> ms_pending_bundles s = (\<lambda>_. None)"

lemma ok_home:
  assumes "yieldsE names_ok m Q"
  shows "yieldsE main_ok (on_home m) Q"
  unfolding yieldsE_def
proof (intro allI impI)
  fix s assume "main_ok s"
  then have "names_ok (ms_world s)" by (simp add: main_ok_def)
  from yieldsED [OF assms this, of "fst (m (ms_world s))"] \<open>main_ok s\<close>
  show "main_ok (snd (on_home m s)) \<and> (\<forall>x. fst (on_home m s) = Inr x \<longrightarrow> Q x)"
    by (cases "m (ms_world s)") (auto simp: on_home_def zoomE_def main_ok_def)
qed

lemma ok_home_keeps: "keepsE names_ok m \<Longrightarrow> yieldsE main_ok (on_home m) (\<lambda>_. True)"
  by (intro ok_home keepsE_yields)

lemma ok_random: "yieldsE (\<lambda>_. True) m Q \<Longrightarrow> yieldsE main_ok (on_random m) Q"
  unfolding on_random_def by (intro ok_home names_yield_tape)

lemma ok_random_any: "yieldsE main_ok (on_random m) (\<lambda>_. True)"
  by (rule ok_random) (simp add: yieldsE_def)

lemma ok_login: "yieldsE main_ok (on_login m) (\<lambda>_. True)"
  by (auto simp: yieldsE_def on_login_def zoomE_def main_ok_def split: prod.splits)

abbreviation replies :: "(main_state, pydict) eff \<Rightarrow> bool" where
  "replies m \<equiv> yieldsE main_ok m (\<lambda>d. sendable (PDict d))"

lemma answers_sendable [simp]:
  "sendable (PDict (error_answer m))" "sendable (PDict (not_authenticated m))"
  "sendable (PDict success_answer)" "sendable (PDict already_established)"
  by (simp_all add: error_answer_def not_authenticated_def success_answer_def already_established_def)

lemma replies_or_answer: "sendable (PDict a) \<Longrightarrow> replies m \<Longrightarrow> replies (or_answer a m)"
  unfolding or_answer_def by (intro yieldsE_try) (auto intro: yieldsE_return)

lemma ok_identity: "yieldsE main_ok (load_identity L) (\<lambda>_. True)"
  unfolding load_identity_def
  by (intro yields_bind_get yieldsE_case_option yieldsE_try yieldsE_bind [OF ok_home_keeps] yields_bind_lift
      yieldsE_return keeps_intros) (auto intro: yieldsE_return)

lemma ok_open_home: "yieldsE main_ok (open_home L password) (\<lambda>_. True)"
  unfolding open_home_def
  by (intro yieldsE_try yields_bind_lift yieldsE_bind [OF ok_home_keeps] yields_bind_modify yieldsE_return
      keeps_intros) (auto simp: main_ok_def intro: yieldsE_return)

lemma replies_unlock: "replies (handle_unlock_keystore L params)"
proof -
  have e: "yieldsE main_ok (ensure_keystore L password) (\<lambda>_. True)" for password
    unfolding ensure_keystore_def
    by (intro yields_bind_get yieldsE_case_prod yieldsE_case_option yieldsE_if ok_open_home yieldsE_return) simp_all
  show ?thesis
    unfolding handle_unlock_keystore_def
    by (intro yields_bind_lift yieldsE_if yieldsE_return replies_or_answer yieldsE_bind [OF e])
      (auto split: option.split)
qed

lemma keeps_remove: "keepsE names_ok (modifyE remove_home)"
  by (simp add: keepsE_def remove_home_def names_ok_def)

lemma ok_clear_home: "yieldsE main_ok (clear_home L pw) (\<lambda>x. \<forall>d. x = Some d \<longrightarrow> sendable (PDict d))"
  unfolding clear_home_def
  by (intro yields_bind_get yieldsE_if yieldsE_bind [where Q = "\<lambda>x. \<forall>d. x = Some d \<longrightarrow> sendable (PDict d)"]
      yieldsE_try yieldsE_bind [OF ok_home_keeps] yieldsE_case_option yieldsE_return keeps_intros keeps_remove)
    (auto split: if_splits intro: yieldsE_return)

lemma ok_new_home: "yieldsE main_ok (new_home L user pw) (\<lambda>_. True)"
  unfolding new_home_def
  by (intro yieldsE_bind [OF ok_random_any] yieldsE_bind [OF ok_home_keeps] yields_bind_lift yields_bind_modify
      yieldsE_return keeps_intros) (auto simp: main_ok_def)

lemma sendable_public_bundle: "to_public_bundle L b = Inr p \<Longrightarrow> sendable (PDict p)"
  by (auto simp: to_public_bundle_def bindR_Inr_iff list_all_iff public_opk_def)

lemma replies_generate:
  assumes "sendable params"
  shows "replies (handle_generate_identity_bundle L params)"
proof -
  have r: "replies (registration_answer L user pw nonce b)" if "sendable nonce" for user pw nonce b
    unfolding registration_answer_def
    by (intro yieldsE_bind [OF ok_random_any] yields_bind_lift yieldsE_if yieldsE_return)
      (auto intro!: sendable_merge simp: that dest: sendable_public_bundle)
  show ?thesis
    unfolding handle_generate_identity_bundle_def
    by (intro yields_bind_lift yieldsE_if yieldsE_return replies_or_answer yieldsE_bind [OF ok_clear_home]
        yieldsE_case_option yieldsE_bind [OF ok_new_home] r)
      (auto dest!: sendable_param_get [OF assms, rotated])
qed

lemma replies_srp:
  "replies (handle_srp_start params)" "replies (handle_srp_challenge H L params)" "replies (handle_srp_verify params)"
proof -
  show "replies (handle_srp_start params)"
    unfolding handle_srp_start_def
    by (intro yields_bind_lift yieldsE_if yieldsE_return replies_or_answer yieldsE_bind [OF ok_random_any] yields_bind_modify)
      (auto simp: main_ok_def)
  show "replies (handle_srp_challenge H L params)"
    unfolding handle_srp_challenge_def
    by (intro yields_bind_get yields_bind_lift yieldsE_if yieldsE_return yieldsE_try yieldsE_bind [OF ok_login])
      (auto intro: yieldsE_return)
  show "replies (handle_srp_verify params)"
    unfolding handle_srp_verify_def
    by (intro yields_bind_get yields_bind_lift yieldsE_case_option yieldsE_if yieldsE_return replies_or_answer) auto
qed

subsection \<open>Conversations\<close>

lemma pqxdh_sk_length: "hkdf_correct L \<Longrightarrow> pqxdh_sk L d1 d2 d3 d4 ss = Inr sk \<Longrightarrow> length sk = PQXDH_SK_LEN"
  using pqxdh_sk_total [of L d1 d2 d3 d4 ss] by (auto simp: PQXDH_SK_LEN_def)

lemma initiated_key:
  assumes "hkdf_correct L"
  shows "yieldsE (\<lambda>_. True) (initiate L b rb allow) (\<lambda>(SK, ib). length SK = PQXDH_SK_LEN)"
  unfolding initiate_def
  by (intro yields_bind_lift yields_bind_guard yieldsE_case_prod yields_bind_any yieldsE_return)
    (auto simp: yieldsE_def dest: pqxdh_sk_length [OF assms])

lemma initiated_ok:
  assumes "hkdf_correct L" "sendable (PDict rb)"
  shows "yieldsE (\<lambda>_. True) (initiate L b rb allow) (\<lambda>(SK, ib). length SK = PQXDH_SK_LEN \<and> sendable (PDict (ib_to_dict ib)))"
  using initiated_key [OF assms(1), of b rb allow] initiated_printable [OF assms(2), of L b allow]
  by (auto simp: yieldsE_def ib_to_dict_def)

lemma ok_establish:
  assumes "hkdf_correct L"
  shows "yieldsE main_ok (establish L b k ib) (\<lambda>_. True)"
  unfolding establish_def
  by (intro yields_bind_lift yieldsE_modify)
    (auto simp: main_ok_def respond_def Let_def bindR_Inr_iff dest: pqxdh_sk_length [OF assms])

text \<open>The jobs keep the invariant whenever they run, so the handlers that wait for them do.\<close>

fun job_ok :: "job \<Rightarrow> bool" where
  "job_ok (Initiate k b v) = sendable v"
| "job_ok j = True"

lemma replies_decrypt_now: "replies (decrypt_now L k c t n)"
  unfolding decrypt_now_def
  by (intro yields_bind_get yieldsE_return) (auto simp: decrypt_envelope_def split: option.split sum.split)

lemma replies_job:
  assumes "hkdf_correct L" "job_ok j"
  shows "replies (run_job L j)"
proof (cases j)
  case (Initiate k b v)
  have rb: "sendable (PDict d)" if "(case v of PStr t \<Rightarrow> loads t | v \<Rightarrow> Inr v) = Inr w" "as_dict w = Inr d" for w d
    using that assms(2) Initiate sendable_loads by (cases v; cases w) auto
  show ?thesis
    unfolding Initiate run_job.simps initiate_job_def
    by (intro replies_or_answer yields_bind_lift yieldsE_bind [OF ok_random [OF initiated_ok [OF assms(1)]]]
        yieldsE_case_prod yields_bind_modify yieldsE_return) (auto simp: main_ok_def dest: rb)
next
  case (Respond k b ib)
  show ?thesis
    unfolding Respond run_job.simps respond_job_def
    by (intro replies_or_answer yieldsE_bind [OF ok_establish [OF assms(1)]] yieldsE_return) simp_all
next
  case (Receive k b ib c t n)
  show ?thesis
    unfolding Receive run_job.simps receive_job_def
    by (intro yieldsE_bind [where Q = "\<lambda>x. \<forall>d. x = Some d \<longrightarrow> sendable (PDict d)"] yieldsE_try
        yieldsE_bind [OF ok_establish [OF assms(1)]] yieldsE_case_option yieldsE_return replies_decrypt_now)
      (auto intro: yieldsE_return)
qed

abbreviation begins :: "(main_state, pydict + job) eff \<Rightarrow> bool" where
  "begins m \<equiv> yieldsE main_ok m (\<lambda>r. case r of Inl d \<Rightarrow> sendable (PDict d) | Inr j \<Rightarrow> job_ok j)"

lemma begins_initiate: "sendable params \<Longrightarrow> begins (begin_initiate L params)"
  unfolding begin_initiate_def
  by (intro yields_bind_lift yields_bind_get yieldsE_if yieldsE_return yieldsE_bind [OF ok_identity])
    (auto split: option.split dest!: sendable_param_get [rotated 2])

lemma begins_respond: "begins (begin_respond L params)"
  unfolding begin_respond_def
  by (intro yields_bind_lift yields_bind_get yieldsE_if yieldsE_return yieldsE_bind [OF ok_identity])
    (auto split: option.split)

lemma begins_decrypt: "begins (begin_decrypt L params)"
  unfolding begin_decrypt_def
  by (intro yields_bind_lift yields_bind_get yieldsE_if yieldsE_return yieldsE_bind [OF ok_identity]
      yieldsE_bind [OF replies_decrypt_now]) (auto split: option.split)

lemma replies_and_wait:
  assumes "hkdf_correct L" "begins m"
  shows "replies (and_wait L m)"
  unfolding and_wait_def using assms(2)
proof (rule yieldsE_bind)
  fix r :: "pydict + job" assume "case r of Inl d \<Rightarrow> sendable (PDict d) | Inr j \<Rightarrow> job_ok j"
  then show "replies (case r of Inl answer \<Rightarrow> returnE answer | Inr j \<Rightarrow> run_job L j)"
    by (cases r) (auto intro: yieldsE_return replies_job [OF assms(1)])
qed

lemma replies_encrypt:
  assumes "sendable params"
  shows "replies (handle_encrypt_message L params)"
  unfolding handle_encrypt_message_def
  by (intro yields_bind_lift yields_bind_get yieldsE_if yieldsE_return yieldsE_case_option replies_or_answer
      yieldsE_bind [OF ok_random_any] yields_bind_modify)
    (auto simp: main_ok_def split: option.split dest!: sendable_param_get [OF assms, rotated])

lemma replies_dispatch:
  assumes "hkdf_correct L" "sendable params"
  shows "replies (main_dispatch H L m params)"
  unfolding main_dispatch_def handle_initiate_session_def handle_respond_session_def handle_decrypt_message_def
  by (intro yields_bind_lift yieldsE_if replies_unlock replies_generate replies_srp replies_encrypt replies_and_wait
      begins_initiate begins_respond begins_decrypt yieldsE_return assms answers_sendable)

section \<open>Lines\<close>

lemma dumps_compact_line:
  assumes "sendable (PDict d)"
  shows "\<exists>body. dumps_compact (PDict d) = Inr body \<and> list_all printable body \<and>
    utf8_encode body = Inr (map byte_of body)"
proof -
  obtain body where b: "dumps_compact (PDict d) = Inr body"
    using dumps_sendable(1) [OF assms] unfolding dumps_compact_def by blast
  have p: "list_all printable body"
    using dumps_printable(1) [of "lit '',''" "lit '':''" "PDict d" body] assms b
    by (simp add: dumps_compact_def) (simp add: printable_def lit_def)
  with b show ?thesis using utf8_encode_ascii [of body] by (force simp: list_all_iff printable_def)
qed

definition well_formed_line :: "main_host \<Rightarrow> bytes \<Rightarrow> bool" where
  "well_formed_line H raw \<longleftrightarrow> (\<exists>req. loads_bytes H (strip raw) = Inr (PDict req) \<and>
     well_shaped (dict_get_or req ''method'' (PStr [])) (dict_get_or req ''params'' (PDict [])))"

definition answer_line :: "bytes \<Rightarrow> bool" where
  "answer_line out \<longleftrightarrow> (\<exists>body. out = map byte_of body @ [10] \<and> list_all printable body)"

lemma client_line_request:
  assumes "hkdf_correct L" "main_ok s" "loads_bytes H (strip raw) = Inr request" "strip raw \<noteq> []"
    and "client_line H L raw s = (r, t)"
  shows "main_ok t \<and> ((\<exists>out. r = Inr (Some out) \<and> answer_line out) \<or>
    (r \<in> Inl ` {TypeError, AttributeError} \<and> \<not> well_formed_line H raw))"
proof -
  have sr: "sendable request" using assms(3) sendable_loads by (auto simp: loads_bytes_def bindR_Inr_iff)
  show ?thesis
  proof (cases request)
    case (PDict req)
    let ?m = "dict_get_or req ''method'' (PStr [])" and ?p = "dict_get_or req ''params'' (PDict [])"
    let ?id = "dict_get_or req ''id'' PNone"
    have sp: "sendable ?p" "sendable ?id" using sr by (auto simp: PDict intro: sendable_dict_get_or)
    obtain x u where d: "main_dispatch H L ?m ?p s = (x, u)" by (rule prod.exhaust)
    from yieldsED [OF replies_dispatch [OF assms(1) sp(1)] assms(2) d] have u: "main_ok u" "\<And>d. x = Inr d \<Longrightarrow> sendable (PDict d)" by auto
    show ?thesis
    proof (cases x)
      case (Inl e)
      with raises_dispatch [of ?m ?p H L] d have "e \<in> escapes ?m ?p" by (auto simp: raises_only_def)
      with Inl d assms(3-5) u(1) PDict show ?thesis
        by (auto simp: client_line_def param_get_def escapes_def well_formed_line_def split: if_splits)
    next
      case (Inr resp)
      have "sendable (PDict (dict_set resp ''id'' ?id))"
        unfolding dict_set_def using u(2) [OF Inr] sp(2) by (rule sendable_update)
      from dumps_compact_line [OF this] obtain body where "dumps_compact (PDict (dict_set resp ''id'' ?id)) = Inr body"
        "list_all printable body" "utf8_encode body = Inr (map byte_of body)" by blast
      with Inr d assms(3-5) u(1) PDict show ?thesis
        by (auto simp: client_line_def param_get_def answer_line_def)
    qed
  qed (use assms in \<open>auto simp: client_line_def param_get_def well_formed_line_def\<close>)
qed

text \<open>
  C22: what a line can do to the asyncio service. Blank lines are skipped; a line that is not
  JSON is answered; a request of the right shape (a dictionary whose \<open>params\<close> and
  \<open>envelope\<close> are dictionaries, with a hashable method and conversation) is always answered
  with one printable line, whatever fails inside its handler. Only a line of another shape
  or an undecodable one raises, which ends that connection. In every case the globals stay
  well formed: each conversation key has 32 bytes and the disk only the store's names.
\<close>

theorem main_line_contained:
  assumes "hkdf_correct L" "main_ok s" "client_line H L raw s = (r, t)"
  shows "main_ok t \<and> (case r of
      Inr None \<Rightarrow> strip raw = []
    | Inr (Some out) \<Rightarrow> strip raw \<noteq> [] \<and> answer_line out
    | Inl e \<Rightarrow> \<not> well_formed_line H raw \<and> (e \<in> {TypeError, AttributeError} \<or> mh_decode H (strip raw) = Inl e))"
proof (cases "strip raw = []")
  case True
  with assms show ?thesis by (auto simp: client_line_def)
next
  case False
  show ?thesis
  proof (cases "loads_bytes H (strip raw)")
    case (Inr request)
    from client_line_request [OF assms(1,2) Inr False assms(3)] False show ?thesis by auto
  next
    case (Inl e)
    have nw: "\<not> well_formed_line H raw" using Inl by (simp add: well_formed_line_def)
    show ?thesis
    proof (cases "e = JSONDecodeError")
      case True
      obtain body where b: "dumps (PDict (error_answer (lit ''Invalid JSON''))) = Inr body"
        using dumps_sendable(1) [OF answers_sendable(1)] unfolding dumps_def by blast
      have p: "list_all printable body"
        using dumps_printable(1) [of "lit '', ''" "lit '': ''" _ body, OF _ _ answers_sendable(1)] b
        by (simp add: dumps_def) (simp add: printable_def lit_def)
      have "utf8_encode body = Inr (map byte_of body)"
        using utf8_encode_ascii [of body] p by (force simp: list_all_iff printable_def)
      with assms(2,3) False Inl True b p show ?thesis by (auto simp: client_line_def answer_line_def)
    next
      case other: False
      have "mh_decode H (strip raw) = Inl e"
        using Inl other loads_fuel by (auto simp: loads_bytes_def bindR_Inl_iff split: sum.splits if_splits)
      with assms(2,3) False Inl other nw show ?thesis by (auto simp: client_line_def)
    qed
  qed
qed

definition example_main_host :: main_host where
  "example_main_host = \<lparr>mh_exn_text = (\<lambda>_. lit ''error''), mh_repr = (\<lambda>_. []), mh_decode = (\<lambda>_. Inl UnicodeDecodeError)\<rparr>"

theorem main_line_contained_witness:
  "main_ok (snd (client_line example_main_host example_lib [91, 93, 10] (new_main example_world))) \<and>
   fst (client_line example_main_host example_lib [91, 93, 10] (new_main example_world)) \<noteq> Inr None"
proof -
  obtain r t where c: "client_line example_main_host example_lib [91, 93, 10] (new_main example_world) = (r, t)"
    by (rule prod.exhaust)
  have ok: "main_ok (new_main example_world)" by (rule new_main_ok) (simp add: names_ok_def example_world_def)
  have "strip [91, 93, 10] \<noteq> []" by (simp add: strip_def is_blank_def)
  with main_line_contained [OF example_hkdf_correct ok c] c show ?thesis by auto
qed

end
