(* ===== verification/Main_Registration.thy ===== *)
theory Main_Registration
  imports Main_Requests
begin

text \<open>
  Registration of main.py: what it does to the keystore directory, for every outcome of
  the nonce check, and that a new process opens the result with the same password.
\<close>

section \<open>Opening and replacing the directory\<close>

lemma on_home_sel: "on_home m s = (case m (ms_world s) of (r, w) \<Rightarrow> (r, s\<lparr>ms_world := w\<rparr>))"
  by (simp add: on_home_def zoomE_def)

lemma on_random_sel:
  "on_random m s = (case m (tape (ms_world s)) of (r, t) \<Rightarrow> (r, s\<lparr>ms_world := (ms_world s)\<lparr>tape := t\<rparr>\<rparr>))"
  by (simp add: on_random_def on_home_sel on_tape_sel split: prod.splits)

lemma write_salt_quiet:
  assumes "quiet w"
  shows "\<exists>p. write_salt salt w = (Inr (), w\<lparr>base_exists := True, salt_file := Some salt, write_plan := p\<rparr>) \<and>
    set p \<subseteq> {Completes}"
proof (cases "write_plan w")
  case Nil
  then show ?thesis
    by (intro exI [of _ "[]"], cases w) (simp add: write_salt_def atomic_write_def next_outcome_def)
next
  case (Cons x xs)
  then have "x = Completes" "set xs \<subseteq> {Completes}" using assms by (auto simp: quiet_def)
  with Cons show ?thesis
    by (intro exI [of _ xs], cases w) (simp add: write_salt_def atomic_write_def next_outcome_def)
qed

lemma create_store_run:
  assumes "quiet w" "salt_file w = None" "argon2_runs L pw" "hkdf_correct L"
  shows "\<exists>st w'. create_store L pw w = (Inr st, w') \<and> length (enc_key st) = 32 \<and> quiet w' \<and>
    sess_files w' = sess_files w \<and> (\<forall>v. salt_file v = salt_file w' \<longrightarrow> load_store L pw v = (Inr st, v\<lparr>base_exists := True\<rparr>))"
proof -
  obtain salt u where salt: "drawE (urandom ARGON2_SALT_LEN) (tape w) = (Inr salt, u)" "length salt = ARGON2_SALT_LEN"
    by (cases "urandom ARGON2_SALT_LEN (tape w)") (auto simp: drawE_def dest: urandom_length)
  obtain secret k where k: "utf8_encode pw = Inr secret"
    "argon2id_raw L secret salt ARGON2_TIME_COST ARGON2_MEMORY_COST ARGON2_PARALLELISM ARGON2_HASH_LEN = Inr k"
    using assms(3) unfolding argon2_runs_def by blast
  then have "length k = ARGON2_HASH_LEN" using assms(3) unfolding argon2_runs_def argon2_correct_def by blast
  then have ne: "k \<noteq> []" "salt \<noteq> []" using salt(2) by (auto simp: length_constants)
  have n: "(0 :: int) < 32" "(32 :: int) \<le> 8160" by simp_all
  obtain key where key: "hkdf_derive L k salt INFO_LOCAL_KEY_ENC 32 = Inr key"
    using hkdf_derive_total [OF assms(4) ne _ n, of INFO_LOCAL_KEY_ENC] by (auto simp: info_defs)
  have len: "length key = 32" using hkdf_derive_length [OF assms(4) key] by simp
  let ?w = "w\<lparr>base_exists := True, tape := u\<rparr>"
  have "quiet ?w" using assms(1) by (simp add: quiet_def)
  from write_salt_quiet [OF this, of salt] obtain p where p: "set p \<subseteq> {Completes}"
    "write_salt salt ?w = (Inr (), ?w\<lparr>base_exists := True, salt_file := Some salt, write_plan := p\<rparr>)" by blast
  have d: "argon2id_derive_key L pw None (tape w) = (Inr (k, salt), u)"
    "argon2id_derive_key L pw (Some salt) t = (Inr (k, salt), t)" for t
    using salt k by (simp_all add: argon2id_derive_key_def)
  have c: "create_store L pw w = (Inr \<lparr>enc_key = key\<rparr>, ?w\<lparr>base_exists := True, salt_file := Some salt, write_plan := p\<rparr>)"
    using assms(2) d(1) key p(2) by (simp add: create_store_def on_tape_sel new_store_def)
  show ?thesis
    by (rule exI [of _ "\<lparr>enc_key = key\<rparr>"], rule exI, intro conjI, rule c)
      (use len p(1) d(2) key salt(2) in \<open>auto simp: quiet_def load_store_def read_salt_def on_tape_sel new_store_def\<close>)
qed

lemma identity_storable: "storable IDENTITY"
  by (simp add: storable_def IDENTITY_def validate_session_id_def lit_def forbidden_def name_ok_def state_name_def
      utf8_char_def)

text \<open>A process that is open with identity \<open>b\<close>.\<close>

definition main_side :: "crypto \<Rightarrow> IdentityBundle \<Rightarrow> StateStore \<Rightarrow> main_state \<Rightarrow> bool" where
  "main_side L b st s \<longleftrightarrow> ms_store s = Some st \<and>
     (\<exists>d. load_state L st IDENTITY (ms_world s) = (Inr (PDict d), ms_world s) \<and> from_private_bundle L d = Inr b)"

lemma load_identity_run: "main_side L b st s \<Longrightarrow> load_identity L s = (Inr (Some b), s)"
  by (auto simp: main_side_def load_identity_def on_home_sel tryE_def)

definition registration_ok :: "crypto \<Rightarrow> pystr \<Rightarrow> pystr \<Rightarrow> bool" where
  "registration_ok L username pw \<longleftrightarrow> encodable username \<and> username \<noteq> [] \<and> argon2_runs L pw \<and> pw \<noteq> [] \<and> aead_correct L \<and>
     x25519_correct L \<and> kem_correct L \<and> ed25519_correct L \<and> dsa_correct L \<and> hkdf_correct L"

text \<open>What a new keystore holds: the identity and nothing else, under the password.\<close>

definition fresh_home :: "crypto \<Rightarrow> pystr \<Rightarrow> pystr \<Rightarrow> IdentityBundle \<Rightarrow> StateStore \<Rightarrow> main_state \<Rightarrow> bool" where
  "fresh_home L username pw b st t \<longleftrightarrow> bundle_ok L b \<and> user_id b = username \<and> main_side L b st t \<and>
     ms_password t = PStr pw \<and> map fst (sess_files (ms_world t)) = [state_name IDENTITY] \<and>
     (\<forall>v. salt_file v = salt_file (ms_world t) \<longrightarrow> load_store L pw v = (Inr st, v\<lparr>base_exists := True\<rparr>)) \<and>
     quiet (ms_world t)"

lemma new_home_run:
  assumes "registration_ok L username pw" "quiet (ms_world s)" "salt_file (ms_world s) = None" "sess_files (ms_world s) = []"
  shows "\<exists>b st t. new_home L username pw s = (Inr b, t) \<and> fresh_home L username pw b st t"
proof -
  note ok = assms(1) [unfolded registration_ok_def]
  obtain b u where b: "generate_identity_bundle L username OPK_COUNT (tape (ms_world s)) = (Inr b, u)"
    "bundle_ok L b" "user_id b = username"
    using generate_identity_bundle_bundle_ok [of L username OPK_COUNT "tape (ms_world s)"] ok by blast
  let ?w = "(ms_world s)\<lparr>tape := u\<rparr>"
  have "quiet ?w" "salt_file ?w = None" using assms(2,3) by (simp_all add: quiet_def)
  with create_store_run [of ?w L pw] ok obtain st w' where c: "create_store L pw ?w = (Inr st, w')"
    "length (enc_key st) = 32" "quiet w'" "sess_files w' = []"
    "\<forall>v. salt_file v = salt_file w' \<longrightarrow> load_store L pw v = (Inr st, v\<lparr>base_exists := True\<rparr>)"
    using assms(4) by auto
  have paired: "paired_opks b" using b(2) by (simp add: bundle_ok_def paired_opks_def)
  obtain d where d: "to_private_bundle L b = Inr d" using private_bundle_total [OF paired] by blast
  have j: "json_ok (PDict d)" using private_bundle_ok [OF d] b(3) ok by simp
  have h: "aead_correct L \<and> length (enc_key st) = 32 \<and> quiet w'" using ok c(2,3) by simp
  obtain w2 where w2: "save_state L st IDENTITY (PDict d) w' = (Inr (), w2)"
    using store.save_total [OF h identity_storable j] by blast
  note l = store.load_saved [OF h identity_storable j w2]
  have files: "map fst (sess_files w2) = [state_name IDENTITY]"
  proof -
    obtain x v where "write_file (state_name IDENTITY) x (w'\<lparr>tape := v\<rparr>) = (Inr (), w2)"
      using save_state_write [of L st IDENTITY "PDict d" w' "Inr ()" w2] h identity_storable j w2 by blast
    with c(3,4) show ?thesis
      by (auto simp: write_file_def atomic_write_def next_outcome_def bindE_def quiet_def
          split: if_splits list.splits write_outcome.splits)
  qed
  have q: "quiet w2" using store.save_healthy [OF h, of IDENTITY "PDict d"] w2 by simp
  have salt: "salt_file w2 = salt_file w'" using salt_writes [OF save_writes [OF w2]] .
  have fb: "from_private_bundle L d = Inr b"
    using private_bundle.dec_enc [OF bundle_ok_loadable [of L b] d] ok b(2) by blast
  let ?t = "s\<lparr>ms_world := w2, ms_store := Some st, ms_password := PStr pw\<rparr>"
  have "new_home L username pw s = (Inr b, ?t)"
    using b(1) c(1) d w2 by (simp add: new_home_def on_random_sel on_home_sel)
  moreover have "fresh_home L username pw b st ?t"
    using b(2,3) l fb files q salt c(5) by (auto simp: fresh_home_def main_side_def)
  ultimately show ?thesis by blast
qed

lemma fresh_home_tape:
  assumes "fresh_home L username pw b st t"
  shows "fresh_home L username pw b st (t\<lparr>ms_world := (ms_world t)\<lparr>tape := u\<rparr>\<rparr>)"
proof -
  obtain d where d: "load_state L st IDENTITY (ms_world t) = (Inr (PDict d), ms_world t)" "from_private_bundle L d = Inr b"
    using assms by (auto simp: fresh_home_def main_side_def)
  have "load_state L st IDENTITY ((ms_world t)\<lparr>tape := u\<rparr>) = (Inr (PDict d), (ms_world t)\<lparr>tape := u\<rparr>)"
    by (rule load_state_same [OF d(1)]) (simp add: load_state_eq)
  with d(2) assms show ?thesis by (auto simp: fresh_home_def main_side_def quiet_def)
qed

section \<open>The request\<close>

definition register_request :: "pystr \<Rightarrow> pystr \<Rightarrow> pystr \<Rightarrow> pyval" where
  "register_request username pw nonce = PDict [(lit ''username'', PStr username), (lit ''password'', PStr pw),
     (lit ''nonce'', PStr nonce)]"

definition unlock_request :: "pystr \<Rightarrow> pyval" where
  "unlock_request pw = PDict [(lit ''keystore_password'', PStr pw)]"

text \<open>What the answer has to be, by the nonce: SRP data and a signature over it, or an error.\<close>

definition registration_result :: "crypto \<Rightarrow> pystr \<Rightarrow> pystr \<Rightarrow> pystr \<Rightarrow> IdentityBundle \<Rightarrow> pydict \<Rightarrow> bool" where
  "registration_result L username pw nonce b answer \<longleftrightarrow>
     (if length nonce \<noteq> 64
      then answer = error_answer (lit ''nonce must be exactly 64 hex chars, got '' @ dec_int (int (length nonce)))
      else case fromhex nonce of
        Inl e \<Rightarrow> answer = error_answer (lit ''Internal server error.'')
      | Inr nb \<Rightarrow> (\<exists>salt vb sg. dict_get answer ''srp_salt'' = Some (PHex salt) \<and> length salt = 32 \<and>
          create_srp_verifier L username pw salt = Inr vb \<and> dict_get answer ''srp_verifier'' = Some (PHex vb) \<and>
          dict_get answer ''identity_signing_pub'' = Some (PHex (sig_public_key (ik_sig b))) \<and>
          dict_get answer ''nonce_signature'' = Some (PHex sg) \<and>
          verify_hybrid_signature L nb sg (sig_public_key (ik_sig b)) = Inr True))"

lemma verifier_runs:
  assumes "registration_ok L username pw"
  shows "\<exists>vb. create_srp_verifier L username pw salt = Inr vb"
proof -
  have "encodable username" "encodable pw"
    using assms by (auto simp: registration_ok_def argon2_runs_def encodable_def)
  then have "encodable (username @ lit '':'' @ pw)" by (simp add: encodable_scalar lit_scalar)
  then show ?thesis using srp_pad_pow_mod
    by (auto simp: encodable_def create_srp_verifier_def srp_pad_def Let_def)
qed

lemma registration_answer_run:
  assumes "registration_ok L username pw" "fresh_home L username pw b st t"
  shows "\<exists>answer u. or_answer (error_answer (lit ''Internal server error.''))
      (registration_answer L username pw (PStr nonce) b) t = (Inr answer, t\<lparr>ms_world := (ms_world t)\<lparr>tape := u\<rparr>\<rparr>) \<and>
    registration_result L username pw nonce b answer"
proof -
  have bo: "bundle_ok L b" using assms(2) by (simp add: fresh_home_def)
  obtain salt u1 where sa: "urandom 32 (tape (ms_world t)) = (salt, u1)" by (rule prod.exhaust)
  have sl: "length salt = 32" by (rule urandom_length [OF sa])
  obtain vb where vb: "create_srp_verifier L username pw salt = Inr vb" using verifier_runs [OF assms(1)] by blast
  have n: "(if truthy (PStr nonce) then py_len (PStr nonce) else Inr 0) = Inr (length nonce)" by simp
  note run = registration_answer_def on_random_sel drawE_def sa vb n
  show ?thesis
  proof (cases "length nonce = 64")
    case False
    then show ?thesis
      by (intro exI [of _ "error_answer (lit ''nonce must be exactly 64 hex chars, got '' @ dec_int (int (length nonce)))"]
          exI [of _ u1]) (auto simp: or_answer_def tryE_def run registration_result_def)
  next
    case True
    then have ne: "nonce \<noteq> []" by auto
    show ?thesis
    proof (cases "fromhex nonce")
      case (Inl e)
      with True show ?thesis
        by (intro exI [of _ "error_answer (lit ''Internal server error.'')"] exI [of _ u1])
          (simp add: or_answer_def tryE_def registration_answer_def on_random_sel drawE_def sa vb registration_result_def
            fromhex_val_def ne)
    next
      case (Inr nb)
      obtain sg u2 where sg: "hybrid_sign L (ik_sig b) nb u1 = (Inr sg, u2)"
        "verify_hybrid_signature L nb sg (sig_public_key (ik_sig b)) = Inr True"
        using hybrid_sign_verifies [OF _ bundle_ok_parts(1) [OF bo], of nb u1] assms(1)
        by (auto simp: registration_ok_def)
      obtain p where p: "to_public_bundle L b = Inr p"
        using bo assert_opk_lists_valid_iff [of "x25519_opks b" "kem_opks b"]
        by (auto simp: to_public_bundle_def bundle_ok_def)
      let ?e = "[(lit ''srp_salt'', PHex salt), (lit ''srp_verifier'', PHex vb),
          (lit ''idk_classical_pub'', PHex (public_key_bytes L (ik_classical b))),
          (lit ''idk_pq_pub'', PHex (kem_public_key (ik_kem b))),
          (lit ''identity_signing_pub'', PHex (sig_public_key (ik_sig b))),
          (lit ''signed_prekey_pub'', PHex (public_key_bytes L (spk_keypair (spk b)))),
          (lit ''signed_prekey_signature'', PHex (spk_signature (spk b))),
          (lit ''device_name'', PNone),
          (lit ''nonce'', PStr nonce), (lit ''nonce_signature'', PHex sg)]"
      have "distinct (map fst ?e)" by simp
      note get = map_of_dict_merge [OF this, of p]
      have "registration_result L username pw nonce b (dict_merge p ?e)"
        using True Inr sl vb sg(2) by (auto simp: registration_result_def dict_get_def get)
      then show ?thesis
        by (intro exI [of _ "dict_merge p ?e"] exI [of _ u2])
          (simp add: or_answer_def tryE_def registration_answer_def on_random_sel drawE_def sa vb fromhex_val_def
            Inr sg(1) p ne True)
    qed
  qed
qed

definition opens_home :: "crypto \<Rightarrow> pystr \<Rightarrow> world \<Rightarrow> bool" where
  "opens_home L pw w \<longleftrightarrow> (\<exists>st v. fst (load_store L pw w) = Inr st \<and> fst (load_state L st IDENTITY w) = Inr v)"

definition refuses_home :: "crypto \<Rightarrow> pystr \<Rightarrow> world \<Rightarrow> bool" where
  "refuses_home L pw w \<longleftrightarrow> (\<exists>st. fst (load_store L pw w) = Inr st \<and> fst (load_state L st IDENTITY w) = Inl InvalidTag)"

lemma load_store_world: "fst (load_store L pw w) = Inr st \<Longrightarrow> load_store L pw w = (Inr st, w\<lparr>base_exists := True\<rparr>)"
  by (auto simp: load_store_def read_salt_def bindE_def on_tape_sel argon2id_derive_key_def new_store_def guardR_def
      split: sum.splits option.splits prod.splits if_splits)

lemma load_state_home: "load_state L st IDENTITY (w\<lparr>base_exists := True\<rparr>) = (fst (load_state L st IDENTITY w), w\<lparr>base_exists := True\<rparr>)"
  by (simp add: load_state_eq)

lemma clear_home_run:
  assumes "base_exists (ms_world s)"
  shows "opens_home L pw (ms_world s) \<Longrightarrow> clear_home L pw s = (Inr None, s\<lparr>ms_world := remove_home (ms_world s)\<rparr>)"
    and "refuses_home L pw (ms_world s) \<Longrightarrow> clear_home L pw s = (Inr (Some (error_answer
      (lit ''Wrong password '' @ dash @ lit '' cannot overwrite existing keystore.''))), s)"
proof -
  have w: "(ms_world s)\<lparr>base_exists := True\<rparr> = ms_world s" "s\<lparr>ms_world := ms_world s\<rparr> = s" using assms by simp_all
  have l: "on_home (load_store L pw) s = (Inr st, s)" if "fst (load_store L pw (ms_world s)) = Inr st" for st
    using load_store_world [OF that] by (simp add: on_home_sel w)
  have i: "on_home (load_state L st IDENTITY) s = (fst (load_state L st IDENTITY (ms_world s)), s)" for st
    using load_state_home [of L st "ms_world s"] unfolding on_home_sel w(1) by (simp add: split_def w(2)) (metis fst_conv snd_conv w(2))
  show "opens_home L pw (ms_world s) \<Longrightarrow> clear_home L pw s = (Inr None, s\<lparr>ms_world := remove_home (ms_world s)\<rparr>)"
    using assms l i by (auto simp: opens_home_def clear_home_def tryE_def) (simp add: on_home_sel)
  show "refuses_home L pw (ms_world s) \<Longrightarrow> clear_home L pw s = (Inr (Some (error_answer
      (lit ''Wrong password '' @ dash @ lit '' cannot overwrite existing keystore.''))), s)"
    using assms l i by (auto simp: refuses_home_def clear_home_def tryE_def bindE_def)
qed

lemma unlock_new_process:
  assumes "fresh_home L username pw b st t" "pw \<noteq> []"
  shows "\<exists>u. handle_unlock_keystore L (unlock_request pw) (new_main (ms_world t)) = (Inr success_answer, u) \<and> main_side L b st u"
proof -
  obtain d where d: "load_state L st IDENTITY (ms_world t) = (Inr (PDict d), ms_world t)" "from_private_bundle L d = Inr b"
    and l: "load_store L pw (ms_world t) = (Inr st, (ms_world t)\<lparr>base_exists := True\<rparr>)"
    using assms(1) by (auto simp: fresh_home_def main_side_def)
  have h: "load_state L st IDENTITY ((ms_world t)\<lparr>base_exists := True\<rparr>) = (Inr (PDict d), (ms_world t)\<lparr>base_exists := True\<rparr>)"
    using load_state_home [of L st "ms_world t"] d(1) by simp
  let ?u = "(new_main (ms_world t))\<lparr>ms_world := (ms_world t)\<lparr>base_exists := True\<rparr>, ms_store := Some st, ms_password := PStr pw\<rparr>"
  have "handle_unlock_keystore L (unlock_request pw) (new_main (ms_world t)) = (Inr success_answer, ?u)"
    using l h assms(2)
    by (simp add: handle_unlock_keystore_def unlock_request_def param_or_def param_get_def or_answer_def tryE_def
        ensure_keystore_def open_home_def on_home_sel new_main_def)
  moreover have "main_side L b st ?u" using h d(2) by (simp add: main_side_def)
  ultimately show ?thesis by blast
qed

lemma register_run:
  assumes "registration_ok L username pw" "clear_home L pw s = (Inr None, s')" "quiet (ms_world s')"
    and "salt_file (ms_world s') = None" "sess_files (ms_world s') = []"
  shows "\<exists>answer b st t. handle_generate_identity_bundle L (register_request username pw nonce) s = (Inr answer, t) \<and>
    fresh_home L username pw b st t \<and> registration_result L username pw nonce b answer"
proof -
  obtain b st t where n: "new_home L username pw s' = (Inr b, t)" "fresh_home L username pw b st t"
    using new_home_run [OF assms(1,3-5)] by blast
  obtain answer u where r: "or_answer (error_answer (lit ''Internal server error.''))
      (registration_answer L username pw (PStr nonce) b) t = (Inr answer, t\<lparr>ms_world := (ms_world t)\<lparr>tape := u\<rparr>\<rparr>)"
    "registration_result L username pw nonce b answer" using registration_answer_run [OF assms(1) n(2)] by blast
  have "handle_generate_identity_bundle L (register_request username pw nonce) s =
      (Inr answer, t\<lparr>ms_world := (ms_world t)\<lparr>tape := u\<rparr>\<rparr>)"
    using assms(1,2) n(1) r(1)
    by (simp add: handle_generate_identity_bundle_def register_request_def param_or_def param_get_def registration_ok_def
        or_answer_def tryE_def)
  with fresh_home_tape [OF n(2), of u] r(2) show ?thesis by blast
qed

text \<open>
  C21: registration with main.py. With a password that does not open the existing keystore
  the request is refused and changes nothing. With one that does, or where there is no
  keystore, the directory is replaced by a new one with a fresh identity as its only file,
  which a new process opens with the password; whatever was stored before is gone. The
  answer then holds the SRP salt with its verifier and a signature over the nonce, or, for a
  nonce that is not 64 hexadecimal digits, only an error: the nonce is checked after the
  keystore has been replaced.
\<close>

theorem main_registration_replaces_keystore:
  assumes "registration_ok L username pw" "quiet (ms_world s)"
    and "\<not> base_exists (ms_world s) \<Longrightarrow> salt_file (ms_world s) = None \<and> sess_files (ms_world s) = []"
  shows "(base_exists (ms_world s) \<and> refuses_home L pw (ms_world s) \<longrightarrow>
      handle_generate_identity_bundle L (register_request username pw nonce) s = (Inr (error_answer
        (lit ''Wrong password '' @ dash @ lit '' cannot overwrite existing keystore.'')), s)) \<and>
    (\<not> base_exists (ms_world s) \<or> opens_home L pw (ms_world s) \<longrightarrow>
      (\<exists>answer b st t u. handle_generate_identity_bundle L (register_request username pw nonce) s = (Inr answer, t) \<and>
        fresh_home L username pw b st t \<and> registration_result L username pw nonce b answer \<and>
        handle_unlock_keystore L (unlock_request pw) (new_main (ms_world t)) = (Inr success_answer, u) \<and>
        main_side L b st u))"
proof (intro conjI impI)
  assume "base_exists (ms_world s) \<and> refuses_home L pw (ms_world s)"
  then show "handle_generate_identity_bundle L (register_request username pw nonce) s = (Inr (error_answer
      (lit ''Wrong password '' @ dash @ lit '' cannot overwrite existing keystore.'')), s)"
    using assms(1) clear_home_run(2) [of s L pw]
    by (simp add: handle_generate_identity_bundle_def register_request_def param_or_def param_get_def registration_ok_def
        or_answer_def tryE_def)
next
  assume c: "\<not> base_exists (ms_world s) \<or> opens_home L pw (ms_world s)"
  obtain s' where s': "clear_home L pw s = (Inr None, s')" "quiet (ms_world s')" "salt_file (ms_world s') = None"
    "sess_files (ms_world s') = []"
  proof (cases "base_exists (ms_world s)")
    case True
    with c have "clear_home L pw s = (Inr None, s\<lparr>ms_world := remove_home (ms_world s)\<rparr>)" by (simp add: clear_home_run(1))
    with assms(2) show ?thesis
      by (intro that [of "s\<lparr>ms_world := remove_home (ms_world s)\<rparr>"]) (simp_all add: remove_home_def quiet_def)
  next
    case False
    then have "clear_home L pw s = (Inr None, s)" by (simp add: clear_home_def)
    with assms(2,3) False show ?thesis by (intro that [of s]) simp_all
  qed
  obtain answer b st t where r: "handle_generate_identity_bundle L (register_request username pw nonce) s = (Inr answer, t)"
    "fresh_home L username pw b st t" "registration_result L username pw nonce b answer"
    using register_run [OF assms(1) s'] by blast
  have "pw \<noteq> []" using assms(1) by (simp add: registration_ok_def)
  from unlock_new_process [OF r(2) this] r
  show "\<exists>answer b st t u. handle_generate_identity_bundle L (register_request username pw nonce) s = (Inr answer, t) \<and>
        fresh_home L username pw b st t \<and> registration_result L username pw nonce b answer \<and>
        handle_unlock_keystore L (unlock_request pw) (new_main (ms_world t)) = (Inr success_answer, u) \<and>
        main_side L b st u" by blast
qed

lemma example_registration_ok: "registration_ok example_lib (lit ''u'') example_password"
  using example_argon2_runs example_aead_correct example_x25519_correct example_kem_correct example_ed25519_correct
    example_dsa_correct example_hkdf_correct
  by (simp add: registration_ok_def encodable_scalar lit_scalar example_password_def)

theorem main_registration_replaces_keystore_witness:
  "\<exists>answer t b st. handle_generate_identity_bundle example_lib (register_request (lit ''u'') example_password []) (new_main example_world) =
     (Inr answer, t) \<and> fresh_home example_lib (lit ''u'') example_password b st t \<and>
     registration_result example_lib (lit ''u'') example_password [] b answer"
proof -
  have "quiet (ms_world (new_main example_world))" "\<not> base_exists (ms_world (new_main example_world))"
    "salt_file (ms_world (new_main example_world)) = None \<and> sess_files (ms_world (new_main example_world)) = []"
    by (simp_all add: new_main_def quiet_def example_world_def)
  with main_registration_replaces_keystore [OF example_registration_ok this(1,3), of "[]"] show ?thesis by blast
qed

end
