(* ===== verification/Main_Conversation.thy ===== *)
theory Main_Conversation
  imports Main_Registration Channel
begin

text \<open>
  Conversations between two processes of main.py: a whole exchange when the responder
  publishes no one-time prekeys, and what happens when it does.
\<close>

section \<open>Messages from one process to the other\<close>

definition start_request :: "pystr \<Rightarrow> pyval \<Rightarrow> pyval" where
  "start_request cid remote_bundle = PDict [(lit ''conversation_id'', PStr cid), (lit ''remote_bundle'', remote_bundle)]"

definition send_request :: "pystr \<Rightarrow> pystr \<Rightarrow> pyval" where
  "send_request cid txt = PDict [(lit ''conversation_id'', PStr cid), (lit ''plaintext'', PStr txt)]"

definition receive_request :: "pydict \<Rightarrow> pyval" where
  "receive_request answer = PDict [(lit ''envelope'', PDict answer)]"

text \<open>The answer of \<open>encrypt_message\<close> is the envelope that the other side decrypts.\<close>

definition transmit :: "crypto \<Rightarrow> pystr \<Rightarrow> pystr \<Rightarrow> main_state \<Rightarrow> main_state \<Rightarrow> pydict res \<times> main_state \<times> main_state" where
  "transmit L cid txt X Y =
     (case handle_encrypt_message L (send_request cid txt) X of
        (Inl e, X') \<Rightarrow> (Inl e, X', Y)
      | (Inr answer, X') \<Rightarrow> (case handle_decrypt_message L (receive_request answer) Y of (r, Y') \<Rightarrow> (r, X', Y')))"

fun exchange_step :: "crypto \<Rightarrow> pystr \<Rightarrow> bool \<times> pystr \<Rightarrow> main_state \<times> main_state \<Rightarrow> pydict res list \<times> main_state \<times> main_state" where
  "exchange_step L cid (True, words) (X, Y) = (case transmit L cid words X Y of (r, X', Y') \<Rightarrow> ([r], X', Y'))"
| "exchange_step L cid (False, words) (X, Y) = (case transmit L cid words Y X of (r, Y', X') \<Rightarrow> ([r], X', Y'))"

definition exchange :: "crypto \<Rightarrow> pystr \<Rightarrow> (bool \<times> pystr) list \<Rightarrow> main_state \<Rightarrow> main_state \<Rightarrow> pydict res list \<times> main_state \<times> main_state" where
  "exchange L cid ms X Y = run_steps (exchange_step L cid) ms (X, Y)"

definition sayable :: "pystr \<Rightarrow> bool" where
  "sayable txt \<longleftrightarrow> txt \<noteq> [] \<and> encodable txt"

definition shares_key :: "pystr \<Rightarrow> bytes \<Rightarrow> main_state \<Rightarrow> bool" where
  "shares_key cid sk s \<longleftrightarrow> ms_session_keys s (PStr cid) = Some sk"

definition envelope_of :: "bytes \<Rightarrow> bytes \<Rightarrow> pystr \<Rightarrow> pydict option \<Rightarrow> pydict" where
  "envelope_of ct nonce cid pending = [(lit ''ciphertext'', PHex ct), (lit ''nonce'', PHex nonce),
     (lit ''conversation_id'', PStr cid), (lit ''initiation_bundle'', case pending of None \<Rightarrow> PNone | Some d \<Rightarrow> PDict d)]"

lemma hex_not_empty: "b \<noteq> [] \<Longrightarrow> hex b \<noteq> []"
  by (cases b) simp_all

lemma encrypt_run:
  assumes "aead_correct L" "shares_key cid sk X" "length sk = 32" "sayable cid" "sayable txt"
  shows "\<exists>ct nonce u. handle_encrypt_message L (send_request cid txt) X =
      (Inr (envelope_of ct nonce cid (ms_pending_bundles X (PStr cid))),
       X\<lparr>ms_world := (ms_world X)\<lparr>tape := u\<rparr>, ms_pending_bundles := (ms_pending_bundles X)(PStr cid := None)\<rparr>) \<and>
    ct \<noteq> [] \<and> nonce \<noteq> [] \<and> decrypt_envelope L sk (PStr cid) (PHex ct) (PHex nonce) = plain txt"
proof -
  obtain nonce u where n: "urandom 12 (tape (ms_world X)) = (nonce, u)" by (rule prod.exhaust)
  have ln: "length nonce = 12" by (rule urandom_length [OF n])
  obtain aad p where e: "utf8_encode cid = Inr aad" "utf8_encode txt = Inr p"
    using assms(4,5) by (auto simp: sayable_def encodable_def)
  obtain ct where ct: "chacha_encrypt L sk nonce p aad = Inr ct" using aead_correct_total [OF assms(1,3) ln] by blast
  from aead_correctD [OF assms(1,3) ln ct] have d: "length ct = length p + 16" "chacha_decrypt L sk nonce ct aad = Inr p" by simp_all
  have ne: "ct \<noteq> []" "nonce \<noteq> []" using d(1) ln by auto
  have dec: "decrypt_envelope L sk (PStr cid) (PHex ct) (PHex nonce) = plain txt"
    using d(2) e utf8_decode_replace_encode [OF e(2)] by (simp add: decrypt_envelope_def plain_def)
  show ?thesis
    by (rule exI [of _ ct], rule exI [of _ nonce], rule exI [of _ u])
      (use assms(2,4,5) n e ct ne dec in \<open>simp add: handle_encrypt_message_def send_request_def param_get_def sayable_def
        shares_key_def or_answer_def tryE_def on_random_sel drawE_def envelope_of_def\<close>)
qed

text \<open>Receiving: with a session, the initiation bundle is not looked at.\<close>

lemma decrypt_head:
  assumes "ct \<noteq> []" "nonce \<noteq> []" "cid \<noteq> []"
  shows "begin_decrypt L (receive_request (envelope_of ct nonce cid pending)) =
    bindE (getE (\<lambda>s. ms_session_keys s (PStr cid))) (\<lambda>live.
     if live = None \<and> truthy (case pending of None \<Rightarrow> PNone | Some d \<Rightarrow> PDict d)
     then bindE (load_identity L) (\<lambda>found. returnE (case found of
         None \<Rightarrow> Inl (error_answer (lit ''Keystore not unlocked.''))
       | Some b \<Rightarrow> Inr (Receive (PStr cid) b (case pending of None \<Rightarrow> PNone | Some d \<Rightarrow> PDict d) (PStr cid) (PHex ct) (PHex nonce))))
     else bindE (decrypt_now L (PStr cid) (PStr cid) (PHex ct) (PHex nonce)) (\<lambda>a. returnE (Inl a)))"
  using assms
  by (simp add: begin_decrypt_def receive_request_def envelope_of_def param_get_def hex_not_empty fun_eq_iff del: hex.simps)

lemma transmit_run:
  assumes "aead_correct L" "length sk = 32" "sayable cid" "sayable txt" "shares_key cid sk X" "shares_key cid sk Y"
  shows "\<exists>X'. transmit L cid txt X Y = (Inr (plain txt), X', Y) \<and> shares_key cid sk X'"
proof -
  obtain ct nonce u where e: "handle_encrypt_message L (send_request cid txt) X =
      (Inr (envelope_of ct nonce cid (ms_pending_bundles X (PStr cid))),
       X\<lparr>ms_world := (ms_world X)\<lparr>tape := u\<rparr>, ms_pending_bundles := (ms_pending_bundles X)(PStr cid := None)\<rparr>)"
    "ct \<noteq> []" "nonce \<noteq> []" "decrypt_envelope L sk (PStr cid) (PHex ct) (PHex nonce) = plain txt"
    using encrypt_run [OF assms(1,5,2-4)] by blast
  have "handle_decrypt_message L (receive_request (envelope_of ct nonce cid (ms_pending_bundles X (PStr cid)))) Y =
      (Inr (plain txt), Y)"
    using assms(3,6) e(2-4) by (simp add: handle_decrypt_message_def decrypt_head and_wait_def decrypt_now_def sayable_def shares_key_def)
  with e(1) assms(5) show ?thesis by (simp add: transmit_def shares_key_def)
qed

text \<open>Two processes that share the key of a conversation are a channel; nothing is used up.\<close>

definition main_linked :: "crypto \<Rightarrow> pystr \<Rightarrow> bytes \<Rightarrow> main_state \<times> main_state \<Rightarrow> bool" where
  "main_linked L cid sk = (\<lambda>(X, Y). aead_correct L \<and> length sk = 32 \<and> sayable cid \<and> shares_key cid sk X \<and> shares_key cid sk Y)"

interpretation main_channel: channel "exchange_step L cid" "\<lambda>_ :: nat. main_linked L cid sk" "\<lambda>_. 0"
  "\<lambda>(d, words). sayable words" "\<lambda>(d, words). [Inr (plain words)]" for L cid sk
proof
  fix e :: "bool \<times> pystr" and k :: nat and p
  assume l: "main_linked L cid sk p" and a: "case e of (d, words) \<Rightarrow> sayable words"
  obtain d words X Y where e: "e = (d, words)" "p = (X, Y)" by (cases e, cases p) auto
  have h: "aead_correct L" "length sk = 32" "sayable cid" "sayable words" "shares_key cid sk X" "shares_key cid sk Y"
    using l a by (simp_all add: e main_linked_def)
  show "\<exists>q. exchange_step L cid e p = (case e of (d, words) \<Rightarrow> [Inr (plain words)], q) \<and> main_linked L cid sk q"
  proof (cases d)
    case True
    with transmit_run [OF h] h show ?thesis by (auto simp: e main_linked_def)
  next
    case False
    with transmit_run [OF h(1-4,6,5)] h show ?thesis by (auto simp: e main_linked_def)
  qed
qed

lemma exchange_run:
  assumes "aead_correct L" "length sk = 32" "sayable cid" "\<forall>(d, words)\<in>set ms. sayable words"
    and "shares_key cid sk X" "shares_key cid sk Y"
  shows "\<exists>end. exchange L cid ms X Y = (map (\<lambda>(d, words). Inr (plain words)) ms, end)"
proof -
  have "main_linked L cid sk (X, Y)" using assms by (simp add: main_linked_def)
  from main_channel.run_delivers [OF this, of ms] assms(4) obtain q where
    "run_steps (exchange_step L cid) ms (X, Y) = (concat (map (\<lambda>(d, words). [Inr (plain words)]) ms), q)"
    by (auto simp: list_all_iff)
  moreover have "concat (map (\<lambda>(d, words). [Inr (plain words)]) ms) = map (\<lambda>(d, words). Inr (plain words)) ms"
    by (induction ms) auto
  ultimately show ?thesis by (simp add: exchange_def)
qed

section \<open>The first message\<close>

definition no_session :: "pystr \<Rightarrow> main_state \<Rightarrow> bool" where
  "no_session cid s \<longleftrightarrow> ms_session_keys s (PStr cid) = None"

text \<open>The bundle as the client passes it on: a dictionary, or its JSON text.\<close>

definition carries :: "pyval \<Rightarrow> pydict \<Rightarrow> bool" where
  "carries v p \<longleftrightarrow> v = PDict p \<or> (\<exists>t. v = PStr t \<and> loads t = Inr (PDict p))"

lemma without_prekeys_ok: "bundle_ok L b \<Longrightarrow> bundle_ok L (b\<lparr>x25519_opks := [], kem_opks := []\<rparr>)"
  by (simp add: bundle_ok_def)

lemma carries_value: "carries v p \<Longrightarrow> bindR (case v of PStr t \<Rightarrow> loads t | v \<Rightarrow> Inr v) as_dict = Inr p"
  by (auto simp: carries_def)

lemma carries_truthy: "carries v p \<Longrightarrow> p \<noteq> [] \<Longrightarrow> truthy v"
  by (cases v) (auto simp: carries_def loads_def)

lemma public_bundle_nonempty: "to_public_bundle L b = Inr p \<Longrightarrow> p \<noteq> []"
  by (auto simp: to_public_bundle_def bindR_Inr_iff)

text \<open>A first message: its bundle is handed to the handshake, and the answer is that of the job.\<close>

lemma decrypt_first:
  assumes "ct \<noteq> []" "nonce \<noteq> []" "cid \<noteq> []" "no_session cid Y" "main_side L b st Y"
  shows "handle_decrypt_message L (receive_request (envelope_of ct nonce cid (Some (ib_to_dict ib)))) Y =
    receive_job L (PStr cid) b (PDict (ib_to_dict ib)) (PStr cid) (PHex ct) (PHex nonce) Y"
  using assms(4) load_identity_run [OF assms(5)] ib_to_dict_truthy [of ib]
  by (simp add: handle_decrypt_message_def decrypt_head [OF assms(1-3)] and_wait_def no_session_def)

lemma begin_initiate_run:
  assumes "main_side L a st X" "no_session cid X" "cid \<noteq> []" "carries v p" "p \<noteq> []"
  shows "begin_initiate L (start_request cid v) X = (Inr (Inr (Initiate (PStr cid) a v)), X)"
  using assms(2,3) carries_truthy [OF assms(4,5)] load_identity_run [OF assms(1)]
  by (simp add: begin_initiate_def start_request_def param_get_def no_session_def)

lemma initiate_job_run:
  assumes "carries v p" "initiate L a p True (tape (ms_world X)) = (Inr (SK, ib), u)"
  shows "initiate_job L k a v X = (Inr success_answer,
    X\<lparr>ms_world := (ms_world X)\<lparr>tape := u\<rparr>, ms_session_keys := (ms_session_keys X)(k \<mapsto> SK),
      ms_pending_bundles := (ms_pending_bundles X)(k \<mapsto> ib_to_dict ib)\<rparr>)"
proof -
  obtain w where w: "(case v of PStr t \<Rightarrow> loads t | v \<Rightarrow> Inr v) = Inr w" "as_dict w = Inr p"
    using carries_value [OF assms(1)] by (auto simp: bindR_Inr_iff)
  show ?thesis using assms(2) w by (simp add: initiate_job_def or_answer_def tryE_def on_random_sel)
qed

lemma initiate_run:
  assumes "main_side L a st X" "no_session cid X" "cid \<noteq> []" "carries v p" "p \<noteq> []"
    and "initiate L a p True (tape (ms_world X)) = (Inr (SK, ib), u)"
  shows "handle_initiate_session L (start_request cid v) X = (Inr success_answer,
    X\<lparr>ms_world := (ms_world X)\<lparr>tape := u\<rparr>, ms_session_keys := (ms_session_keys X)(PStr cid \<mapsto> SK),
      ms_pending_bundles := (ms_pending_bundles X)(PStr cid \<mapsto> ib_to_dict ib)\<rparr>)"
  using begin_initiate_run [OF assms(1-5)] initiate_job_run [OF assms(4,6)]
  by (simp add: handle_initiate_session_def and_wait_def)

text \<open>Without published prekeys, the responder needs no prekey secrets.\<close>

lemma handshake_without_prekeys:
  assumes "parties_ok L a b" "to_public_bundle L (b\<lparr>x25519_opks := [], kem_opks := []\<rparr>) = Inr p"
  shows "\<exists>SK ib u. initiate L a p True t = (Inr (SK, ib), u) \<and> length SK = 32 \<and>
    respond L b ib (\<lambda>_. None) (\<lambda>_. None) = Inr SK"
proof -
  let ?b = "b\<lparr>x25519_opks := [], kem_opks := []\<rparr>"
  have "parties_ok L a ?b" using assms(1) without_prekeys_ok [of L b] unfolding parties_ok_def by blast
  from handshake [OF this assms(2), of True t] obtain SK ib u where
    h: "initiate L a p True t = (Inr (SK, ib), u)" "length SK = 32"
    "respond L ?b ib (x25519_opk_store ?b) (kem_opk_store ?b) = Inr SK" by auto
  have "x25519_opk_store ?b = (\<lambda>_. None)" "kem_opk_store ?b = (\<lambda>_. None)"
    by (simp_all add: x25519_opk_store_def kem_opk_store_def)
  moreover have "respond L ?b ib xs ks = respond L b ib xs ks" for xs ks by (simp add: respond_def cong: if_cong)
  ultimately have "respond L b ib (\<lambda>_. None) (\<lambda>_. None) = Inr SK" using h(3) by simp
  with h(1,2) show ?thesis by blast
qed

text \<open>
  C16: two processes hold a conversation. Let both be open with their identities, and let the
  server hand out the responder's bundle without one-time prekeys. The first initiates and
  sends a message; the second, from the envelope alone, derives the same key and returns the
  text; after that any sequence of messages in both directions is returned as sent.
\<close>

theorem main_processes_converse:
  assumes "parties_ok L a b" "aead_correct L"
    and "main_side L a stx X" "main_side L b sty Y" "no_session cid X" "no_session cid Y"
    and "to_public_bundle L (b\<lparr>x25519_opks := [], kem_opks := []\<rparr>) = Inr p" "carries v p"
    and "sayable cid" "sayable txt" "\<forall>(d, t)\<in>set ms. sayable t"
  shows "\<exists>X1 X2 Y2 end. handle_initiate_session L (start_request cid v) X = (Inr success_answer, X1) \<and>
    transmit L cid txt X1 Y = (Inr (plain txt), X2, Y2) \<and>
    exchange L cid ms X2 Y2 = (map (\<lambda>(d, t). Inr (plain t)) ms, end)"
proof -
  from handshake_without_prekeys [OF assms(1,7), of "tape (ms_world X)"] obtain SK ib u where
    h: "initiate L a p True (tape (ms_world X)) = (Inr (SK, ib), u)" "length SK = 32"
    and r: "respond L b ib (\<lambda>_. None) (\<lambda>_. None) = Inr SK" by blast
  have "p \<noteq> []" by (rule public_bundle_nonempty [OF assms(7)])
  have cid: "cid \<noteq> []" using assms(9) by (simp add: sayable_def)
  let ?X1 = "X\<lparr>ms_world := (ms_world X)\<lparr>tape := u\<rparr>, ms_session_keys := (ms_session_keys X)(PStr cid \<mapsto> SK),
      ms_pending_bundles := (ms_pending_bundles X)(PStr cid \<mapsto> ib_to_dict ib)\<rparr>"
  let ?Y2 = "Y\<lparr>ms_session_keys := (ms_session_keys Y)(PStr cid \<mapsto> SK)\<rparr>"
  have i: "handle_initiate_session L (start_request cid v) X = (Inr success_answer, ?X1)"
    by (rule initiate_run [OF assms(3,5) cid assms(8) \<open>p \<noteq> []\<close> h(1)])
  have k: "shares_key cid SK ?X1" "shares_key cid SK ?Y2" by (simp_all add: shares_key_def)
  obtain ct nonce X2 where e: "handle_encrypt_message L (send_request cid txt) ?X1 =
      (Inr (envelope_of ct nonce cid (Some (ib_to_dict ib))), X2)" "shares_key cid SK X2"
    "ct \<noteq> []" "nonce \<noteq> []" "decrypt_envelope L SK (PStr cid) (PHex ct) (PHex nonce) = plain txt"
    using encrypt_run [OF assms(2) k(1) h(2) assms(9,10)] by (auto simp: shares_key_def)
  have "receive_job L (PStr cid) b (PDict (ib_to_dict ib)) (PStr cid) (PHex ct) (PHex nonce) Y = (Inr (plain txt), ?Y2)"
    using r e(5) initiation.dec_enc [of ib] by (simp add: receive_job_def establish_def decrypt_now_def tryE_def)
  then have "handle_decrypt_message L (receive_request (envelope_of ct nonce cid (Some (ib_to_dict ib)))) Y = (Inr (plain txt), ?Y2)"
    by (simp add: decrypt_first [OF e(3,4) cid assms(6), OF assms(4)])
  with e(1) have t: "transmit L cid txt ?X1 Y = (Inr (plain txt), X2, ?Y2)" by (simp add: transmit_def)
  from exchange_run [OF assms(2) h(2) assms(9,11) e(2) k(2)] i t show ?thesis by blast
qed

text \<open>
  C15: one-time prekeys break the first message. If the bundle that the responder published
  holds one-time prekeys, as every bundle that \<open>generate_identity_bundle\<close> returns does, the
  initiator's handshake and encryption succeed, but the responder, which hands no prekey
  secrets to the handshake, answers every such envelope with an error, and has no session
  afterwards.
\<close>

theorem prekeys_break_first_message:
  assumes "parties_ok L a b" "aead_correct L" "x25519_opks b = opk # opks"
    and "main_side L a stx X" "main_side L b sty Y" "no_session cid X" "no_session cid Y"
    and "to_public_bundle L b = Inr p" "carries v p" "sayable cid" "sayable txt"
  shows "\<exists>X1 X2. handle_initiate_session L (start_request cid v) X = (Inr success_answer, X1) \<and>
    transmit L cid txt X1 Y = (Inr (error_answer SESSION_FAILED), X2, Y)"
proof -
  from handshake [OF assms(1,8), of True "tape (ms_world X)"] assms(3) obtain SK ib u where
    h: "initiate L a p True (tape (ms_world X)) = (Inr (SK, ib), u)" "length SK = 32"
    "respond L b ib (x25519_opk_store b) (kem_opk_store b) = Inr SK" "ib_opk_id ib = PInt (xopk_id opk)" by auto
  have r: "respond L b ib (\<lambda>_. None) (\<lambda>_. None) = Inl (PQXDHError ''X25519 OPK not found'')"
    by (rule respond_without_prekey [OF h(3,4)]) simp_all
  have "p \<noteq> []" by (rule public_bundle_nonempty [OF assms(8)])
  have cid: "cid \<noteq> []" using assms(10) by (simp add: sayable_def)
  let ?X1 = "X\<lparr>ms_world := (ms_world X)\<lparr>tape := u\<rparr>, ms_session_keys := (ms_session_keys X)(PStr cid \<mapsto> SK),
      ms_pending_bundles := (ms_pending_bundles X)(PStr cid \<mapsto> ib_to_dict ib)\<rparr>"
  have i: "handle_initiate_session L (start_request cid v) X = (Inr success_answer, ?X1)"
    by (rule initiate_run [OF assms(4,6) cid assms(9) \<open>p \<noteq> []\<close> h(1)])
  have k: "shares_key cid SK ?X1" by (simp add: shares_key_def)
  obtain ct nonce X2 where e: "handle_encrypt_message L (send_request cid txt) ?X1 =
      (Inr (envelope_of ct nonce cid (Some (ib_to_dict ib))), X2)" "ct \<noteq> []" "nonce \<noteq> []"
    using encrypt_run [OF assms(2) k h(2) assms(10,11)] by auto
  have "receive_job L (PStr cid) b (PDict (ib_to_dict ib)) (PStr cid) (PHex ct) (PHex nonce) Y = (Inr (error_answer SESSION_FAILED), Y)"
    using r initiation.dec_enc [of ib] by (simp add: receive_job_def establish_def tryE_def)
  then have "handle_decrypt_message L (receive_request (envelope_of ct nonce cid (Some (ib_to_dict ib)))) Y =
      (Inr (error_answer SESSION_FAILED), Y)"
    by (simp add: decrypt_first [OF e(2,3) cid assms(7), OF assms(5)])
  with e(1) i show ?thesis by (simp add: transmit_def)
qed

section \<open>Examples\<close>

lemma example_bundle:
  obtains b opk opks where "bundle_ok example_lib b" "encodable (user_id b)" "x25519_opks b = opk # opks"
proof -
  obtain b t where b: "generate_identity_bundle example_lib (lit ''u'') OPK_COUNT (\<lambda>_. 0) = (Inr b, t)" "bundle_ok example_lib b"
    "user_id b = lit ''u''" "map xopk_id (x25519_opks b) = map (\<lambda>j. 1 + int j) [0..<nat OPK_COUNT]"
    using generate_identity_bundle_bundle_ok [OF example_x25519_correct example_kem_correct example_ed25519_correct
        example_dsa_correct, of "lit ''u''" OPK_COUNT "\<lambda>_. 0"] by (elim exE conjE) (rule that)
  have "x25519_opks b \<noteq> []" using arg_cong [OF b(4), of length] by (auto simp: OPK_COUNT_def)
  then obtain opk opks where "x25519_opks b = opk # opks" by (cases "x25519_opks b") auto
  with b(2,3) show ?thesis by (intro that [of b]) (simp_all add: encodable_scalar lit_scalar)
qed

lemma example_side:
  assumes "bundle_ok example_lib b" "encodable (user_id b)"
  shows "\<exists>s. main_side example_lib b example_store s \<and> no_session cid s \<and> no_conversation s"
proof -
  have paired: "paired_opks b" using assms(1) by (simp add: bundle_ok_def paired_opks_def)
  obtain d where d: "to_private_bundle example_lib b = Inr d" using private_bundle_total [OF paired] by blast
  have j: "json_ok (PDict d)" by (rule private_bundle_ok [OF d assms(2)])
  have h: "aead_correct example_lib \<and> length (enc_key example_store) = 32 \<and> quiet example_world"
    using example_aead_correct by (simp add: example_store_def quiet_def example_world_def)
  obtain w where w: "save_state example_lib example_store IDENTITY (PDict d) example_world = (Inr (), w)"
    using store.save_total [OF h identity_storable j] by blast
  have "names_ok w"
    by (rule keepsE_state [OF keeps_names_save(1) _ w]) (simp add: names_ok_def example_world_def)
  moreover have "from_private_bundle example_lib d = Inr b"
    using private_bundle.dec_enc [OF bundle_ok_loadable [OF example_x25519_correct assms(1)] d] .
  ultimately show ?thesis using store.load_saved [OF h identity_storable j w]
    by (intro exI [of _ "(new_main w)\<lparr>ms_store := Some example_store\<rparr>"])
      (simp add: main_side_def no_session_def no_conversation_def main_ok_def new_main_def)
qed

lemma example_main_parties: "bundle_ok example_lib b \<Longrightarrow> parties_ok example_lib b b"
  using example_x25519_correct example_hkdf_correct by (simp add: parties_ok_def)

lemma example_sayable: "sayable (lit [c])"
  by (simp add: sayable_def encodable_scalar lit_scalar)

theorem main_processes_converse_witness:
  "\<exists>X p X1 X2 Y2 end. handle_initiate_session example_lib (start_request (lit ''c'') (PDict p)) X = (Inr success_answer, X1) \<and>
    transmit example_lib (lit ''c'') (lit ''x'') X1 X = (Inr (plain (lit ''x'')), X2, Y2) \<and>
    exchange example_lib (lit ''c'') [(False, lit ''y''), (True, lit ''z'')] X2 Y2 = ([Inr (plain (lit ''y'')), Inr (plain (lit ''z''))], end)"
proof -
  obtain b opk opks where b: "bundle_ok example_lib b" "encodable (user_id b)" by (rule example_bundle)
  obtain X where X: "main_side example_lib b example_store X" "no_session (lit ''c'') X"
    using example_side [OF b, of "lit ''c''"] by blast
  obtain p where p: "to_public_bundle example_lib (b\<lparr>x25519_opks := [], kem_opks := []\<rparr>) = Inr p"
    using assert_opk_lists_valid_iff [of "[]" "[]"] by (simp add: to_public_bundle_def)
  have m: "\<forall>(d, t)\<in>set [(False, lit ''y''), (True, lit ''z'')]. sayable t" by (simp add: example_sayable)
  have c: "carries (PDict p) p" by (simp add: carries_def)
  from main_processes_converse [OF example_main_parties [OF b(1)] example_aead_correct X(1) X(1) X(2) X(2) p c example_sayable
      example_sayable [of "CHR ''x''"] m]
  have "\<exists>X1 X2 Y2 end. handle_initiate_session example_lib (start_request (lit ''c'') (PDict p)) X = (Inr success_answer, X1) \<and>
    transmit example_lib (lit ''c'') (lit ''x'') X1 X = (Inr (plain (lit ''x'')), X2, Y2) \<and>
    exchange example_lib (lit ''c'') [(False, lit ''y''), (True, lit ''z'')] X2 Y2 = ([Inr (plain (lit ''y'')), Inr (plain (lit ''z''))], end)"
    by (simp only: list.map prod.case)
  then show ?thesis by blast
qed

theorem prekeys_break_first_message_witness:
  "\<exists>X p X1 X2. handle_initiate_session example_lib (start_request (lit ''c'') (PDict p)) X = (Inr success_answer, X1) \<and>
    transmit example_lib (lit ''c'') (lit ''x'') X1 X = (Inr (error_answer SESSION_FAILED), X2, X)"
proof -
  obtain b opk opks where b: "bundle_ok example_lib b" "encodable (user_id b)" "x25519_opks b = opk # opks" by (rule example_bundle)
  obtain X where X: "main_side example_lib b example_store X" "no_session (lit ''c'') X"
    using example_side [OF b(1,2), of "lit ''c''"] by blast
  obtain p where p: "to_public_bundle example_lib b = Inr p"
    using b(1) assert_opk_lists_valid_iff [of "x25519_opks b" "kem_opks b"] by (auto simp: to_public_bundle_def bundle_ok_def)
  have c: "carries (PDict p) p" by (simp add: carries_def)
  from prekeys_break_first_message [OF example_main_parties [OF b(1)] example_aead_correct b(3) X(1) X(1) X(2) X(2) p c
      example_sayable example_sayable]
  show ?thesis by blast
qed

end
