(* ===== verification/Main_Interleaving.thy ===== *)
theory Main_Interleaving
  imports Main_Conversation
begin

text \<open>
  Requests of main.py that overlap: asyncio runs other handlers while one waits for its
  handshake. A configuration is the globals with the jobs that are waiting; what clients let
  overlap is a parameter. The other handlers that wait (unlocking, registration, SRP) touch
  neither keys nor pending bundles and are one step each.
\<close>

section \<open>Steps\<close>

text \<open>A request up to the wait of its handler: an answer, or a job for a thread.\<close>

definition begin_request :: "main_host \<Rightarrow> crypto \<Rightarrow> pyval \<Rightarrow> pyval \<Rightarrow> (main_state, pydict + job) eff" where
  "begin_request H L m params =
     (if m = PStr (lit ''initiate_session'') then begin_initiate L params
      else if m = PStr (lit ''respond_session'') then begin_respond L params
      else if m = PStr (lit ''decrypt_message'') then begin_decrypt L params
      else bindE (main_dispatch H L m params) (\<lambda>a. returnE (Inl a)))"

type_synonym configuration = "main_state \<times> job list"

inductive main_step ::
    "(job \<Rightarrow> job list \<Rightarrow> bool) \<Rightarrow> main_host \<Rightarrow> crypto \<Rightarrow> configuration \<Rightarrow> configuration \<Rightarrow> bool"
  for allowed :: "job \<Rightarrow> job list \<Rightarrow> bool" and H :: main_host and L :: crypto where
  answered: "main_step allowed H L (s, js) (t, js)"
    if "begin_request H L m params s = (r, t)" "sendable params" "\<forall>j. r \<noteq> Inr (Inr j)"
| waits: "main_step allowed H L (s, js) (t, js @ [j])"
    if "begin_request H L m params s = (Inr (Inr j), t)" "sendable params" "allowed j js"
| finishes: "main_step allowed H L (s, js @ j # js') (t, js @ js')"
    if "run_job L j s = (r, t)"

inductive_cases main_stepE: "main_step allowed H L (s, js) (t, js')"

abbreviation main_runs ::
    "(job \<Rightarrow> job list \<Rightarrow> bool) \<Rightarrow> main_host \<Rightarrow> crypto \<Rightarrow> configuration \<Rightarrow> configuration \<Rightarrow> bool" where
  "main_runs allowed H L \<equiv> (main_step allowed H L)\<^sup>*\<^sup>*"

text \<open>One handshake at a time for each conversation.\<close>

definition one_each :: "job \<Rightarrow> job list \<Rightarrow> bool" where
  "one_each j js \<longleftrightarrow> job_key j \<notin> job_key ` set js"

text \<open>A handler that is not interrupted is its beginning and then its job.\<close>

lemma bind_answer: "bindE (bindE m (\<lambda>a. returnE (Inl a))) (case_sum returnE f) = m"
  by (auto simp: fun_eq_iff bindE_def split: prod.split sum.split)

lemma begin_and_wait: "and_wait L (begin_request H L m params) = main_dispatch H L m params"
proof -
  have start: "bindE (liftE (Inr x)) f = f x" for x :: pyval and f :: "pyval \<Rightarrow> (main_state, pydict) eff"
    by (simp add: fun_eq_iff)
  consider "m = PStr (lit ''initiate_session'')" | "m = PStr (lit ''respond_session'')" | "m = PStr (lit ''decrypt_message'')"
    | "m \<notin> {PStr (lit ''initiate_session''), PStr (lit ''respond_session''), PStr (lit ''decrypt_message'')}" by blast
  then show ?thesis
  proof cases
    case 4
    then show ?thesis using bind_answer [of "main_dispatch H L m params" "run_job L"] by (simp add: begin_request_def and_wait_def)
  qed (simp_all add: begin_request_def main_dispatch_def start handle_initiate_session_def
      handle_respond_session_def handle_decrypt_message_def)
qed

section \<open>What a step does to the conversations\<close>

definition conversations :: "(pyval \<Rightarrow> bytes option) \<Rightarrow> (pyval \<Rightarrow> pydict option) \<Rightarrow> main_state \<Rightarrow> bool" where
  "conversations K B s \<longleftrightarrow> ms_session_keys s = K \<and> ms_pending_bundles s \<subseteq>\<^sub>m B"

lemma keeps_case_option [keeps_intros]:
  "keepsE P m \<Longrightarrow> (\<And>y. keepsE P (f y)) \<Longrightarrow> keepsE P (case x of None \<Rightarrow> m | Some y \<Rightarrow> f y)"
  by (cases x) auto

lemma keeps_case_prod [keeps_intros]: "(\<And>a b. keepsE P (f a b)) \<Longrightarrow> keepsE P (case x of (a, b) \<Rightarrow> f a b)"
  by (cases x) auto

lemma keeps_conversations [keeps_intros]:
  "keepsE (conversations K B) (on_home m)" "keepsE (conversations K B) (on_random m')"
  "keepsE (conversations K B) (on_login m'')"
  by (auto simp: keepsE_def on_random_def on_home_def on_login_def zoomE_def conversations_def split: prod.split)

lemma keeps_modify [keeps_intros]: "(\<And>s. P s \<Longrightarrow> P (g s)) \<Longrightarrow> keepsE P (modifyE g)"
  by (simp add: keepsE_def)

lemma keeps_answers [keeps_intros]:
  "keepsE P m \<Longrightarrow> keepsE P (tryE m (\<lambda>_. Some (returnE a)))" "keepsE P m \<Longrightarrow> keepsE P (or_answer a' m)"
  by (auto simp: or_answer_def intro!: keeps_intros)

lemma keeps_helpers [keeps_intros]:
  "keepsE (conversations K B) (load_identity L)" "keepsE (conversations K B) (ensure_keystore L pw)"
  unfolding load_identity_def ensure_keystore_def open_home_def
  by (intro keeps_intros; auto simp: conversations_def intro: keeps_intros)+

lemma keeps_registration [keeps_intros]:
  "keepsE (conversations K B) (clear_home L pw')" "keepsE (conversations K B) (new_home L user pw')"
  "keepsE (conversations K B) (registration_answer L user pw' nonce b)"
  unfolding clear_home_def new_home_def registration_answer_def
  by (intro keeps_intros; auto simp: conversations_def split: if_splits intro: keeps_intros)+

lemma keeps_handlers:
  "keepsE (conversations K B) (handle_unlock_keystore L params)"
  "keepsE (conversations K B) (handle_generate_identity_bundle L params)"
  "keepsE (conversations K B) (handle_srp_start params)"
  "keepsE (conversations K B) (handle_srp_challenge H L params)"
  "keepsE (conversations K B) (handle_srp_verify params)"
  unfolding handle_unlock_keystore_def handle_generate_identity_bundle_def handle_srp_start_def
    handle_srp_challenge_def handle_srp_verify_def
  by (intro keeps_intros; auto simp: conversations_def intro: keeps_intros split: sum.split)+

lemma keeps_encrypt: "keepsE (conversations K B) (handle_encrypt_message L params)"
  unfolding handle_encrypt_message_def
  by (intro keeps_intros) (auto simp: conversations_def map_le_def)

lemma keeps_begin:
  "keepsE (conversations K B) (begin_initiate L params)" "keepsE (conversations K B) (begin_respond L params)"
  "keepsE (conversations K B) (begin_decrypt L params)"
  unfolding begin_initiate_def begin_respond_def begin_decrypt_def decrypt_now_def
  by (intro keeps_intros)+

lemma keeps_begin_request: "keepsE (conversations K B) (begin_request H L m params)"
  unfolding begin_request_def main_dispatch_def
  by (simp add: keeps_begin keeps_handlers keeps_encrypt keeps_intros)

text \<open>The initiation bundle and the key of one handshake that this process initiated.\<close>

definition from_handshake :: "crypto \<Rightarrow> bytes \<Rightarrow> pydict \<Rightarrow> bool" where
  "from_handshake L SK d \<longleftrightarrow> (\<exists>b rb t ib t'. initiate L b rb True t = (Inr (SK, ib), t') \<and> d = ib_to_dict ib)"

text \<open>What a job does: nothing, or it sets the key of its conversation, with the pending bundle if it initiates.\<close>

definition job_effect :: "crypto \<Rightarrow> pyval \<Rightarrow> main_state \<Rightarrow> main_state \<Rightarrow> bool" where
  "job_effect L k s t \<longleftrightarrow>
     (ms_session_keys t = ms_session_keys s \<and> ms_pending_bundles t = ms_pending_bundles s) \<or>
     (\<exists>SK. ms_session_keys t = (ms_session_keys s)(k \<mapsto> SK) \<and>
        (ms_pending_bundles t = ms_pending_bundles s \<or>
         (\<exists>d. ms_pending_bundles t = (ms_pending_bundles s)(k \<mapsto> d) \<and> from_handshake L SK d)))"

lemma job_effectI:
  "ms_session_keys t = ms_session_keys s \<Longrightarrow> ms_pending_bundles t = ms_pending_bundles s \<Longrightarrow> job_effect L k s t"
  "ms_session_keys t = (ms_session_keys s)(k \<mapsto> SK) \<Longrightarrow> ms_pending_bundles t = ms_pending_bundles s \<Longrightarrow> job_effect L k s t"
  "ms_session_keys t = (ms_session_keys s)(k \<mapsto> SK) \<Longrightarrow> ms_pending_bundles t = (ms_pending_bundles s)(k \<mapsto> ib_to_dict ib) \<Longrightarrow>
     initiate L b rb True u = (Inr (SK, ib), u') \<Longrightarrow> job_effect L k s t"
  unfolding job_effect_def from_handshake_def by blast+

lemma establish_effect: "establish L b k ib s = (r, t) \<Longrightarrow> job_effect L k s t"
  by (auto simp: establish_def bindE_def intro: job_effectI split: sum.splits)

lemma run_job_effect:
  assumes "run_job L j s = (r, t)"
  shows "job_effect L (job_key j) s t"
proof (cases j)
  case (Initiate k b v)
  show ?thesis
    using assms unfolding Initiate run_job.simps initiate_job_def or_answer_def tryE_def bindE_def on_random_sel job.sel
    by (auto intro: job_effectI split: prod.splits sum.splits)
next
  case (Respond k b ib)
  show ?thesis
    using assms unfolding Respond
    by (auto simp: respond_job_def or_answer_def tryE_def bindE_def dest: establish_effect split: prod.splits sum.splits)
next
  case (Receive k b ib c ct n)
  show ?thesis
    using assms unfolding Receive
    by (auto simp: receive_job_def tryE_def bindE_def decrypt_now_def dest: establish_effect split: prod.splits sum.splits option.splits)
qed

section \<open>Consistent conversations\<close>

definition consistent :: "crypto \<Rightarrow> configuration \<Rightarrow> bool" where
  "consistent L = (\<lambda>(s, js). main_ok s \<and> list_all job_ok js \<and> distinct (map job_key js) \<and>
     (\<forall>j\<in>set js. ms_session_keys s (job_key j) = None) \<and>
     (\<forall>k d. ms_pending_bundles s k = Some d \<longrightarrow> (\<exists>SK. ms_session_keys s k = Some SK \<and> from_handshake L SK d)))"

lemma begun_conversations:
  assumes "begin_request H L m params s = (r, t)"
  shows "ms_session_keys t = ms_session_keys s" "ms_pending_bundles t \<subseteq>\<^sub>m ms_pending_bundles s"
  using keepsE_state [OF keeps_begin_request _ assms, of "ms_session_keys s" "ms_pending_bundles s"]
  by (simp_all add: conversations_def)

lemma identity_keeps_keys: "load_identity L s = (r, t) \<Longrightarrow> ms_session_keys t = ms_session_keys s"
  using keepsE_state [OF keeps_helpers(1), of "ms_session_keys s" "ms_pending_bundles s" s L r t]
  by (simp add: conversations_def)

lemma begun_job:
  assumes "begin_request H L m params s = (Inr (Inr j), t)"
  shows "ms_session_keys t (job_key j) = None"
proof -
  have i: "begin_initiate L params s = (Inr (Inr j), t) \<Longrightarrow> ?thesis"
    by (auto simp: begin_initiate_def bindE_eq_Inr dest!: identity_keeps_keys split: if_splits option.splits)
  have r: "begin_respond L params s = (Inr (Inr j), t) \<Longrightarrow> ?thesis"
    by (auto simp: begin_respond_def bindE_eq_Inr dest!: identity_keeps_keys split: if_splits option.splits)
  have d: "begin_decrypt L params s = (Inr (Inr j), t) \<Longrightarrow> ?thesis"
    by (auto simp: begin_decrypt_def bindE_eq_Inr dest!: identity_keeps_keys split: if_splits option.splits)
  from assms show ?thesis by (auto simp: begin_request_def bindE_eq_Inr split: if_splits dest: i r d)
qed

lemma begins_request:
  assumes "hkdf_correct L" "sendable params"
  shows "begins (begin_request H L m params)"
  unfolding begin_request_def
  by (intro yieldsE_if begins_initiate begins_respond begins_decrypt yieldsE_bind [OF replies_dispatch] yieldsE_return assms)
    simp

lemma consistent_answer:
  assumes "consistent L (s, js)" "hkdf_correct L" "begin_request H L m params s = (r, t)" "sendable params"
  shows "consistent L (t, js)"
proof -
  have "main_ok s" using assms(1) by (simp add: consistent_def)
  from yieldsED [OF begins_request [OF assms(2,4)] this assms(3)] have "main_ok t" by simp
  with assms(1) begun_conversations [OF assms(3)] show ?thesis
    by (auto simp: consistent_def map_le_def dom_def)
qed

lemma consistent_wait:
  assumes "consistent L (s, js)" "hkdf_correct L" "begin_request H L m params s = (Inr (Inr j), t)" "sendable params"
    and "one_each j js"
  shows "consistent L (t, js @ [j])"
proof -
  have "main_ok s" using assms(1) by (simp add: consistent_def)
  from yieldsED [OF begins_request [OF assms(2,4)] this assms(3)] have "job_ok j" by simp
  with consistent_answer [OF assms(1-4)] begun_job [OF assms(3)] assms(5) show ?thesis
    by (auto simp: consistent_def one_each_def)
qed

lemma consistent_finish:
  assumes "consistent L (s, js @ j # js')" "hkdf_correct L" "run_job L j s = (r, t)"
  shows "consistent L (t, js @ js')"
proof -
  have ok: "main_ok s" "job_ok j" "ms_session_keys s (job_key j) = None" "ms_pending_bundles s (job_key j) = None"
    using assms(1) by (auto simp: consistent_def) (metis not_None_eq option.distinct(1))
  from yieldsED [OF replies_job [OF assms(2) ok(2)] ok(1) assms(3)] have "main_ok t" by simp
  with ok(3,4) assms(1) run_job_effect [OF assms(3)] show ?thesis
    by (auto simp: consistent_def job_effect_def image_iff)
qed

lemma consistent_step:
  assumes "main_step one_each H L x y" "hkdf_correct L" "consistent L x"
  shows "consistent L y"
  using assms by cases (auto intro: consistent_answer consistent_wait consistent_finish)

lemma consistent_runs: "main_runs one_each H L x y \<Longrightarrow> hkdf_correct L \<Longrightarrow> consistent L x \<Longrightarrow> consistent L y"
  by (induction rule: rtranclp_induct) (auto intro: consistent_step)

text \<open>A key, once set, stays.\<close>

lemma key_kept_step:
  assumes "main_step one_each H L (s, js) (t, js')" "consistent L (s, js)" "ms_session_keys s k = Some SK"
  shows "ms_session_keys t k = Some SK"
proof -
  have finish: "ms_session_keys t k = Some SK" if "run_job L j s = (r, t)" "j \<in> set js" for j r
  proof -
    have "job_key j \<noteq> k" using assms(2,3) that(2) by (auto simp: consistent_def)
    with run_job_effect [OF that(1)] assms(3) show ?thesis by (auto simp: job_effect_def)
  qed
  from assms(1) show ?thesis
    by (rule main_stepE) (auto simp: assms(3) begun_conversations(1) intro: finish)
qed

lemma key_kept_runs:
  assumes "main_runs one_each H L (s, js) (t, js')" "hkdf_correct L" "consistent L (s, js)" "ms_session_keys s k = Some SK"
  shows "ms_session_keys t k = Some SK"
proof -
  have "consistent L (t, js') \<and> ms_session_keys t k = Some SK"
    using assms(1)
  proof (induction rule: rtranclp_induct2)
    case refl
    with assms(3,4) show ?case by simp
  next
    case (step u us v vs)
    with consistent_step [OF step.hyps(2) assms(2)] key_kept_step [OF step.hyps(2)] show ?case by blast
  qed
  then show ?thesis by simp
qed

section \<open>Properties\<close>

lemma no_conversation_consistent: "no_conversation s \<Longrightarrow> consistent L (s, [])"
  by (simp add: no_conversation_def consistent_def)

text \<open>
  C17: interleaved handlers. Requests of any number of clients run interleaved, each stopping
  where it waits for its handshake; only two handshakes of one conversation do not overlap.
  Then at every moment the globals are well formed, the bundle that waits to be sent with a
  conversation's next message is that of the handshake which gave the conversation its key,
  and a key, once set, is never replaced.
\<close>

theorem interleaved_keys_consistent:
  assumes "hkdf_correct L" "no_conversation s\<^sub>0"
    and "main_runs one_each H L (s\<^sub>0, []) (s, js)" "main_runs one_each H L (s, js) (t, js')"
  shows "main_ok s \<and>
    (\<forall>k d. ms_pending_bundles s k = Some d \<longrightarrow> (\<exists>SK. ms_session_keys s k = Some SK \<and> from_handshake L SK d)) \<and>
    (\<forall>k SK. ms_session_keys s k = Some SK \<longrightarrow> ms_session_keys t k = Some SK)"
proof -
  have c: "consistent L (s, js)"
    by (rule consistent_runs [OF assms(3,1) no_conversation_consistent [OF assms(2)]])
  then show ?thesis using key_kept_runs [OF assms(4,1) c] by (simp add: consistent_def)
qed

definition respond_request :: "pystr \<Rightarrow> InitiationBundle \<Rightarrow> pyval" where
  "respond_request cid ib = PDict [(lit ''conversation_id'', PStr cid), (lit ''initiation_bundle'', PDict (ib_to_dict ib))]"

lemma begin_respond_run:
  assumes "main_side L a st X" "no_session cid X" "cid \<noteq> []"
  shows "begin_respond L (respond_request cid ib) X = (Inr (Inr (Respond (PStr cid) a (PDict (ib_to_dict ib)))), X)"
  using assms(2,3) ib_to_dict_truthy [of ib] load_identity_run [OF assms(1)]
  by (simp add: begin_respond_def respond_request_def param_get_def no_session_def)

lemma respond_job_run:
  assumes "respond L a ib (\<lambda>_. None) (\<lambda>_. None) = Inr SK"
  shows "respond_job L k a (PDict (ib_to_dict ib)) X = (Inr success_answer, X\<lparr>ms_session_keys := (ms_session_keys X)(k \<mapsto> SK)\<rparr>)"
  using assms initiation.dec_enc [of ib] by (simp add: respond_job_def or_answer_def tryE_def establish_def)

text \<open>
  C18: two handshakes of one conversation that overlap mix their keys. A process is asked to
  initiate a conversation and, while that handshake runs, to respond to the other side's; both
  requests succeed. Its next message is encrypted under the key of the second handshake but
  carries the bundle of the first, from which the other side derives the first key.
\<close>

theorem overlapping_handshakes_mix_keys:
  assumes "parties_ok L a b" "aead_correct L" "main_side L a st X" "no_session cid X"
    and "to_public_bundle L (b\<lparr>x25519_opks := [], kem_opks := []\<rparr>) = Inr p" "carries v p" "sendable v"
    and "respond L a ib\<^sub>2 (\<lambda>_. None) (\<lambda>_. None) = Inr SK\<^sub>2" "sendable (ib_opk_id ib\<^sub>2)"
    and "sayable cid" "sayable txt"
  shows "\<exists>t ib\<^sub>1 SK\<^sub>1 ct nonce t'. main_runs (\<lambda>_ _. True) H L (X, []) (t, []) \<and>
    handle_encrypt_message L (send_request cid txt) t = (Inr (envelope_of ct nonce cid (Some (ib_to_dict ib\<^sub>1))), t') \<and>
    decrypt_envelope L SK\<^sub>2 (PStr cid) (PHex ct) (PHex nonce) = plain txt \<and>
    (\<exists>u'. initiate L a p True (tape (ms_world X)) = (Inr (SK\<^sub>1, ib\<^sub>1), u')) \<and>
    respond L b ib\<^sub>1 (\<lambda>_. None) (\<lambda>_. None) = Inr SK\<^sub>1"
proof -
  from handshake_without_prekeys [OF assms(1,5), of "tape (ms_world X)"] obtain SK\<^sub>1 ib\<^sub>1 u where
    h: "initiate L a p True (tape (ms_world X)) = (Inr (SK\<^sub>1, ib\<^sub>1), u)" "respond L b ib\<^sub>1 (\<lambda>_. None) (\<lambda>_. None) = Inr SK\<^sub>1"
    by blast
  have cid: "cid \<noteq> []" and ne: "p \<noteq> []" using assms(10) public_bundle_nonempty [OF assms(5)] by (simp_all add: sayable_def)
  let ?k = "PStr cid"
  let ?i = "Initiate ?k a v" and ?r = "Respond ?k a (PDict (ib_to_dict ib\<^sub>2))"
  let ?X1 = "X\<lparr>ms_world := (ms_world X)\<lparr>tape := u\<rparr>, ms_session_keys := (ms_session_keys X)(?k \<mapsto> SK\<^sub>1),
      ms_pending_bundles := (ms_pending_bundles X)(?k \<mapsto> ib_to_dict ib\<^sub>1)\<rparr>"
  let ?X2 = "?X1\<lparr>ms_session_keys := (ms_session_keys ?X1)(?k \<mapsto> SK\<^sub>2)\<rparr>"
  let ?step = "main_step (\<lambda>_ _. True) H L"
  have "begin_request H L (PStr (lit ''initiate_session'')) (start_request cid v) X = (Inr (Inr ?i), X)"
    by (simp add: begin_request_def begin_initiate_run [OF assms(3,4) cid assms(6) ne])
  then have 1: "?step (X, []) (X, [] @ [?i])"
    by (rule waits) (use assms(7) in \<open>simp_all add: start_request_def\<close>)
  have "begin_request H L (PStr (lit ''respond_session'')) (respond_request cid ib\<^sub>2) X = (Inr (Inr ?r), X)"
    by (simp add: begin_request_def begin_respond_run [OF assms(3,4) cid])
  then have 2: "?step (X, [?i]) (X, [?i] @ [?r])"
    by (rule waits) (use assms(9) in \<open>simp_all add: respond_request_def ib_to_dict_def\<close>)
  have "run_job L ?i X = (Inr success_answer, ?X1)" by (simp add: initiate_job_run [OF assms(6) h(1)])
  then have 3: "?step (X, [] @ ?i # [?r]) (?X1, [] @ [?r])" by (rule finishes)
  have "run_job L ?r ?X1 = (Inr success_answer, ?X2)" by (simp add: respond_job_run [OF assms(8)])
  then have 4: "?step (?X1, [] @ ?r # []) (?X2, [] @ [])" by (rule finishes)
  have runs: "main_runs (\<lambda>_ _. True) H L (X, []) (?X2, [])"
    using 1 2 3 4 by (auto intro: converse_rtranclp_into_rtranclp)
  have len: "length SK\<^sub>2 = 32"
    using assms(1,8) by (auto simp: respond_def Let_def bindR_Inr_iff parties_ok_def PQXDH_SK_LEN_def dest: pqxdh_sk_length)
  have k: "shares_key cid SK\<^sub>2 ?X2" by (simp add: shares_key_def)
  obtain ct nonce t' where "handle_encrypt_message L (send_request cid txt) ?X2 =
      (Inr (envelope_of ct nonce cid (Some (ib_to_dict ib\<^sub>1))), t')"
    "decrypt_envelope L SK\<^sub>2 ?k (PHex ct) (PHex nonce) = plain txt"
    using encrypt_run [OF assms(2) k len assms(10,11)] by auto
  with runs h show ?thesis by blast
qed

section \<open>Examples\<close>

lemma example_public:
  obtains b X p where "bundle_ok example_lib b" "main_side example_lib b example_store X" "no_session cid X" "no_conversation X"
    "to_public_bundle example_lib (b\<lparr>x25519_opks := [], kem_opks := []\<rparr>) = Inr p"
proof -
  obtain b opk opks where b: "bundle_ok example_lib b" "encodable (user_id b)" by (rule example_bundle)
  obtain X where X: "main_side example_lib b example_store X" "no_session cid X" "no_conversation X"
    using example_side [OF b, of cid] by blast
  obtain p where "to_public_bundle example_lib (b\<lparr>x25519_opks := [], kem_opks := []\<rparr>) = Inr p"
    using assert_opk_lists_valid_iff [of "[]" "[]"] by (simp add: to_public_bundle_def)
  with b(1) X show ?thesis by (rule that)
qed

theorem interleaved_keys_consistent_witness:
  "\<exists>s\<^sub>0 s d SK. no_conversation s\<^sub>0 \<and> main_runs one_each example_main_host example_lib (s\<^sub>0, []) (s, []) \<and>
    ms_pending_bundles s (PStr (lit ''c'')) = Some d \<and> ms_session_keys s (PStr (lit ''c'')) = Some SK \<and>
    from_handshake example_lib SK d"
proof -
  let ?k = "PStr (lit ''c'')" and ?step = "main_step one_each example_main_host example_lib"
  obtain b X p where x: "bundle_ok example_lib b" "main_side example_lib b example_store X" "no_session (lit ''c'') X"
    "no_conversation X" "to_public_bundle example_lib (b\<lparr>x25519_opks := [], kem_opks := []\<rparr>) = Inr p" by (rule example_public)
  have c: "carries (PDict p) p" "lit ''c'' \<noteq> []" "p \<noteq> []" "sendable (start_request (lit ''c'') (PDict p))"
    using public_bundle_nonempty [OF x(5)] sendable_public_bundle [OF x(5)] by (simp_all add: carries_def start_request_def)
  obtain SK ib u where h: "initiate example_lib b p True (tape (ms_world X)) = (Inr (SK, ib), u)"
    using handshake_without_prekeys [OF example_main_parties [OF x(1)] x(5)] by blast
  let ?X1 = "X\<lparr>ms_world := (ms_world X)\<lparr>tape := u\<rparr>, ms_session_keys := (ms_session_keys X)(?k \<mapsto> SK),
      ms_pending_bundles := (ms_pending_bundles X)(?k \<mapsto> ib_to_dict ib)\<rparr>"
  have "?step (X, []) (X, [] @ [Initiate ?k b (PDict p)])"
  proof (rule waits)
    show "begin_request example_main_host example_lib (PStr (lit ''initiate_session'')) (start_request (lit ''c'') (PDict p)) X =
        (Inr (Inr (Initiate ?k b (PDict p))), X)"
      by (simp add: begin_request_def begin_initiate_run [OF x(2,3) c(2,1,3)])
  qed (simp_all add: c(4) one_each_def)
  moreover have "?step (X, [] @ Initiate ?k b (PDict p) # []) (?X1, [] @ [])"
    by (rule finishes) (simp add: initiate_job_run [OF c(1) h])
  ultimately have r: "main_runs one_each example_main_host example_lib (X, []) (?X1, [])"
    by (auto intro: converse_rtranclp_into_rtranclp)
  note p = interleaved_keys_consistent [OF example_hkdf_correct x(4) r rtranclp.rtrancl_refl, THEN conjunct2, THEN conjunct1]
  have "\<exists>SK. ms_session_keys ?X1 ?k = Some SK \<and> from_handshake example_lib SK (ib_to_dict ib)"
    by (rule p [rule_format]) simp
  then have "\<exists>d SK. ms_pending_bundles ?X1 ?k = Some d \<and> ms_session_keys ?X1 ?k = Some SK \<and> from_handshake example_lib SK d" by simp
  with x(4) r show ?thesis by blast
qed

theorem overlapping_handshakes_mix_keys_witness:
  "\<exists>b X t SK\<^sub>1 SK\<^sub>2 ib\<^sub>1 ct nonce t'.
    main_runs (\<lambda>_ _. True) example_main_host example_lib (X, []) (t, []) \<and>
    handle_encrypt_message example_lib (send_request (lit ''c'') (lit ''x'')) t =
      (Inr (envelope_of ct nonce (lit ''c'') (Some (ib_to_dict ib\<^sub>1))), t') \<and>
    decrypt_envelope example_lib SK\<^sub>2 (PStr (lit ''c'')) (PHex ct) (PHex nonce) = plain (lit ''x'') \<and>
    respond example_lib b ib\<^sub>1 (\<lambda>_. None) (\<lambda>_. None) = Inr SK\<^sub>1"
proof -
  obtain b X p where x: "bundle_ok example_lib b" "main_side example_lib b example_store X" "no_session (lit ''c'') X"
    "no_conversation X" "to_public_bundle example_lib (b\<lparr>x25519_opks := [], kem_opks := []\<rparr>) = Inr p" by (rule example_public)
  have c: "carries (PDict p) p" "sendable (PDict p)"
    using sendable_public_bundle [OF x(5)] by (simp_all add: carries_def)
  obtain SK ib u where h: "initiate example_lib b p True (\<lambda>_. 0) = (Inr (SK, ib), u)"
    "respond example_lib b ib (\<lambda>_. None) (\<lambda>_. None) = Inr SK"
    using handshake_without_prekeys [OF example_main_parties [OF x(1)] x(5)] by blast
  have s: "sendable (ib_opk_id ib)"
    using yieldsED [OF initiated_printable [OF c(2)] _ h(1)] by simp
  from overlapping_handshakes_mix_keys [where H = example_main_host, OF example_main_parties [OF x(1)] example_aead_correct
      x(2,3,5) c h(2) s example_sayable example_sayable [of "CHR ''x''"]]
  show ?thesis by blast
qed

end
