(* ===== verification/Main_Logins.thy ===== *)
theory Main_Logins
  imports Main_Conversation Channel
begin

text \<open>
  The SRP requests of main.py when they overlap. \<open>handle_srp_challenge\<close> and
  \<open>handle_srp_verify\<close> hand a method of the session object to a thread and wait; meanwhile other
  clients' requests run and may bind the global \<open>_srp_session\<close> to another object. So the
  sessions are objects with identities, and a request is its beginning, the method call in the
  thread (taken as one step) and the rest. \<open>Main_Service\<close> has the same handlers as one step each.
\<close>

section \<open>Sessions as objects\<close>

text \<open>
  A waiting request: the object and the arguments its thread was given, then what the
  method returned or raised.
\<close>

datatype login_call =
    Proving nat pyval pyval
  | Proved "pystr res"
  | Checking nat pyval
  | Checked bool

text \<open>
  The objects in the order of their creation, the one the global is bound to, and the call
  each client waits for. A client waits for its answer before it sends another request.
\<close>

record login_state =
  lg_objects :: "srp_session list"
  lg_current :: "nat option"
  lg_waiting :: "nat \<Rightarrow> login_call option"
  lg_world :: world

datatype login_request =
    Start pyval
  | Challenge pyval
  | Verify pyval

definition object :: "nat \<Rightarrow> login_state \<Rightarrow> srp_session" where
  "object i s = lg_objects s ! i"

definition start_login :: "pyval \<Rightarrow> (login_state, pydict) eff" where
  "start_login params =
     bindE (liftE (param_get params ''username'' (PStr []))) (\<lambda>username.
     bindE (liftE (param_get params ''password'' (PStr []))) (\<lambda>password.
     if \<not> truthy username \<or> \<not> truthy password
     then returnE (error_answer (lit ''username and password required.''))
     else tryE
       (bindE (liftE (as_str username)) (\<lambda>user. bindE (liftE (as_str password)) (\<lambda>pw.
        bindE (zoomE lg_world (\<lambda>w s. s\<lparr>lg_world := w\<rparr>) (on_tape (new_srp_session user pw))) (\<lambda>session.
        bindE (modifyE (\<lambda>s. s\<lparr>lg_objects := lg_objects s @ [session], lg_current := Some (length (lg_objects s))\<rparr>)) (\<lambda>_.
        bindE (liftE (A_hex session)) (\<lambda>a.
        returnE [(lit ''A'', PStr a)]))))))
       (\<lambda>_. Some (returnE (error_answer (lit ''SRP initialisation failed.''))))))"

definition begin_challenge :: "pyval \<Rightarrow> (login_state, pydict + login_call) eff" where
  "begin_challenge params =
     bindE (getE lg_current) (\<lambda>session. case session of
       None \<Rightarrow> returnE (Inl (error_answer (lit ''Call srp_start first.'')))
     | Some i \<Rightarrow>
         bindE (liftE (param_get params ''salt'' (PStr []))) (\<lambda>salt.
         bindE (liftE (param_get params ''B'' (PStr []))) (\<lambda>B.
         if \<not> truthy salt \<or> \<not> truthy B then returnE (Inl (error_answer (lit ''salt and B required.'')))
         else returnE (Inr (Proving i salt B)))))"

definition begin_verify :: "pyval \<Rightarrow> (login_state, pydict + login_call) eff" where
  "begin_verify params =
     bindE (getE lg_current) (\<lambda>session. case session of
       None \<Rightarrow> returnE (Inl (not_authenticated (lit ''Call srp_start first.'')))
     | Some i \<Rightarrow>
         bindE (liftE (param_get params ''M2'' (PStr []))) (\<lambda>M2.
         if \<not> truthy M2 then returnE (Inl (not_authenticated (lit ''M2 required.'')))
         else returnE (Inr (Checking i M2))))"

fun begin_login :: "login_request \<Rightarrow> (login_state, pydict + login_call) eff" where
  "begin_login (Start params) = bindE (start_login params) (\<lambda>a. returnE (Inl a))"
| "begin_login (Challenge params) = begin_challenge params"
| "begin_login (Verify params) = begin_verify params"

text \<open>The method call in the thread, on the object bound when the request began.\<close>

fun run_call :: "crypto \<Rightarrow> login_call \<Rightarrow> login_state \<Rightarrow> login_call \<times> login_state" where
  "run_call L (Proving i salt B) s =
     (case process_challenge L salt B (object i s) of
       (r, x) \<Rightarrow> (Proved r, s\<lparr>lg_objects := (lg_objects s)[i := x]\<rparr>))"
| "run_call L (Checking i M2) s = (Checked (verify_server (object i s) M2), s)"
| "run_call L call s = (call, s)"

text \<open>
  The rest of the request in the event loop. The key is read from the object that the
  global is bound to by then.
\<close>

definition key_answer :: "login_state \<Rightarrow> pydict" where
  "key_answer s =
     (case lg_current s of
       None \<Rightarrow> not_authenticated (lit ''Verification failed.'')
     | Some i \<Rightarrow> (case session_key_hex (object i s) of
         Inl e \<Rightarrow> not_authenticated (lit ''Verification failed.'')
       | Inr k \<Rightarrow> [(lit ''authenticated'', PBool True), (lit ''session_key'', PStr k)]))"

fun end_call :: "main_host \<Rightarrow> login_call \<Rightarrow> login_state \<Rightarrow> pydict option" where
  "end_call H (Proved (Inl e)) s = Some (error_answer (mh_exn_text H e))"
| "end_call H (Proved (Inr M1)) s = Some [(lit ''M1'', PStr M1)]"
| "end_call H (Checked ok) s = Some
     (if ok then key_answer s else not_authenticated (lit ''Server authentication failed.''))"
| "end_call H call s = None"

section \<open>Steps\<close>

text \<open>
  A client's request, a step of its thread, and the moment the event loop resumes it. Each
  step answers at most one client; what cannot happen changes nothing.
\<close>

datatype login_event =
    Ask nat login_request
  | Work nat
  | Resume nat

fun login_step :: "main_host \<Rightarrow> crypto \<Rightarrow> login_event \<Rightarrow> login_state \<Rightarrow> (nat \<times> pydict res) list \<times> login_state" where
  "login_step H L (Ask c request) s =
     (if lg_waiting s c \<noteq> None then ([], s)
      else case begin_login request s of
        (Inl e, t) \<Rightarrow> ([(c, Inl e)], t)
      | (Inr (Inl a), t) \<Rightarrow> ([(c, Inr a)], t)
      | (Inr (Inr call), t) \<Rightarrow> ([], t\<lparr>lg_waiting := (lg_waiting t)(c \<mapsto> call)\<rparr>))"
| "login_step H L (Work c) s =
     (case lg_waiting s c of
       None \<Rightarrow> ([], s)
     | Some call \<Rightarrow> (case run_call L call s of
         (call', t) \<Rightarrow> ([], t\<lparr>lg_waiting := (lg_waiting t)(c \<mapsto> call')\<rparr>)))"
| "login_step H L (Resume c) s =
     (case lg_waiting s c of
       None \<Rightarrow> ([], s)
     | Some call \<Rightarrow> (case end_call H call s of
         None \<Rightarrow> ([], s)
       | Some a \<Rightarrow> ([(c, Inr a)], s\<lparr>lg_waiting := (lg_waiting s)(c := None)\<rparr>)))"

section \<open>One request at a time\<close>

text \<open>A request that nothing interrupts, and the same request as one step of \<open>Main_Service\<close>.\<close>

definition uninterrupted :: "main_host \<Rightarrow> crypto \<Rightarrow> nat \<times> login_request \<Rightarrow> login_state \<Rightarrow> (nat \<times> pydict res) list \<times> login_state" where
  "uninterrupted H L p = (case p of (c, request) \<Rightarrow> run_steps (login_step H L) [Ask c request, Work c, Resume c])"

fun handle_login :: "main_host \<Rightarrow> crypto \<Rightarrow> login_request \<Rightarrow> (main_state, pydict) eff" where
  "handle_login H L (Start params) = handle_srp_start params"
| "handle_login H L (Challenge params) = handle_srp_challenge H L params"
| "handle_login H L (Verify params) = handle_srp_verify params"

definition one_step :: "main_host \<Rightarrow> crypto \<Rightarrow> nat \<times> login_request \<Rightarrow> main_state \<Rightarrow> (nat \<times> pydict res) list \<times> main_state" where
  "one_step H L p m = (case p of (c, request) \<Rightarrow> (case handle_login H L request m of (r, m') \<Rightarrow> ([(c, r)], m')))"

text \<open>Nobody waits, and the global is bound to an object with the state that \<open>main_state\<close> has.\<close>

definition same_login :: "login_state \<Rightarrow> main_state \<Rightarrow> bool" where
  "same_login s m \<longleftrightarrow> lg_waiting s = (\<lambda>_. None) \<and> lg_world s = ms_world m \<and>
     (\<forall>i. lg_current s = Some i \<longrightarrow> i < length (lg_objects s)) \<and>
     ms_srp_session m = map_option (\<lambda>i. object i s) (lg_current s)"

lemma start_alike:
  assumes "same_login s m" "start_login params s = (r, t)"
  shows "\<exists>m'. handle_srp_start params m = (r, m') \<and> same_login t m'"
proof (cases "param_get params ''username'' (PStr [])")
  case u: (Inr username)
  show ?thesis
  proof (cases "param_get params ''password'' (PStr [])")
    case p: (Inr password)
    obtain b v where n: "urandom 32 (tape (ms_world m)) = (b, v)" by force
    show ?thesis
      using assms u p n
      by (auto simp: start_login_def handle_srp_start_def or_answer_def on_random_def on_home_def on_tape_sel new_srp_session_def drawE_def Let_def zoomE_def tryE_def
          same_login_def object_def bindE_def nth_append split: sum.splits if_splits)
  qed (use assms u in \<open>simp add: start_login_def handle_srp_start_def\<close>)
qed (use assms in \<open>simp add: start_login_def handle_srp_start_def\<close>)

lemma begin_challenge_cases:
  assumes "lg_current s = Some i"
  shows "begin_challenge params s = (case bindR (param_get params ''salt'' (PStr [])) (\<lambda>salt.
      bindR (param_get params ''B'' (PStr [])) (\<lambda>B. Inr (salt, B))) of
      Inl e \<Rightarrow> (Inl e, s)
    | Inr (salt, B) \<Rightarrow> (Inr (if truthy salt \<and> truthy B then Inr (Proving i salt B)
        else Inl (error_answer (lit ''salt and B required.''))), s))"
  using assms by (simp add: begin_challenge_def bindE_def bindR_def split: sum.split)

lemma begin_verify_cases:
  assumes "lg_current s = Some i"
  shows "begin_verify params s = (case param_get params ''M2'' (PStr []) of Inl e \<Rightarrow> (Inl e, s)
    | Inr M2 \<Rightarrow> (Inr (if truthy M2 then Inr (Checking i M2) else Inl (not_authenticated (lit ''M2 required.''))), s))"
  using assms by (simp add: begin_verify_def bindE_def split: sum.split)

text \<open>The two handlers of \<open>Main_Service\<close> on a bound session, in the same form.\<close>

lemma handle_challenge_cases:
  assumes "ms_srp_session m = Some x"
  shows "handle_srp_challenge H L params m = (case bindR (param_get params ''salt'' (PStr [])) (\<lambda>salt.
      bindR (param_get params ''B'' (PStr [])) (\<lambda>B. Inr (salt, B))) of
      Inl e \<Rightarrow> (Inl e, m)
    | Inr (salt, B) \<Rightarrow>
        if truthy salt \<and> truthy B
        then (case process_challenge L salt B x of (r, y) \<Rightarrow>
          (Inr (case r of Inl e \<Rightarrow> error_answer (mh_exn_text H e) | Inr M1 \<Rightarrow> [(lit ''M1'', PStr M1)]), m\<lparr>ms_srp_session := Some y\<rparr>))
        else (Inr (error_answer (lit ''salt and B required.'')), m))"
  using assms
  by (simp add: handle_srp_challenge_def on_login_def zoomE_def tryE_def bindE_def bindR_def split: sum.split prod.split)

lemma handle_verify_cases:
  assumes "ms_srp_session m = Some x"
  shows "handle_srp_verify params m = (case param_get params ''M2'' (PStr []) of Inl e \<Rightarrow> (Inl e, m)
    | Inr M2 \<Rightarrow> (Inr (if \<not> truthy M2 then not_authenticated (lit ''M2 required.'')
        else if verify_server x M2 then (case session_key_hex x of
          Inl e \<Rightarrow> not_authenticated (lit ''Verification failed.'')
        | Inr k \<Rightarrow> [(lit ''authenticated'', PBool True), (lit ''session_key'', PStr k)])
        else not_authenticated (lit ''Server authentication failed.'')), m))"
  using assms by (simp add: handle_srp_verify_def or_answer_def tryE_def bindE_def split: sum.split)

lemma challenge_alike:
  assumes "same_login s m"
  shows "fst (uninterrupted H L (c, Challenge params) s) = fst (one_step H L (c, Challenge params) m) \<and>
    same_login (snd (uninterrupted H L (c, Challenge params) s)) (snd (one_step H L (c, Challenge params) m))"
proof (cases "lg_current s")
  case None
  with assms show ?thesis
    by (simp add: uninterrupted_def one_step_def same_login_def begin_challenge_def handle_srp_challenge_def)
next
  case (Some i)
  let ?p = "bindR (param_get params ''salt'' (PStr [])) (\<lambda>salt. bindR (param_get params ''B'' (PStr [])) (\<lambda>B. Inr (salt, B)))"
  from assms Some have m: "ms_srp_session m = Some (object i s)" by (simp add: same_login_def)
  show ?thesis
  proof (cases ?p)
    case (Inl e)
    with assms show ?thesis
      by (simp add: uninterrupted_def one_step_def same_login_def begin_challenge_cases [OF Some] handle_challenge_cases [OF m])
  next
    case (Inr q)
    obtain salt B where q: "q = (salt, B)" by force
    obtain r y where r: "process_challenge L salt B (object i s) = (r, y)" by force
    show ?thesis
      using assms Inr q r Some
      by (cases r) (simp_all add: uninterrupted_def one_step_def same_login_def begin_challenge_cases [OF Some]
          handle_challenge_cases [OF m] object_def fun_upd_twist)
  qed
qed

lemma verify_alike:
  assumes "same_login s m"
  shows "fst (uninterrupted H L (c, Verify params) s) = fst (one_step H L (c, Verify params) m) \<and>
    same_login (snd (uninterrupted H L (c, Verify params) s)) (snd (one_step H L (c, Verify params) m))"
proof (cases "lg_current s")
  case None
  with assms show ?thesis
    by (simp add: uninterrupted_def one_step_def same_login_def begin_verify_def handle_srp_verify_def)
next
  case (Some i)
  from assms Some have m: "ms_srp_session m = Some (object i s)" by (simp add: same_login_def)
  show ?thesis using assms Some
    by (cases "param_get params ''M2'' (PStr [])")
      (simp_all add: uninterrupted_def one_step_def same_login_def begin_verify_cases [OF Some] handle_verify_cases [OF m]
        key_answer_def object_def)
qed

lemma login_alike:
  assumes "same_login s m"
  shows "fst (uninterrupted H L p s) = fst (one_step H L p m) \<and> same_login (snd (uninterrupted H L p s)) (snd (one_step H L p m))"
proof (cases p)
  case (Pair c request)
  show ?thesis
  proof (cases request)
    case (Start params)
    obtain r t where st: "start_login params s = (r, t)" by force
    from start_alike [OF assms(1) this] obtain m' where "handle_srp_start params m = (r, m')" "same_login t m'" by blast
    with st assms(1) show ?thesis
      by (cases r) (auto simp: Pair Start uninterrupted_def one_step_def same_login_def bindE_def)
  qed (use challenge_alike [OF assms] verify_alike [OF assms] in \<open>simp_all add: Pair\<close>)
qed

text \<open>So the handlers of \<open>Main_Service\<close> are what the SRP requests do when none overlaps another.\<close>

interpretation logins_as_handlers: simulation "uninterrupted H L" "one_step H L" same_login "\<lambda>_. True" for H L
  by unfold_locales (rule login_alike)

lemma logins_one_at_a_time:
  "fst (run_all (uninterrupted H L) ps \<lparr>lg_objects = [], lg_current = None, lg_waiting = (\<lambda>_. None), lg_world = w\<rparr>) =
     fst (run_all (one_step H L) ps (new_main w))"
  using logins_as_handlers.run [of "\<lparr>lg_objects = [], lg_current = None, lg_waiting = (\<lambda>_. None), lg_world = w\<rparr>" "new_main w" ps H L]
  by (simp add: same_login_def new_main_def list_all_iff)

section \<open>A verification that waits\<close>

text \<open>What leaves the login of client \<open>c\<close> alone: no request of its own, no new login and no challenge.\<close>

fun leaves_login :: "nat \<Rightarrow> login_event \<Rightarrow> bool" where
  "leaves_login c (Ask d (Start params)) = False"
| "leaves_login c (Ask d (Challenge params)) = False"
| "leaves_login c (Ask d (Verify params)) = (d \<noteq> c)"
| "leaves_login c (Work d) = (d \<noteq> c)"
| "leaves_login c (Resume d) = (d \<noteq> c)"

text \<open>The object \<open>i\<close> is current with the state \<open>x\<close>, no thread is about to change it, and \<open>c\<close> waits for \<open>call\<close>.\<close>

definition settled :: "nat \<Rightarrow> srp_session \<Rightarrow> nat \<Rightarrow> login_call option \<Rightarrow> login_state \<Rightarrow> bool" where
  "settled i x c call s \<longleftrightarrow> lg_current s = Some i \<and> i < length (lg_objects s) \<and> object i s = x \<and> lg_waiting s c = call \<and>
     (\<forall>d salt B. lg_waiting s d \<noteq> Some (Proving i salt B))"

lemma run_call_settled:
  assumes "settled i x c w s" "lg_waiting s d = Some call" "run_call L call s = (call', t)" "d \<noteq> c"
  shows "settled i x c w (t\<lparr>lg_waiting := (lg_waiting t)(d \<mapsto> call')\<rparr>)"
proof (cases call)
  case (Proving j salt B)
  with assms(1,2) have "j \<noteq> i" by (auto simp: settled_def)
  with assms Proving show ?thesis by (auto simp: settled_def object_def split: prod.splits)
qed (use assms in \<open>auto simp: settled_def object_def\<close>)

lemma leaves_step:
  assumes "settled i x c w s" "leaves_login c e"
  shows "settled i x c w (snd (login_step H L e s)) \<and> (\<forall>a\<in>set (fst (login_step H L e s)). fst a \<noteq> c)"
proof (cases e)
  case (Ask d request)
  with assms(2) obtain params where "request = Verify params" "d \<noteq> c" by (cases request) auto
  moreover have "lg_current s = Some i" using assms(1) by (simp add: settled_def)
  ultimately show ?thesis using assms(1)
    by (auto simp: Ask begin_verify_cases settled_def object_def split: sum.splits)
next
  case (Work d)
  with assms run_call_settled [OF assms(1), of d] show ?thesis by (auto split: option.splits prod.splits)
next
  case (Resume d)
  with assms show ?thesis by (auto simp: settled_def object_def split: option.splits)
qed

lemma leaves_run:
  "settled i x c w s \<Longrightarrow> list_all (leaves_login c) es \<Longrightarrow>
     \<exists>r t. run_steps (login_step H L) es s = (r, t) \<and> settled i x c w t \<and> filter (\<lambda>a. fst a = c) r = []"
proof (induction es arbitrary: s)
  case (Cons e es)
  from leaves_step [of i x c w s e H L] Cons.prems
  have h: "settled i x c w (snd (login_step H L e s))" "filter (\<lambda>a. fst a = c) (fst (login_step H L e s)) = []"
    by (auto simp: filter_empty_conv)
  from Cons.IH [OF h(1)] Cons.prems(2) h(2) show ?case by (auto split: prod.splits)
qed simp

lemma run_steps_append:
  "run_steps step (es @ fs) p = (case run_steps step es p of (r, q) \<Rightarrow> (case run_steps step fs q of (r', q') \<Rightarrow> (r @ r', q')))"
  by (induction es arbitrary: p) (auto split: prod.splits)

text \<open>
  C20: a login that nobody disturbs is answered by its own session. While \<open>srp_verify\<close> of
  client \<open>c\<close> waits for its thread, let other clients verify, have their threads run and be
  resumed in any order, but start no login and send no challenge. Then \<open>c\<close> gets one
  answer, the one that the handler gives without interruption: the key of the session that
  was current when it asked if its proof of the server is right, a refusal otherwise.
\<close>

theorem undisturbed_login:
  assumes "settled i x c None s" "param_get params ''M2'' (PStr []) = Inr M2" "truthy M2"
    and "list_all (leaves_login c) es1" "list_all (leaves_login c) es2" "ms_srp_session m = Some x"
  shows "filter (\<lambda>a. fst a = c) (fst (run_steps (login_step H L) (Ask c (Verify params) # es1 @ Work c # es2 @ [Resume c]) s)) =
      [(c, fst (handle_srp_verify params m))] \<and>
    fst (handle_srp_verify params m) = Inr (if verify_server x M2 then key_answer s else not_authenticated (lit ''Server authentication failed.''))"
proof -
  let ?s = "s\<lparr>lg_waiting := (lg_waiting s)(c \<mapsto> Checking i M2)\<rparr>"
  have i: "lg_current s = Some i" "object i s = x" "lg_waiting s c = None" using assms(1) by (simp_all add: settled_def)
  have a: "login_step H L (Ask c (Verify params)) s = ([], ?s)"
    using i assms(2,3) by (simp add: begin_verify_cases)
  have "settled i x c (Some (Checking i M2)) ?s" using assms(1) by (simp add: settled_def object_def)
  from leaves_run [OF this assms(4), of H L] obtain r1 t1 where
    t1: "run_steps (login_step H L) es1 ?s = (r1, t1)" "settled i x c (Some (Checking i M2)) t1" "filter (\<lambda>a. fst a = c) r1 = []"
    by blast
  let ?t = "t1\<lparr>lg_waiting := (lg_waiting t1)(c \<mapsto> Checked (verify_server x M2))\<rparr>"
  have w: "login_step H L (Work c) t1 = ([], ?t)" "settled i x c (Some (Checked (verify_server x M2))) ?t"
    using t1(2) by (auto simp: settled_def object_def)
  from leaves_run [OF w(2) assms(5), of H L] obtain r2 t2 where
    t2: "run_steps (login_step H L) es2 ?t = (r2, t2)" "settled i x c (Some (Checked (verify_server x M2))) t2"
      "filter (\<lambda>a. fst a = c) r2 = []"
    by blast
  have k: "key_answer t2 = key_answer s" using t2(2) i by (simp add: key_answer_def settled_def)
  have "fst (handle_srp_verify params m) = Inr (if verify_server x M2 then key_answer s else not_authenticated (lit ''Server authentication failed.''))"
    using assms(2,3) i by (simp add: handle_verify_cases [OF assms(6)] key_answer_def)
  moreover have "filter (\<lambda>a. fst a = c) (fst (run_steps (login_step H L) (Ask c (Verify params) # es1 @ Work c # es2 @ [Resume c]) s)) =
      [(c, Inr (if verify_server x M2 then key_answer s else not_authenticated (lit ''Server authentication failed.'')))]"
    using a t1 w(1) t2 k by (simp add: run_steps_append settled_def)
  ultimately show ?thesis by simp
qed

lemma challenge_sets_key: "process_challenge L salt B y = (Inr M1, z) \<Longrightarrow> \<exists>K. srp_K z = Some K"
  by (auto simp: process_challenge_def Let_def bindE_eq_Inr)

text \<open>
  C19: a login that another one disturbs gets the other's key. Client \<open>c\<close> has the right proof
  of its server and waits for the check. Before it is resumed, client \<open>d\<close> starts a login and
  lets its session accept a challenge; nobody has proved anything to that session. Then \<open>c\<close>
  is told that it is authenticated, with the session key of \<open>d\<close>. When \<open>d\<close> only starts a
  login, \<open>c\<close> is refused although its server's proof was right.
\<close>

theorem overlapping_logins_mix_keys:
  assumes "settled i x c None s" "lg_waiting s d = None" "c \<noteq> d"
    and "param_get proof ''M2'' (PStr []) = Inr M2" "truthy M2" "verify_server x M2"
    and "param_get login ''username'' (PStr []) = Inr (PStr user)" "user \<noteq> []"
      "param_get login ''password'' (PStr []) = Inr (PStr pw)" "pw \<noteq> []"
    and "new_srp_session user pw (tape (lg_world s)) = (Inr y, u)" "A_hex y = Inr A"
    and "param_get answer ''salt'' (PStr []) = Inr salt" "truthy salt" "param_get answer ''B'' (PStr []) = Inr B" "truthy B"
    and "process_challenge L salt B y = (Inr M1, z)"
  shows "\<exists>K. srp_K z = Some K \<and>
    fst (run_steps (login_step H L) [Ask c (Verify proof), Work c, Ask d (Start login), Ask d (Challenge answer), Work d, Resume d, Resume c] s) =
      [(d, Inr [(lit ''A'', PStr A)]), (d, Inr [(lit ''M1'', PStr M1)]),
       (c, Inr [(lit ''authenticated'', PBool True), (lit ''session_key'', PStr (hex K))])] \<and>
    fst (run_steps (login_step H L) [Ask c (Verify proof), Ask d (Start login), Work c, Resume c] s) =
      [(d, Inr [(lit ''A'', PStr A)]), (c, Inr (not_authenticated (lit ''Verification failed.'')))]"
proof -
  have i: "lg_current s = Some i" "lg_objects s ! i = x" "lg_waiting s c = None" "i < length (lg_objects s)"
    using assms(1) by (simp_all add: settled_def object_def)
  have y: "srp_K y = None" using new_srp_session_wf [OF assms(11)] by blast
  obtain K where K: "srp_K z = Some K" using challenge_sets_key [OF assms(17)] by blast
  have st: "start_login login v = (Inr [(lit ''A'', PStr A)],
      v\<lparr>lg_world := (lg_world v)\<lparr>tape := u\<rparr>, lg_objects := lg_objects v @ [y], lg_current := Some (length (lg_objects v))\<rparr>)"
    if "tape (lg_world v) = tape (lg_world s)" for v
    using that assms(7-12) by (simp add: start_login_def zoomE_def on_tape_sel tryE_def)
  have c: "begin_login (Challenge answer) v = (Inr (Inr (Proving j salt B)), v)" if "lg_current v = Some j" for v j
    using that assms(13-16) by (simp add: begin_challenge_def)
  have v: "begin_login (Verify proof) s = (Inr (Inr (Checking i M2)), s)"
    using i assms(4,5) by (simp add: begin_verify_def)
  show ?thesis
    using i y K st c v assms(2,3,6,17)
    by (simp add: object_def key_answer_def session_key_hex_def nth_append)
qed

text \<open>A process with one session, whose server's proof is the single byte 7.\<close>

definition example_login :: srp_session where
  "example_login = \<lparr>srp_username = lit ''v'', srp_password = lit ''q'', srp_a = 0, srp_A = 1, srp_K = Some [1], srp_HAMK = Some [7]\<rparr>"

definition example_logins :: login_state where
  "example_logins = \<lparr>lg_objects = [example_login], lg_current = Some 0, lg_waiting = (\<lambda>_. None), lg_world = example_world\<rparr>"

lemma example_settled: "settled 0 example_login 1 None example_logins"
  by (simp add: settled_def example_logins_def object_def)

lemma example_proof:
  "param_get (proof_params [7]) ''M2'' (PStr []) = Inr (PHex [7])" "truthy (PHex [7])" "verify_server example_login (PHex [7])"
  by (simp_all add: proof_params_def param_get_def verify_server_iff example_login_def hex_not_empty del: hex.simps)

theorem undisturbed_login_witness:
  "filter (\<lambda>a. fst a = 1) (fst (run_steps (login_step example_main_host example_lib)
      (Ask 1 (Verify (proof_params [7])) # [Ask 2 (Verify (proof_params [8])), Work 2] @ Work 1 # [Resume 2] @ [Resume 1]) example_logins)) =
    [(1, Inr [(lit ''authenticated'', PBool True), (lit ''session_key'', PStr (hex [1]))])]"
  using undisturbed_login [OF example_settled example_proof(1,2), of "[Ask 2 (Verify (proof_params [8])), Work 2]" "[Resume 2]"
      "(new_main example_world)\<lparr>ms_srp_session := Some example_login\<rparr>" example_main_host example_lib] example_proof(3)
  by (simp add: key_answer_def example_logins_def object_def session_key_hex_def example_login_def del: hex.simps)

theorem overlapping_logins_mix_keys_witness:
  "\<exists>K z M1 Ah. process_challenge one_hash_lib (PHex [7]) (PHex (be_bytes 384 10))
      \<lparr>srp_username = lit ''u'', srp_password = lit ''p'', srp_a = 0, srp_A = 1, srp_K = None, srp_HAMK = None\<rparr> = (Inr M1, z) \<and>
    srp_K z = Some K \<and>
    fst (run_steps (login_step example_main_host one_hash_lib) [Ask 1 (Verify (proof_params [7])), Work 1,
        Ask 2 (Start (login_params (lit ''u'') (lit ''p''))), Ask 2 (Challenge (challenge_params [7] (be_bytes 384 10))), Work 2,
        Resume 2, Resume 1] example_logins) =
      [(2, Inr [(lit ''A'', PStr Ah)]), (2, Inr [(lit ''M1'', PStr M1)]),
       (1, Inr [(lit ''authenticated'', PBool True), (lit ''session_key'', PStr (hex K))])]"
proof -
  let ?y = "\<lparr>srp_username = lit ''u'', srp_password = lit ''p'', srp_a = 0, srp_A = 1, srp_K = None, srp_HAMK = None\<rparr>"
  have y: "new_srp_session (lit ''u'') (lit ''p'') (tape (lg_world example_logins)) = (Inr ?y, \<lambda>_. 0)"
    using new_srp_session_zero by (simp add: example_logins_def example_world_def)
  have wf: "srp_wf ?y" by (simp add: srp_wf_def srp_N_def)
  obtain M1 z Ah where z: "process_challenge one_hash_lib (PHex [7]) (PHex (be_bytes 384 10)) ?y = (Inr M1, z)" "A_hex ?y = Inr Ah"
    using srp_exchange [OF wf _ _ example_server] by auto
  have l: "param_get (login_params u p) ''username'' (PStr []) = Inr (PStr u)" "param_get (login_params u p) ''password'' (PStr []) = Inr (PStr p)"
    for u p by (simp_all add: login_params_def param_get_def)
  have ne: "lit ''u'' \<noteq> []" "lit ''p'' \<noteq> []" by (simp_all add: lit_def)
  have c: "param_get (challenge_params a b) ''salt'' (PStr []) = Inr (PHex a)" "param_get (challenge_params a b) ''B'' (PStr []) = Inr (PHex b)"
    for a b by (simp_all add: challenge_params_def param_get_def)
  have "be_bytes 384 10 \<noteq> []" by (metis length_be_bytes list.size(3) zero_neq_numeral)
  then have t: "truthy (PHex [7])" "truthy (PHex (be_bytes 384 10))" by (auto simp: hex_not_empty simp del: hex.simps)
  have d: "lg_waiting example_logins 2 = None" "(1 :: nat) \<noteq> 2" by (simp_all add: example_logins_def)
  show ?thesis
    using overlapping_logins_mix_keys [OF example_settled d example_proof l(1) ne(1) l(2) ne(2) y z(2) c(1) t(1) c(2) t(2) z(1)] z(1) by blast
qed

end
