(* ===== verification/Spec2Isabelle.thy ===== *)
theory Spec2Isabelle
  imports Srp Session_Run Service_Conversation Service_Login Store_Refinement Rpc_Server Peer_Check
    Main_Interleaving Main_Logins
begin

text \<open>
  A model of the client cryptography of DESperate, src/client/cryptography (Python), and the
  theorems that make it correct.

  The program. Two processes that a local client talks to over newline-delimited JSON.
  crypto_service.py logs a user in with SRP, keeps the user's identity in an encrypted
  keystore, sets up conversations with PQXDH, encrypts them with the Double Ratchet and
  signs every message. main.py is an asyncio variant with the same handshake, one symmetric
  key per conversation, and no signatures. Both rest on core/: header_counter, kdf and
  password, aead, srp_session, keys, signatures, pqxdh, state_store and dh_ratchet. All of
  these files are modelled.

  Theories and what they model.
  \<^item> Language and standard library: \<open>Py_Prelude\<close> (exceptions as the datatype \<open>exn\<close>, results
    \<open>exn + 'a\<close>, effects that keep the state changes made before a raise, and the contracts
    shared by the components: the locales \<open>codec\<close>, \<open>strict_codec\<close>, \<open>sealed_box\<close>), \<open>Py_Bytes\<close>
    (bytes as 8-bit words, integer fields, the random tape), \<open>Py_Text\<close> (code points, UTF-8,
    hexadecimal), \<open>Py_Value\<close> (dynamic values and dictionaries), \<open>Py_Json\<close> (\<open>json.dumps\<close> and
    \<open>json.loads\<close>), \<open>Channel\<close> (the locales \<open>channel\<close>, steps between two parties that
    deliver, \<open>metered_channel\<close>, with counters, and \<open>simulation\<close> of one machine by another).
  \<^item> Third-party packages: \<open>Crypto_Lib\<close>, the record \<open>crypto\<close> of parameters with their documented
    behaviour as predicates (\<open>aead_correct\<close>, \<open>x25519_correct\<close>, ...) and an instance for the
    witnesses; \<open>Dh_Ratchet\<close>, the record \<open>ratchet_lib\<close> for the doubleratchet package.
  \<^item> \<open>Constants\<close>: core/constants.py. \<open>Header_Counter\<close>: core/header_counter.py. \<open>Kdf\<close>:
    core/kdf.py and core/password.py. \<open>Aead\<close>: core/aead.py. \<open>Srp\<close>: core/srp_session.py, with
    the server's side as a specification. \<open>Keys\<close>: core/keys.py. \<open>Signatures\<close>:
    core/signatures.py. \<open>Pqxdh\<close>: core/pqxdh.py. \<open>State_Store\<close>: core/state_store.py over a
    disk with a plan of write outcomes; \<open>Store_Refinement\<close>: the two maps that it implements.
  \<^item> \<open>Dh_Ratchet\<close>, \<open>Session\<close>, \<open>Session_Run\<close>: core/dh_ratchet (dh_ratchet.py, ratchet_kdf.py,
    session.py) and runs of its sessions.
  \<^item> \<open>Crypto_Service\<close>: the globals of crypto_service.py are the record \<open>service\<close>, each branch
    of \<open>_handle\<close> is a definition, \<open>handle\<close> dispatches. \<open>Service_Invariant\<close> (what every request
    keeps and answers), \<open>Service_Keystore\<close> and \<open>Service_Login\<close> (registration, unlocking,
    login), \<open>Service_Auth\<close> (reachable states, who may do what), \<open>Service_Delivery\<close> and
    \<open>Service_Conversation\<close> (two services that talk to each other).
  \<^item> \<open>Rpc_Server\<close>: \<open>_process_line\<close>, \<open>_serve_connection\<close> and the accept loop of \<open>main\<close>.
  \<^item> \<open>Main_Service\<close>: main.py, its globals as the record \<open>main_state\<close>, one definition per
    handler, \<open>handle_client\<close>; a handler that waits for a handshake is its beginning and a \<open>job\<close>.
    \<open>Main_Requests\<close>, \<open>Main_Registration\<close>, \<open>Main_Conversation\<close>: its properties.
    \<open>Main_Interleaving\<close>: the step relation \<open>main_step\<close> of handlers that overlap. \<open>Main_Logins\<close>:
    the SRP requests when they overlap, with session objects, and the lemma that one at a time they
    are the handlers of \<open>Main_Service\<close>.
  \<^item> \<open>Peer_Check\<close>: \<open>_check_peer_uid\<close>, which nothing calls.

  What the groups of lemmas show.
  \<^item> Round trips, each an interpretation of \<open>codec\<close> or \<open>strict_codec\<close>: integer fields, UTF-8,
    hexadecimal, JSON, private bundles, initiation bundles, signed ciphertexts, wires.
  \<^item> Encryption layers as \<open>sealed_box\<close>: messages, headers, the ratchet's AEAD; distinct header
    nonces by \<open>nonce_source\<close>; the encrypted files as \<open>state_storage\<close>.
  \<^item> Refinement: one lemma per operation of the store (\<open>agree\<close>) makes the encrypted files simulate the
    maps; the channel that two sessions implement; the fast path of unlocking against the slow one.
  \<^item> Agreement: both sides of PQXDH, of SRP and of the ratchet step compute the same secret.
  \<^item> Invariants: \<open>yieldsE P m Q\<close> says that \<open>m\<close> keeps \<open>P\<close> and returns only values with \<open>Q\<close>; one
    lemma per definition, composed by \<open>yields_intros\<close>, gives the invariants \<open>service_ok\<close> and
    \<open>main_ok\<close> of the two processes. \<open>raises_only\<close> bounds the exceptions of main.py's handlers.
  \<^item> From end to end: registration, login and unlocking; conversations with restarts; every
    request line answered, however the stream is cut into chunks, until \<open>recv\<close> or \<open>sendall\<close> raises.
  \<^item> Error behaviour: refused handshakes, signatures, wires and SRP challenges leave the state
    as described; what a failed or short write leaves on disk; what a forged or repeated
    first message costs, in memory and on disk; that main.py cannot complete a handshake that used a prekey, and that
    its registration replaces the keystore before it looks at the nonce; that overlapping
    handshakes of one conversation mix their keys, and that without them keys are stable; that a
    login which overlaps the last step of another gives the other its key, and that without one each
    login is answered by its own session.

  Bounds and fuel. The JSON parser recurses on fuel of twice the text's length plus one, which
  is enough for every text (\<open>loads_fuel\<close>). Message indices are unsigned 32-bit fields, so a
  conversation is bounded by $2^{32} - 2$ messages (\<open>budget\<close>). A header counter refuses after
  MAX\_HEADER\_MESSAGES. \<open>serve_buffer\<close> terminates because every line shortens the buffer.

  Assumptions. No theorem assumes that a cipher, a signature or a hash is unbreakable; the
  hypotheses about libraries are their documented functional behaviour. A disk is \<open>quiet\<close>
  when its writes complete; theorems about failures quantify over all write outcomes.

  Not modelled: the recursion limit of the interpreter and the limit on the digits of an
  integer; the rounding of float literals (1.50 is not printed as 1.5), \<open>float\<close> of a string or of an integer from $2^{53}$ on, and decimal digits
  of other scripts in \<open>int\<close> of a string; request values of another type where the code
  expects a name, a password, a plaintext or (in crypto_service.py) an identifier to be a string
  (they raise \<open>TypeError\<close> at the first use); \<open>_zeroise\<close> (overwrites a buffer that is not
  used again); looking up a file name longer than the file system allows (it raises \<open>OSError\<close>, the
  model reports absence); \<open>__repr__\<close> methods and logging; creating the
  listening sockets; in main.py, handlers that overlap an unlocking
  or a registration (each is one step; they touch neither conversations nor SRP sessions), two threads
  inside one SRP session object at the same time (a method call is one step); the tests, and the client
  and server programs in other languages.
\<close>

end
